theory Spec2Isabelle
  imports Complex_Main "HOL-Library.Log_Nat"
begin

unbundle bit_operations_syntax

section \<open>JavaScript numbers\<close>

text \<open>
  Coordinates, deltas and sizes of the collision handler are JavaScript numbers, the
  binary64 values of IEEE 754. A number is modelled as the real number it denotes or one of
  the three non-finite values, so that division by zero, \<open>Infinity\<close> (the start value of
  \<open>sW\<close> and \<open>sH\<close>) and \<open>NaN\<close> (the square root of a negative number, \<open>0 / 0\<close>) take the
  branches they take in the source. Addition, subtraction, multiplication, division and
  the square root round their exact result to binary64; negation, the absolute value, the
  comparisons, \<open>Math.min\<close>, \<open>Math.max\<close> and \<open>Math.ceil\<close> are exact. The sign of zero is not
  modelled.
\<close>

datatype jsnum = Fin real | PInf | NInf | NaN

text \<open>
  Rounding to the nearest whole number, a tie going to the even one.
\<close>

definition roundEven :: "real \<Rightarrow> int" where
  "roundEven v =
     (let f = \<lfloor>v\<rfloor>; d = v - of_int f
      in if d < 1 / 2 then f else if 1 / 2 < d then f + 1 else if even f then f else f + 1)"

text \<open>
  The binade of a number other than zero: the exponent \<open>n\<close> with
  \<open>2 powi n \<le> \<bar>r\<bar> < 2 powi (n + 1)\<close>, read off the bit length of the whole part of \<open>\<bar>r\<bar>\<close>,
  or of its reciprocal where \<open>\<bar>r\<bar> < 1\<close>.
\<close>

definition binade :: "real \<Rightarrow> int" where
  "binade r =
     (if 1 \<le> \<bar>r\<bar> then bitlen \<lfloor>\<bar>r\<bar>\<rfloor> - 1 else - bitlen (\<lceil>1 / \<bar>r\<bar>\<rceil> - 1))"

text \<open>
  The exponent of the unit in the last place of a binary64 number of the magnitude of \<open>r\<close>:
  53 significant bits in the binade of \<open>r\<close>, and the fixed spacing \<open>2 powi - 1074\<close> of the
  subnormal numbers below \<open>2 powi - 1022\<close>.
\<close>

definition ulpExponent :: "real \<Rightarrow> int" where
  "ulpExponent r = max (binade r) (- 1022) - 52"

text \<open>
  The binary64 value of an exact result (round to nearest, ties to even): the nearest
  multiple of the unit in the last place, and an infinity once that reaches \<open>2 ^ 1024\<close>.
\<close>

definition round64 :: "real \<Rightarrow> jsnum" where
  "round64 r =
     (if r = 0 then Fin 0
      else let e = ulpExponent r;
               v = of_int (roundEven (r / 2 powi e)) * 2 powi e
           in if 2 ^ 1024 \<le> \<bar>v\<bar> then (if 0 < r then PInf else NInf) else Fin v)"

fun jneg :: "jsnum \<Rightarrow> jsnum" where
  "jneg (Fin a) = Fin (- a)"
| "jneg PInf = NInf"
| "jneg NInf = PInf"
| "jneg NaN = NaN"

fun jabs :: "jsnum \<Rightarrow> jsnum" where
  "jabs (Fin a) = Fin \<bar>a\<bar>"
| "jabs PInf = PInf"
| "jabs NInf = PInf"
| "jabs NaN = NaN"

fun jadd :: "jsnum \<Rightarrow> jsnum \<Rightarrow> jsnum" where
  "jadd (Fin a) (Fin b) = round64 (a + b)"
| "jadd NaN _ = NaN"
| "jadd _ NaN = NaN"
| "jadd PInf NInf = NaN"
| "jadd NInf PInf = NaN"
| "jadd PInf _ = PInf"
| "jadd _ PInf = PInf"
| "jadd NInf _ = NInf"
| "jadd _ NInf = NInf"

definition jsub :: "jsnum \<Rightarrow> jsnum \<Rightarrow> jsnum" where
  "jsub a b = jadd a (jneg b)"

fun jmul :: "jsnum \<Rightarrow> jsnum \<Rightarrow> jsnum" where
  "jmul (Fin a) (Fin b) = round64 (a * b)"
| "jmul NaN _ = NaN"
| "jmul _ NaN = NaN"
| "jmul (Fin a) PInf = (if a = 0 then NaN else if 0 < a then PInf else NInf)"
| "jmul (Fin a) NInf = (if a = 0 then NaN else if 0 < a then NInf else PInf)"
| "jmul PInf (Fin b) = (if b = 0 then NaN else if 0 < b then PInf else NInf)"
| "jmul NInf (Fin b) = (if b = 0 then NaN else if 0 < b then NInf else PInf)"
| "jmul PInf PInf = PInf"
| "jmul PInf NInf = NInf"
| "jmul NInf PInf = NInf"
| "jmul NInf NInf = PInf"

fun jdiv :: "jsnum \<Rightarrow> jsnum \<Rightarrow> jsnum" where
  "jdiv (Fin a) (Fin b) =
     (if b = 0 then (if a = 0 then NaN else if 0 < a then PInf else NInf) else round64 (a / b))"
| "jdiv NaN _ = NaN"
| "jdiv _ NaN = NaN"
| "jdiv (Fin a) PInf = Fin 0"
| "jdiv (Fin a) NInf = Fin 0"
| "jdiv PInf (Fin b) = (if 0 \<le> b then PInf else NInf)"
| "jdiv NInf (Fin b) = (if 0 \<le> b then NInf else PInf)"
| "jdiv PInf PInf = NaN"
| "jdiv PInf NInf = NaN"
| "jdiv NInf PInf = NaN"
| "jdiv NInf NInf = NaN"

text \<open>\<open>a < b\<close>; every comparison with \<open>NaN\<close> is false.\<close>

fun jlt :: "jsnum \<Rightarrow> jsnum \<Rightarrow> bool" where
  "jlt (Fin a) (Fin b) = (a < b)"
| "jlt NaN _ = False"
| "jlt _ NaN = False"
| "jlt NInf NInf = False"
| "jlt NInf _ = True"
| "jlt PInf _ = False"
| "jlt (Fin a) PInf = True"
| "jlt (Fin a) NInf = False"

definition jgt :: "jsnum \<Rightarrow> jsnum \<Rightarrow> bool" where
  "jgt a b = jlt b a"

text \<open>\<open>a === b\<close> on numbers: \<open>NaN\<close> equals nothing, itself included.\<close>

definition jeq :: "jsnum \<Rightarrow> jsnum \<Rightarrow> bool" where
  "jeq a b = (a = b \<and> a \<noteq> NaN)"

definition jle :: "jsnum \<Rightarrow> jsnum \<Rightarrow> bool" where
  "jle a b = (jlt a b \<or> jeq a b)"

definition jge :: "jsnum \<Rightarrow> jsnum \<Rightarrow> bool" where
  "jge a b = jle b a"

text \<open>
  \<open>Math.sqrt\<close>, \<open>Math.pow(x, 2)\<close>, \<open>Math.min\<close>, \<open>Math.max\<close>, \<open>Math.ceil\<close>. The square is taken as the
  rounded product of the number with itself.
\<close>

fun jsqrt :: "jsnum \<Rightarrow> jsnum" where
  "jsqrt (Fin a) = (if a < 0 then NaN else round64 (sqrt a))"
| "jsqrt PInf = PInf"
| "jsqrt NInf = NaN"
| "jsqrt NaN = NaN"

fun jpow2 :: "jsnum \<Rightarrow> jsnum" where
  "jpow2 (Fin a) = round64 (a * a)"
| "jpow2 PInf = PInf"
| "jpow2 NInf = PInf"
| "jpow2 NaN = NaN"

definition jmin :: "jsnum \<Rightarrow> jsnum \<Rightarrow> jsnum" where
  "jmin a b = (if a = NaN \<or> b = NaN then NaN else if jlt b a then b else a)"

definition jmax :: "jsnum \<Rightarrow> jsnum \<Rightarrow> jsnum" where
  "jmax a b = (if a = NaN \<or> b = NaN then NaN else if jlt a b then b else a)"

fun jceil :: "jsnum \<Rightarrow> jsnum" where
  "jceil (Fin a) = Fin (of_int \<lceil>a\<rceil>)"
| "jceil PInf = PInf"
| "jceil NInf = NInf"
| "jceil NaN = NaN"

text \<open>A number used as a condition: zero and \<open>NaN\<close> are false.\<close>

fun truthy :: "jsnum \<Rightarrow> bool" where
  "truthy (Fin a) = (a \<noteq> 0)"
| "truthy NaN = False"
| "truthy PInf = True"
| "truthy NInf = True"

text \<open>
  Reading a property of \<open>null\<close> or \<open>undefined\<close> throws a \<open>TypeError\<close>; a function that can
  throw returns the error on the left of a sum.
\<close>

datatype jsError = TypeError

section \<open>Vectors, bounding boxes, shapes and collision records\<close>

record vector =
  vx :: jsnum
  vy :: jsnum
  vz :: jsnum

text \<open>\<open>v.setXYZ(x, y)\<close>: the third component, not given, is zero.\<close>

definition setXYZ :: "jsnum \<Rightarrow> jsnum \<Rightarrow> vector" where
  "setXYZ a b = \<lparr>vx = a, vy = b, vz = Fin 0\<rparr>"

text \<open>
  Modelled from the spec: \<open>Vector.getInverse\<close> is not among the sources. The spec calls its
  result the inverted contact vector: a new vector with every component negated.
\<close>

definition getInverse :: "vector \<Rightarrow> vector" where
  "getInverse v = \<lparr>vx = jneg (vx v), vy = jneg (vy v), vz = jneg (vz v)\<rparr>"

text \<open>
  Modelled from the spec: \<open>Vector.normalize\<close> is not among the sources. The spec speaks of a
  normalized contact vector: each component divided by the Euclidean length.
\<close>

definition normalize :: "vector \<Rightarrow> vector" where
  "normalize v =
     (let m = jsqrt (jadd (jadd (jpow2 (vx v)) (jpow2 (vy v))) (jpow2 (vz v)))
      in \<lparr>vx = jdiv (vx v) m, vy = jdiv (vy v) m, vz = jdiv (vz v) m\<rparr>)"

record aabb =
  left :: jsnum
  top :: jsnum
  right :: jsnum
  bottom :: jsnum
  width :: jsnum
  height :: jsnum
  halfWidth :: jsnum
  halfHeight :: jsnum

datatype shapeType = Rectangle | Circle

datatype axis = AxisX | AxisY

text \<open>Entities are objects compared by identity; the model names each by a number.\<close>

type_synonym entityId = nat

record shape =
  type :: shapeType
  x :: jsnum
  y :: jsnum
  radius :: jsnum
  aABB :: aabb
  owner :: "entityId option"
  collisionType :: string

text \<open>
  Modelled from the spec: \<open>CollisionShape.moveX\<close> is not among the sources. It translates the
  shape to a position on the \<open>x\<close> axis only and keeps the cached box consistent with the new
  position.
\<close>

definition moveX :: "jsnum \<Rightarrow> shape \<Rightarrow> shape" where
  "moveX nx s =
     s\<lparr>x := nx,
       aABB := (aABB s)\<lparr>left := jsub nx (halfWidth (aABB s)),
                        right := jadd nx (halfWidth (aABB s))\<rparr>\<rparr>"

text \<open>
  Modelled from the spec: \<open>CollisionShape.moveY\<close> is not among the sources. It translates the
  shape to a position on the \<open>y\<close> axis only and keeps the cached box consistent with the new
  position.
\<close>

definition moveY :: "jsnum \<Rightarrow> shape \<Rightarrow> shape" where
  "moveY ny s =
     s\<lparr>y := ny,
       aABB := (aABB s)\<lparr>top := jsub ny (halfHeight (aABB s)),
                        bottom := jadd ny (halfHeight (aABB s))\<rparr>\<rparr>"

text \<open>
  Modelled from the spec: \<open>CollisionData\<close> is not among the sources. A collision record
  holds whether a collision occurred, the direction, the resolved position, the magnitude
  of the movement, the two shapes and the contact vector.
\<close>

record collisionData =
  occurred :: bool
  direction :: jsnum
  position :: jsnum
  deltaMovement :: jsnum
  cdAABB :: "aabb option"
  thisShape :: "shape option"
  thatShape :: "shape option"
  vector :: vector
  stuck :: jsnum

text \<open>
  Modelled from the spec: \<open>CollisionData.setUp()\<close> is not among the sources. A fresh record
  reports no collision and has no shapes yet.
\<close>

definition CollisionData_setUp :: collisionData where
  "CollisionData_setUp =
     \<lparr>occurred = False, direction = Fin 0, position = Fin 0, deltaMovement = Fin 0,
      cdAABB = None, thisShape = None, thatShape = None,
      vector = setXYZ (Fin 0) (Fin 0), stuck = Fin 0\<rparr>"

text \<open>
  Modelled from the spec: \<open>CollisionData.set\<close> is not among the sources. It stores its nine
  arguments in the record.
\<close>

definition cd_set ::
  "bool \<Rightarrow> jsnum \<Rightarrow> jsnum \<Rightarrow> jsnum \<Rightarrow> aabb \<Rightarrow> shape \<Rightarrow> shape \<Rightarrow> vector \<Rightarrow> jsnum \<Rightarrow> collisionData"
where
  "cd_set occ dir pos delta box this that v st =
     \<lparr>occurred = occ, direction = dir, position = pos, deltaMovement = delta,
      cdAABB = Some box, thisShape = Some this, thatShape = Some that,
      vector = v, stuck = st\<rparr>"

section \<open>The axis resolver: \<open>findMinShapeMovementCollision\<close>\<close>

text \<open>
  From \<open>HandlerCollision.js\<close>: \<open>findMinShapeMovementCollision\<close> with its helpers (lines 771 to
  961), \<open>findMinAxisMovement\<close> (lines 737 to 758) and the assignment of the settled position
  in \<open>resolveCollisionPosition\<close> (lines 705 to 710).
\<close>

definition getMovementDistance :: "jsnum \<Rightarrow> jsnum \<Rightarrow> jsnum" where
  "getMovementDistance currentDistance minimumDistance =
     jsqrt (jsub (jpow2 minimumDistance) (jpow2 currentDistance))"

definition getCorner :: "jsnum \<Rightarrow> jsnum \<Rightarrow> jsnum \<Rightarrow> jsnum" where
  "getCorner circlePos rectanglePos half =
     (let diff = jsub circlePos rectanglePos
      in jsub diff (jmul (jdiv diff (jabs diff)) half))"

text \<open>
  \<open>getOffsetForCircleVsAABBX(circle, rect, moving, direction, v)\<close>. The source tests
  \<open>moving === circle\<close>; every caller passes its own shape as \<open>moving\<close>, so the test is
  the flag \<open>movingIsCircle\<close> here. The result is the offset and the vector \<open>v\<close> as the
  function leaves it.
\<close>

definition getOffsetForCircleVsAABBX ::
  "shape \<Rightarrow> shape \<Rightarrow> bool \<Rightarrow> jsnum \<Rightarrow> vector \<Rightarrow> jsnum \<times> vector" where
  "getOffsetForCircleVsAABBX circle rect movingIsCircle dir v =
     (let box = aABB rect; hw = halfWidth box; cx = x circle; cy = y circle
      in if jge cy (top box) \<and> jle cy (bottom box) then (jadd hw (radius circle), v)
         else
           (let yc = getCorner cy (y rect) (halfHeight box);
                newAxisPosition = jadd hw (getMovementDistance yc (radius circle))
            in if movingIsCircle
               then (newAxisPosition,
                     normalize (v\<lparr>vx := jdiv (jneg (getCorner (jsub cx (jmul dir newAxisPosition)) (x rect) hw)) (Fin 2),
                                   vy := jneg yc\<rparr>))
               else (newAxisPosition,
                     normalize (v\<lparr>vx := jdiv (getCorner cx (jsub (x rect) (jmul dir newAxisPosition)) hw) (Fin 2),
                                   vy := yc\<rparr>))))"

definition getOffsetForCircleVsAABBY ::
  "shape \<Rightarrow> shape \<Rightarrow> bool \<Rightarrow> jsnum \<Rightarrow> vector \<Rightarrow> jsnum \<times> vector" where
  "getOffsetForCircleVsAABBY circle rect movingIsCircle dir v =
     (let box = aABB rect; hh = halfHeight box; cx = x circle; cy = y circle
      in if jge cx (left box) \<and> jle cx (right box) then (jadd hh (radius circle), v)
         else
           (let xc = getCorner cx (x rect) (halfWidth box);
                newAxisPosition = jadd hh (getMovementDistance xc (radius circle))
            in if movingIsCircle
               then (newAxisPosition,
                     normalize (v\<lparr>vy := jdiv (jneg (getCorner (jsub cy (jmul dir newAxisPosition)) (y rect) hh)) (Fin 2),
                                   vx := jneg xc\<rparr>))
               else (newAxisPosition,
                     normalize (v\<lparr>vy := jdiv (getCorner cy (jsub (y rect) (jmul dir newAxisPosition)) hh) (Fin 2),
                                   vx := xc\<rparr>))))"

text \<open>
  The decision tree \<open>findAxisCollisionPosition[axis][thisShape.type][thatShape.type]\<close>. Each
  entry returns \<open>returnInfo\<close>: the contact position and the contact vector.
\<close>

fun findAxisCollisionPosition ::
  "axis \<Rightarrow> shapeType \<Rightarrow> shapeType \<Rightarrow> jsnum \<Rightarrow> shape \<Rightarrow> shape \<Rightarrow> jsnum \<times> vector" where
  "findAxisCollisionPosition AxisX Rectangle Rectangle dir this that =
     (jsub (x that) (jmul dir (jadd (halfWidth (aABB that)) (halfWidth (aABB this)))),
      setXYZ dir (Fin 0))"
| "findAxisCollisionPosition AxisX Rectangle Circle dir this that =
     (let (off, v) = getOffsetForCircleVsAABBX that this False dir (setXYZ dir (Fin 0))
      in (jsub (x that) (jmul dir off), v))"
| "findAxisCollisionPosition AxisX Circle Rectangle dir this that =
     (let (off, v) = getOffsetForCircleVsAABBX this that True dir (setXYZ dir (Fin 0))
      in (jsub (x that) (jmul dir off), v))"
| "findAxisCollisionPosition AxisX Circle Circle dir this that =
     (let dy = jsub (y that) (y this);
          pos = jsub (x that) (jmul dir (getMovementDistance dy (jadd (radius this) (radius that))))
      in (pos, normalize (setXYZ (jsub (x that) pos) dy)))"
| "findAxisCollisionPosition AxisY Rectangle Rectangle dir this that =
     (jsub (y that) (jmul dir (jadd (halfHeight (aABB that)) (halfHeight (aABB this)))),
      setXYZ (Fin 0) dir)"
| "findAxisCollisionPosition AxisY Rectangle Circle dir this that =
     (let (off, v) = getOffsetForCircleVsAABBY that this False dir (setXYZ (Fin 0) dir)
      in (jsub (y that) (jmul dir off), v))"
| "findAxisCollisionPosition AxisY Circle Rectangle dir this that =
     (let (off, v) = getOffsetForCircleVsAABBY this that True dir (setXYZ (Fin 0) dir)
      in (jsub (y that) (jmul dir off), v))"
| "findAxisCollisionPosition AxisY Circle Circle dir this that =
     (let dx = jsub (x that) (x this);
          pos = jsub (y that) (jmul dir (getMovementDistance dx (jadd (radius this) (radius that))))
      in (pos, normalize (setXYZ dx (jsub (y that) pos))))"

text \<open>\<open>shape[axis]\<close>, and the move of the previous shape to the goal on that axis.\<close>

fun axisOf :: "axis \<Rightarrow> shape \<Rightarrow> jsnum" where
  "axisOf AxisX s = x s"
| "axisOf AxisY s = y s"

fun moveAxis :: "axis \<Rightarrow> jsnum \<Rightarrow> shape \<Rightarrow> shape" where
  "moveAxis AxisX g s = moveX g s"
| "moveAxis AxisY g s = moveY g s"

text \<open>
  One round of the loop over the candidate shapes. \<open>collides\<close> is the exact shape
  intersection test \<open>CollisionShape.collides\<close>, which is not among the sources and is a
  parameter. The loop state is the local \<open>finalPosition\<close> and the record \<open>cd\<close>.
\<close>

definition candidateStep ::
  "(shape \<Rightarrow> shape \<Rightarrow> bool) \<Rightarrow> axis \<Rightarrow> jsnum \<Rightarrow> jsnum \<Rightarrow> shape \<Rightarrow> shape \<Rightarrow> shape
     \<Rightarrow> jsnum \<times> collisionData \<Rightarrow> jsnum \<times> collisionData" where
  "candidateStep collides ax dir initialPoint currentShape translatedShape pcShape st =
     (let finalPosition = fst st
      in if collides translatedShape pcShape
         then
           (let collisionInfo = findAxisCollisionPosition ax (type translatedShape) (type pcShape)
                                  dir translatedShape pcShape;
                pos = fst collisionInfo
            in if jgt dir (Fin 0)
               then if jlt pos finalPosition
                    then (let pos' = (if jlt pos initialPoint then initialPoint else pos)
                          in (pos', cd_set True dir pos' (jabs (jsub pos' initialPoint))
                                      (aABB pcShape) currentShape pcShape (snd collisionInfo) (Fin 0)))
                    else st
               else if jgt pos finalPosition
                    then (let pos' = (if jgt pos initialPoint then initialPoint else pos)
                          in (pos', cd_set True dir pos' (jabs (jsub pos' initialPoint))
                                      (aABB pcShape) currentShape pcShape (snd collisionInfo) (Fin 0)))
                    else st)
         else st)"

text \<open>The loop \<open>while (i--)\<close>, over the candidates in the order it visits them.\<close>

fun candidateLoop ::
  "(shape \<Rightarrow> shape \<Rightarrow> bool) \<Rightarrow> axis \<Rightarrow> jsnum \<Rightarrow> jsnum \<Rightarrow> shape \<Rightarrow> shape \<Rightarrow> shape list
     \<Rightarrow> jsnum \<times> collisionData \<Rightarrow> jsnum \<times> collisionData" where
  "candidateLoop collides ax dir initialPoint currentShape translatedShape [] st = st"
| "candidateLoop collides ax dir initialPoint currentShape translatedShape (pc # rest) st =
     candidateLoop collides ax dir initialPoint currentShape translatedShape rest
       (candidateStep collides ax dir initialPoint currentShape translatedShape pc st)"

definition travelDirection :: "jsnum \<Rightarrow> jsnum \<Rightarrow> jsnum" where
  "travelDirection initialPoint goalPoint = (if jlt initialPoint goalPoint then Fin 1 else Fin (- 1))"

text \<open>
  The state the loop ends in. The loop counts \<open>i\<close> down from the length, so it visits the
  candidates last to first.
\<close>

definition resolveAlongAxis ::
  "(shape \<Rightarrow> shape \<Rightarrow> bool) \<Rightarrow> shape \<Rightarrow> shape \<Rightarrow> axis \<Rightarrow> shape list \<Rightarrow> jsnum \<times> collisionData" where
  "resolveAlongAxis collides prevShape currentShape ax potentialCollidingShapes =
     (let initialPoint = axisOf ax prevShape;
          goalPoint = axisOf ax currentShape
      in if \<not> jeq initialPoint goalPoint
         then candidateLoop collides ax (travelDirection initialPoint goalPoint) initialPoint
                currentShape (moveAxis ax goalPoint prevShape) (rev potentialCollidingShapes)
                (goalPoint, CollisionData_setUp)
         else (goalPoint, CollisionData_setUp))"

definition findMinShapeMovementCollision ::
  "(shape \<Rightarrow> shape \<Rightarrow> bool) \<Rightarrow> shape \<Rightarrow> shape \<Rightarrow> axis \<Rightarrow> shape list \<Rightarrow> collisionData" where
  "findMinShapeMovementCollision collides prevShape currentShape ax potentialCollidingShapes =
     snd (resolveAlongAxis collides prevShape currentShape ax potentialCollidingShapes)"

text \<open>
  \<open>findMinAxisMovement\<close>: over the shapes of the body for one collision type, visited last
  to first, the record with the smallest movement. \<open>prevShapes[i]\<close> is read for every index
  of \<open>shapes\<close>; where \<open>prevShapes\<close> is the shorter array the read gives \<open>undefined\<close> and its use
  throws.
\<close>

fun bestOfShapes ::
  "(shape \<Rightarrow> shape \<Rightarrow> bool) \<Rightarrow> axis \<Rightarrow> shape list \<Rightarrow> (shape \<times> shape) list \<Rightarrow> collisionData
     \<Rightarrow> collisionData" where
  "bestOfShapes collides ax potentialCollidingShapes [] bestCD = bestCD"
| "bestOfShapes collides ax potentialCollidingShapes (pair # rest) bestCD =
     bestOfShapes collides ax potentialCollidingShapes rest
       (let cd = findMinShapeMovementCollision collides (fst pair) (snd pair) ax
                   potentialCollidingShapes
        in if occurred cd \<and> (\<not> occurred bestCD \<or> jlt (deltaMovement cd) (deltaMovement bestCD))
           then cd else bestCD)"

definition findMinAxisMovement ::
  "(shape \<Rightarrow> shape \<Rightarrow> bool) \<Rightarrow> axis \<Rightarrow> shape list \<Rightarrow> shape list \<Rightarrow> shape list
     \<Rightarrow> jsError + collisionData" where
  "findMinAxisMovement collides ax prevShapes shapes potentialCollidingShapes =
     (if length prevShapes < length shapes then Inl TypeError
      else Inr (bestOfShapes collides ax potentialCollidingShapes (rev (zip prevShapes shapes))
                  CollisionData_setUp))"

text \<open>
  \<open>resolveCollisionPosition\<close>, the assignment \<open>finalMovementInfo.x = ent.previousX +
  cd.deltaMovement * cd.direction\<close> (and the same in \<open>y\<close>) for the record it takes.
\<close>

definition settledPosition :: "jsnum \<Rightarrow> collisionData \<Rightarrow> jsnum" where
  "settledPosition previous cd = jadd previous (jmul (deltaMovement cd) (direction cd))"

section \<open>Concrete shapes for running the functions\<close>

text \<open>
  Modelled from the spec: the box of a shape centred at \<open>(cx, cy)\<close> with the given half
  extents, as the \<open>AABB\<close> class (not among the sources) derives its bounds.
\<close>

definition boxAt :: "real \<Rightarrow> real \<Rightarrow> real \<Rightarrow> real \<Rightarrow> aabb" where
  "boxAt cx cy hw hh =
     \<lparr>left = jsub (Fin cx) (Fin hw), top = jsub (Fin cy) (Fin hh),
      right = jadd (Fin cx) (Fin hw), bottom = jadd (Fin cy) (Fin hh),
      width = jmul (Fin 2) (Fin hw), height = jmul (Fin 2) (Fin hh),
      halfWidth = Fin hw, halfHeight = Fin hh\<rparr>"

definition rectangleAt :: "entityId option \<Rightarrow> string \<Rightarrow> real \<Rightarrow> real \<Rightarrow> real \<Rightarrow> real \<Rightarrow> shape" where
  "rectangleAt ow ct cx cy hw hh =
     \<lparr>type = Rectangle, x = Fin cx, y = Fin cy, radius = Fin 0, aABB = boxAt cx cy hw hh,
      owner = ow, collisionType = ct\<rparr>"

text \<open>
  Modelled from the spec: the intersection test of two boxes (\<open>AABB.collides\<close>, not among the
  sources): they overlap on both axes. The functions below take the test as a parameter;
  this one instantiates it where a function is run on concrete shapes.
\<close>

definition overlapAABB :: "aabb \<Rightarrow> aabb \<Rightarrow> bool" where
  "overlapAABB a b =
     (jlt (left a) (right b) \<and> jlt (left b) (right a) \<and>
      jlt (top a) (bottom b) \<and> jlt (top b) (bottom a))"

text \<open>
  Modelled from the spec: the intersection test of two shapes (\<open>CollisionShape.collides\<close>, not
  among the sources), here for rectangles, which intersect when their boxes do. It
  instantiates the parameter \<open>collides\<close> where a function is run on concrete rectangles.
\<close>

definition overlapShapes :: "shape \<Rightarrow> shape \<Rightarrow> bool" where
  "overlapShapes s t = overlapAABB (aABB s) (aABB t)"

text \<open>
  Coordinates for a run in which rounding shows: \<open>startX\<close>, \<open>wallX\<close> and \<open>travelX\<close> are the
  binary64 numbers of \<open>-32.8\<close>, \<open>7.6\<close> and \<open>30.4\<close>; \<open>goalX\<close> is the binary64 sum of \<open>startX\<close>
  and \<open>travelX\<close>, printed as \<open>-2.3999999999999986\<close>, and \<open>contactX\<close> the binary64 difference
  of \<open>wallX\<close> and 10, printed as \<open>-2.4000000000000004\<close>.
\<close>

definition startX :: real where
  "startX = - 2308094809027379 / 2 ^ 46"

definition goalX :: real where
  "goalX = - 337769972052787 / 2 ^ 47"

definition wallX :: real where
  "wallX = 4278419646001971 / 2 ^ 49"

definition contactX :: real where
  "contactX = - 1351079888211149 / 2 ^ 49"

definition travelX :: real where
  "travelX = 4278419646001971 / 2 ^ 47"

section \<open>Predicates of the statements about the axis resolver\<close>

text \<open>
  \<open>earlier a g q r\<close>: position \<open>q\<close> comes strictly before position \<open>r\<close> for a shape that
  travels from \<open>a\<close> to \<open>g\<close>.
\<close>

definition earlier :: "real \<Rightarrow> real \<Rightarrow> jsnum \<Rightarrow> jsnum \<Rightarrow> bool" where
  "earlier a g q r = (if a < g then jlt q r else jgt q r)"

text \<open>
  \<open>noCloser\<close>: candidate \<open>c\<close>, if the translated shape intersects it at all, has no contact
  position strictly earlier than \<open>p\<close>.
\<close>

definition noCloser ::
  "(shape \<Rightarrow> shape \<Rightarrow> bool) \<Rightarrow> axis \<Rightarrow> real \<Rightarrow> real \<Rightarrow> real \<Rightarrow> shape \<Rightarrow> shape \<Rightarrow> bool" where
  "noCloser collides ax a g p tr c =
     (collides tr c \<longrightarrow>
        \<not> earlier a g
            (fst (findAxisCollisionPosition ax (type tr) (type c)
                    (travelDirection (Fin a) (Fin g)) tr c))
            (Fin p))"

text \<open>\<open>contactRecord\<close>: the record reports a collision at \<open>p\<close> for the travel from \<open>a\<close> to \<open>g\<close>.\<close>

definition contactRecord :: "real \<Rightarrow> real \<Rightarrow> real \<Rightarrow> collisionData \<Rightarrow> bool" where
  "contactRecord a g p cd =
     (occurred cd \<and> position cd = Fin p \<and> direction cd = travelDirection (Fin a) (Fin g) \<and>
      deltaMovement cd = jabs (jsub (Fin p) (Fin a)))"

text \<open>
  \<open>between a g v\<close>: \<open>v\<close> lies in the closed interval between \<open>a\<close> and \<open>g\<close>, whichever of
  the two is the smaller.
\<close>

definition between :: "jsnum \<Rightarrow> jsnum \<Rightarrow> jsnum \<Rightarrow> bool" where
  "between a g v = ((jle a v \<and> jle v g) \<or> (jle g v \<and> jle v a))"

text \<open>Loop invariants of \<open>candidateLoop\<close>.\<close>

definition contactInv :: "real \<Rightarrow> real \<Rightarrow> real \<Rightarrow> jsnum \<times> collisionData \<Rightarrow> bool" where
  "contactInv a g p st =
     (\<not> earlier a g (fst st) (Fin p) \<and> fst st \<noteq> NaN \<and>
      (fst st = Fin p \<longrightarrow> contactRecord a g p (snd st)))"

definition travelInv :: "jsnum \<Rightarrow> jsnum \<Rightarrow> jsnum \<times> collisionData \<Rightarrow> bool" where
  "travelInv a g st =
     (between a g (fst st) \<and>
      (occurred (snd st) \<longrightarrow>
         position (snd st) = fst st \<and> deltaMovement (snd st) = jabs (jsub (fst st) a)))"

section \<open>Collision messages\<close>

text \<open>
  From \<open>HandlerCollision.js\<close>: the object \<open>triggerMessage\<close> (lines 31 to 38),
  \<open>triggerCollisionMessages\<close> (lines 390 to 414 and, the same text, lines 451 to 475) and
  its calls (lines 430 to 442 and 491 to 503).
\<close>

text \<open>
  The module-level object \<open>triggerMessage\<close>, shared by every pass of the handler. It starts
  as \<open>{entity: null, type: null, x: 0, y: 0, hitType: null, myType: null}\<close>; \<open>direction\<close>
  and \<open>shape\<close> are added by the first pass that assigns them.
\<close>

record triggerMessage =
  entityM :: "entityId option"
  typeM :: "string option"
  xM :: jsnum
  yM :: jsnum
  hitTypeM :: "string option"
  myTypeM :: "string option"
  directionM :: "vector option"
  shapeM :: "shape option"

definition initialTriggerMessage :: triggerMessage where
  "initialTriggerMessage =
     \<lparr>entityM = None, typeM = None, xM = Fin 0, yM = Fin 0, hitTypeM = None, myTypeM = None,
      directionM = None, shapeM = None\<rparr>"

text \<open>
  The notification mechanism is outside the handler. An event is recorded with the entity
  it is triggered on, its name and the message as it is at that moment; the state of the
  messaging is the shared message and the events triggered so far.
\<close>

record event =
  target :: entityId
  eventName :: string
  payload :: triggerMessage

type_synonym messaging = "triggerMessage \<times> event list"

definition triggerEvent :: "entityId \<Rightarrow> string \<Rightarrow> messaging \<Rightarrow> messaging" where
  "triggerEvent ent name st =
     (fst st, snd st @ [\<lparr>target = ent, eventName = name, payload = fst st\<rparr>])"

text \<open>
  \<open>triggerCollisionMessages\<close>, the same function in \<open>checkGroupCollisions\<close> and in
  \<open>checkSolidCollisions\<close>.
\<close>

definition triggerCollisionMessages ::
  "entityId \<Rightarrow> entityId option \<Rightarrow> string \<Rightarrow> string \<Rightarrow> jsnum \<Rightarrow> jsnum \<Rightarrow> string \<Rightarrow> vector
     \<Rightarrow> messaging \<Rightarrow> messaging" where
  "triggerCollisionMessages ent otherEntity thisType thatType px py hitType v st =
     (let msg = (fst st)\<lparr>entityM := otherEntity, myTypeM := Some thisType, typeM := Some thatType,
                          xM := px, yM := py, directionM := Some v, hitTypeM := Some hitType\<rparr>;
          st1 = triggerEvent ent (''hit-by-'' @ thatType) (msg, snd st)
      in case otherEntity of
           None \<Rightarrow> st1
         | Some other \<Rightarrow>
             (let msg2 = (fst st1)\<lparr>entityM := Some ent, typeM := Some thisType,
                                    myTypeM := Some thatType, xM := jneg px, yM := jneg py,
                                    directionM := Some (getInverse v), hitTypeM := Some hitType\<rparr>
              in triggerEvent other (''hit-by-'' @ thisType) (msg2, snd st1)))"

text \<open>
  The call both passes make for a record \<open>messageData\<close> of \<open>xData\<close> (with \<open>direction, 0\<close>) or
  of \<open>yData\<close> (with \<open>0, direction\<close>). Reading \<open>thisShape.owner\<close> of a record without shapes,
  or triggering on an owner that is \<open>null\<close>, throws.
\<close>

definition triggerSolidRecord :: "axis \<Rightarrow> collisionData \<Rightarrow> messaging \<Rightarrow> jsError + messaging" where
  "triggerSolidRecord ax messageData st =
     (case (thisShape messageData, thatShape messageData) of
        (Some this, Some that) \<Rightarrow>
          (case owner this of
             None \<Rightarrow> Inl TypeError
           | Some ent \<Rightarrow>
               Inr (triggerCollisionMessages ent (owner that) (collisionType this) (collisionType that)
                      (case ax of AxisX \<Rightarrow> direction messageData | AxisY \<Rightarrow> Fin 0)
                      (case ax of AxisX \<Rightarrow> Fin 0 | AxisY \<Rightarrow> direction messageData)
                      ''solid'' (vector messageData) st))
      | _ \<Rightarrow> Inl TypeError)"

section \<open>Stepping of fast bodies in \<open>checkSolidEntityCollision\<close>\<close>

text \<open>From \<open>HandlerCollision.js\<close>, lines 510 to 577.\<close>

text \<open>
  The loop over the body's own collision types that computes \<open>sW\<close> and \<open>sH\<close>, both
  \<open>Infinity\<close> at the start. \<open>boxes\<close> lists \<open>entityOrGroup.getAABB(collisionTypes[i])\<close> in the
  order of \<open>collisionTypes\<close>; the loop counts \<open>i\<close> down.
\<close>

definition smallestDimensions :: "aabb list \<Rightarrow> jsnum \<times> jsnum" where
  "smallestDimensions boxes =
     fold (\<lambda>box (sW, sH). (jmin sW (width box), jmin sH (height box))) (rev boxes) (PInf, PInf)"

text \<open>\<open>Math.ceil(Math.max(Math.abs(dX) / sW, Math.abs(dY) / sH))\<close>, then \<open>min(step, 100)\<close>.\<close>

definition uncappedSteps :: "jsnum \<Rightarrow> jsnum \<Rightarrow> aabb list \<Rightarrow> jsnum" where
  "uncappedSteps dX dY boxes =
     (let (sW, sH) = smallestDimensions boxes
      in jceil (jmax (jdiv (jabs dX) sW) (jdiv (jabs dY) sH)))"

definition bulletStepCount :: "jsnum \<Rightarrow> jsnum \<Rightarrow> aabb list \<Rightarrow> jsnum" where
  "bulletStepCount dX dY boxes = jmin (uncappedSteps dX dY boxes) (Fin 100)"

text \<open>
  The loop \<open>while (step--)\<close>. It runs while the counter is neither zero nor \<open>NaN\<close>, so for a
  counter that never reaches zero only the \<open>break\<close> ends it: the loop is a partial function,
  \<open>None\<close> when it does not return. \<open>body\<close> stands for one round (\<open>prepareCollision\<close>,
  \<open>processCollisionStep\<close>, \<open>relocateEntity\<close>) on a state of any type and says whether the
  round found the body blocked, in which case the loop breaks. The result counts the
  rounds run.
\<close>

partial_function (option) steppingLoop ::
  "('s \<Rightarrow> 's \<times> bool) \<Rightarrow> jsnum \<Rightarrow> 's \<Rightarrow> nat \<Rightarrow> ('s \<times> nat) option" where
  "steppingLoop body step s n =
     (if truthy step
      then (let (s', blocked) = body s
            in if blocked then Some (s', Suc n)
               else steppingLoop body (jsub step (Fin 1)) s' (Suc n))
      else Some (s, n))"

text \<open>
  The branch for \<open>ent.bullet\<close>: the delta is divided by the step count and the loop runs with
  the divided delta. \<open>solidStepping\<close> adds the two tests around it: no round when both deltas
  are zero (or \<open>NaN\<close>), a single round for a body that is not a bullet.
\<close>

definition bulletStepping ::
  "(jsnum \<Rightarrow> jsnum \<Rightarrow> 's \<Rightarrow> 's \<times> bool) \<Rightarrow> jsnum \<Rightarrow> jsnum \<Rightarrow> aabb list \<Rightarrow> 's \<Rightarrow> ('s \<times> nat) option" where
  "bulletStepping body dX dY boxes s =
     (let step = bulletStepCount dX dY boxes
      in steppingLoop (body (jdiv dX step) (jdiv dY step)) step s 0)"

definition solidStepping ::
  "bool \<Rightarrow> (jsnum \<Rightarrow> jsnum \<Rightarrow> 's \<Rightarrow> 's \<times> bool) \<Rightarrow> jsnum \<Rightarrow> jsnum \<Rightarrow> aabb list \<Rightarrow> 's \<Rightarrow> ('s \<times> nat) option" where
  "solidStepping bullet body dX dY boxes s =
     (if truthy dX \<or> truthy dY
      then (if bullet then bulletStepping body dX dY boxes s
            else Some (fst (body dX dY s), 1))
      else Some (s, 0))"

text \<open>
  Numbers for a run in which rounding shows: \<open>bulletDeltaX\<close> is the binary64 difference of
  185 and 11.6, printed as \<open>173.4\<close>, and \<open>bulletWidth\<close> the binary64 difference of 16 and
  5.8, printed as \<open>10.2\<close>.
\<close>

definition bulletDeltaX :: real where
  "bulletDeltaX = 6100970120203469 / 2 ^ 45"

definition bulletWidth :: real where
  "bulletWidth = 2871044762448691 / 2 ^ 48"

text \<open>Predicates of the statements: a size that is not below zero, a whole count up to 100.\<close>

definition nonNegative :: "jsnum \<Rightarrow> bool" where
  "nonNegative a = (\<not> jlt a (Fin 0))"

definition wholeUpTo100 :: "jsnum \<Rightarrow> bool" where
  "wholeUpTo100 a = (a = NaN \<or> (\<exists>k::nat. k \<le> 100 \<and> a = Fin (real k)))"

section \<open>Entities\<close>

text \<open>
  What the handler reads of an entity. \<open>getAABB\<close>, \<open>getShapes\<close> and the soft collision map
  are given per collision type, as the methods of the collision component (not among the
  sources) return them; \<open>entityAABB\<close> is \<open>getAABB()\<close> without a type. \<open>againstGrid\<close> and
  \<open>againstAABB\<close> are \<open>None\<close> for an entity the handler has not registered (or has removed:
  \<open>removeCollisionEntity\<close> sets both to \<open>null\<close>).

  \<open>againstAABB\<close> holds cell coordinates. Fresh from \<open>AABB.setUp()\<close> it has no extent yet
  (\<open>Unset\<close>); \<open>updateAgainst\<close> copies the mapped-down box into it.

  \<open>againstGrid\<close> is an array of references to cells of the handler's grid. A cell is shared
  between the grid and the entities that reference it, so a reference is modelled by the
  key of the cell in the grid.
\<close>

datatype againstBox = Unset | Cells int int int int

record entity =
  eid :: entityId
  positionX :: jsnum
  positionY :: jsnum
  previousX :: jsnum
  previousY :: jsnum
  collisionTypes :: "string list"
  jumpThrough :: bool
  getAABB :: "string \<Rightarrow> aabb"
  getShapes :: "string \<Rightarrow> shape list"
  softCollisionMap :: "string \<Rightarrow> string list"
  entityAABB :: aabb
  againstGrid :: "nat list option"
  againstAABB :: "againstBox option"

section \<open>Candidate gathering in \<open>processCollisionStep\<close>\<close>

text \<open>From \<open>HandlerCollision.js\<close>, lines 579 to 687.\<close>

text \<open>
  \<open>includeEntity\<close>. \<open>box\<close> is the argument \<open>aabb\<close>, for which the caller passes the previous
  box of the moving body for the collision type at hand. \<open>ignoredEntities\<close> is \<open>false\<close>
  (\<open>None\<close>) or the array of the group's members. \<open>aabbCollides\<close> is \<open>AABB.collides\<close>, which is
  not among the sources and is a parameter.
\<close>

definition includeEntity ::
  "(aabb \<Rightarrow> aabb \<Rightarrow> bool) \<Rightarrow> entity \<Rightarrow> aabb \<Rightarrow> entity \<Rightarrow> aabb \<Rightarrow> entityId list option \<Rightarrow> aabb
     \<Rightarrow> bool" where
  "includeEntity aabbCollides thisEntity box otherEntity otherAABB ignoredEntities sweepAABB =
     (if eid otherEntity = eid thisEntity then False
      else if jumpThrough otherEntity \<and> jgt (bottom box) (top otherAABB) then False
      else if jumpThrough thisEntity \<and> jgt (bottom otherAABB) (top box) then False
      else if (case ignoredEntities of None \<Rightarrow> False
               | Some ignored \<Rightarrow> eid otherEntity \<in> set ignored) then False
      else aabbCollides sweepAABB otherAABB)"

text \<open>
  The loop over \<open>otherEntities\<close>, the entities the grid returned for one other collision
  type, in the order the loop visits them (last to first). The state is the list
  \<open>pcsGroup\<close> and the flag \<open>potentialCollision\<close>; the shapes of an included entity are pushed
  last to first.
\<close>

fun gatherShapes ::
  "(aabb \<Rightarrow> aabb \<Rightarrow> bool) \<Rightarrow> entity \<Rightarrow> aabb \<Rightarrow> entityId list option \<Rightarrow> aabb \<Rightarrow> string
     \<Rightarrow> entity list \<Rightarrow> shape list \<times> bool \<Rightarrow> shape list \<times> bool" where
  "gatherShapes aabbCollides ent previousAABB ignoredEntities sweepAABB otherCollisionType [] st = st"
| "gatherShapes aabbCollides ent previousAABB ignoredEntities sweepAABB otherCollisionType
     (otherEntity # rest) st =
     gatherShapes aabbCollides ent previousAABB ignoredEntities sweepAABB otherCollisionType rest
       (if includeEntity aabbCollides ent previousAABB otherEntity
             (getAABB otherEntity otherCollisionType) ignoredEntities sweepAABB
        then (fst st @ rev (getShapes otherEntity otherCollisionType), True)
        else st)"

text \<open>
  The loop over \<open>collisionSubTypes\<close>, the types the body is solid against, in the order the
  loop visits them. \<open>found\<close> is the object \<open>getAgainstGrid\<close> returned, with the entities
  per type in the order the inner loop visits them; a type without entry falls to the
  terrain, if there is one, whose \<open>getTileShapes(sweepAABB, previousAABB, type)\<close> is given
  per type.
\<close>

fun gatherTypes ::
  "(aabb \<Rightarrow> aabb \<Rightarrow> bool) \<Rightarrow> entity \<Rightarrow> aabb \<Rightarrow> entityId list option \<Rightarrow> aabb
     \<Rightarrow> (string \<Rightarrow> entity list option) \<Rightarrow> (string \<Rightarrow> shape list) option
     \<Rightarrow> string list \<Rightarrow> shape list \<times> bool \<Rightarrow> shape list \<times> bool" where
  "gatherTypes aabbCollides ent previousAABB ignoredEntities sweepAABB found terrain [] st = st"
| "gatherTypes aabbCollides ent previousAABB ignoredEntities sweepAABB found terrain
     (otherCollisionType # rest) st =
     gatherTypes aabbCollides ent previousAABB ignoredEntities sweepAABB found terrain rest
       (case found otherCollisionType of
          Some otherEntities \<Rightarrow>
            gatherShapes aabbCollides ent previousAABB ignoredEntities sweepAABB
              otherCollisionType otherEntities st
        | None \<Rightarrow>
            (case terrain of
               Some getTileShapes \<Rightarrow>
                 (fst st @ rev (getTileShapes otherCollisionType),
                  snd st \<or> getTileShapes otherCollisionType \<noteq> [])
             | None \<Rightarrow> st))"

text \<open>
  An entity with one rectangle of one collision type, for running the functions.
\<close>

definition boxEntity :: "entityId \<Rightarrow> bool \<Rightarrow> string \<Rightarrow> real \<Rightarrow> real \<Rightarrow> real \<Rightarrow> real \<Rightarrow> entity" where
  "boxEntity i jt ct cx cy hw hh =
     \<lparr>eid = i, positionX = Fin cx, positionY = Fin cy, previousX = Fin cx, previousY = Fin cy,
      collisionTypes = [ct], jumpThrough = jt,
      getAABB = (\<lambda>t. boxAt cx cy hw hh),
      getShapes = (\<lambda>t. if t = ct then [rectangleAt (Some i) ct cx cy hw hh] else []),
      softCollisionMap = (\<lambda>t. []),
      entityAABB = boxAt cx cy hw hh, againstGrid = None, againstAABB = None\<rparr>"

text \<open>
  \<open>jumpThroughExcluded\<close>: the two conditions of the claim about jump-through entities.
\<close>

definition jumpThroughExcluded :: "entity \<Rightarrow> aabb \<Rightarrow> entity \<Rightarrow> aabb \<Rightarrow> bool" where
  "jumpThroughExcluded thisEntity box otherEntity otherAABB =
     ((jumpThrough otherEntity \<and> jgt (bottom box) (top otherAABB)) \<or>
      (jumpThrough thisEntity \<and> jgt (bottom otherAABB) (top box)))"

section \<open>The spatial grid\<close>

text \<open>From \<open>HandlerCollision.js\<close>, lines 143 to 296.\<close>

text \<open>
  \<open>this.againstGrid\<close> maps a cell key to a \<open>DataMap\<close> from collision type to the array of
  the entities in the cell; entities are named by their identity.
\<close>

type_synonym cell = "string \<rightharpoonup> entityId list"
type_synonym grid = "nat \<rightharpoonup> cell"

text \<open>
  \<open>a >> gb\<close>: the left operand is converted to a signed 32-bit integer (\<open>NaN\<close> and the
  infinities to 0, a finite number truncated towards zero and wrapped), then shifted right
  by the low five bits of \<open>gb\<close>, keeping the sign.
\<close>

definition signed32 :: "int \<Rightarrow> int" where
  "signed32 n = (n + 2 ^ 31) mod 2 ^ 32 - 2 ^ 31"

fun toInt32 :: "jsnum \<Rightarrow> int" where
  "toInt32 (Fin a) = signed32 (if 0 \<le> a then \<lfloor>a\<rfloor> else \<lceil>a\<rceil>)"
| "toInt32 PInf = 0"
| "toInt32 NInf = 0"
| "toInt32 NaN = 0"

definition shiftRight :: "jsnum \<Rightarrow> nat \<Rightarrow> int" where
  "shiftRight a gb = toInt32 a div 2 ^ (gb mod 32)"

text \<open>\<open>mapDown\<close>: the bounds \<open>left, top, right, bottom\<close> of the box in cell coordinates.\<close>

definition mapDown :: "nat \<Rightarrow> aabb \<Rightarrow> int \<times> int \<times> int \<times> int" where
  "mapDown gb aabb2 =
     (shiftRight (left aabb2) gb, shiftRight (top aabb2) gb,
      shiftRight (right aabb2) gb, shiftRight (bottom aabb2) gb)"

text \<open>The key \<open>((y << 16) ^ x) >>> 0\<close> of the cell in column \<open>x\<close> and row \<open>y\<close>.\<close>

definition cellKey :: "int \<Rightarrow> int \<Rightarrow> nat" where
  "cellKey cx cy = nat ((signed32 (signed32 cy * 2 ^ 16) XOR signed32 cx) mod 2 ^ 32)"

text \<open>
  The cells the two nested \<open>for\<close> loops visit, in order: columns \<open>left\<close> to \<open>right\<close>, and in
  each column rows \<open>top\<close> to \<open>bottom\<close>.
\<close>

definition cellsOf :: "int \<times> int \<times> int \<times> int \<Rightarrow> nat list" where
  "cellsOf bounds =
     (case bounds of (l, t, r, b) \<Rightarrow> concat (map (\<lambda>cx. map (\<lambda>cy. cellKey cx cy) [t..b]) [l..r]))"

text \<open>
  Modelled from the spec: the array extension \<open>union\<close> is not among the sources. The query
  returns per type the union of the bodies found: an element is appended unless the array
  holds it already.
\<close>

definition arrayUnion :: "entityId list \<Rightarrow> entityId list \<Rightarrow> entityId list" where
  "arrayUnion tList arr = fold (\<lambda>e acc. if e \<in> set acc then acc else acc @ [e]) arr tList"

text \<open>
  The loop over \<open>types\<close> inside \<open>getAgainstGrid\<close> and \<open>getEntityAgainstGrid\<close>, for one cell
  \<open>list\<close>, with the types in the order the loop visits them. \<open>data\<close> is the result object.
\<close>

fun collectTypes :: "cell \<Rightarrow> string list \<Rightarrow> (string \<rightharpoonup> entityId list) \<Rightarrow> (string \<rightharpoonup> entityId list)" where
  "collectTypes list [] data = data"
| "collectTypes list (ty # rest) data =
     collectTypes list rest
       (case list ty of
          None \<Rightarrow> data
        | Some arr \<Rightarrow>
            if arr \<noteq> []
            then (case data ty of
                    None \<Rightarrow> data(ty \<mapsto> arr)
                  | Some tList \<Rightarrow> data(ty \<mapsto> arrayUnion tList arr))
            else data)"

text \<open>
  The loop over cells, given by their keys in visiting order. In \<open>getAgainstGrid\<close> a key
  without cell in the grid is skipped (\<open>if (list)\<close>). In \<open>getEntityAgainstGrid\<close> the cells are
  the references the entity holds; each is a cell of the grid, since \<open>updateAgainst\<close> stores
  a cell in the grid before it pushes the reference and no cell is taken out of the grid.
\<close>

fun collectCells :: "grid \<Rightarrow> nat list \<Rightarrow> string list \<Rightarrow> (string \<rightharpoonup> entityId list) \<Rightarrow> (string \<rightharpoonup> entityId list)" where
  "collectCells g [] types data = data"
| "collectCells g (k # rest) types data =
     collectCells g rest types
       (case g k of None \<Rightarrow> data | Some list \<Rightarrow> collectTypes list (rev types) data)"

definition getEntityAgainstGrid :: "grid \<Rightarrow> entity \<Rightarrow> string list \<Rightarrow> jsError + (string \<rightharpoonup> entityId list)" where
  "getEntityAgainstGrid g ent types =
     (case againstGrid ent of
        None \<Rightarrow> Inl TypeError
      | Some ag \<Rightarrow> Inr (collectCells g (rev ag) types Map.empty))"

text \<open>
  Modelled from the spec: \<open>AABB.equals\<close> is not among the sources. Two boxes are equal when
  their four bounds are; a box without extent yet equals none. \<open>sweepEquals\<close> compares the
  swept box, in world coordinates, with the entity's \<open>againstAABB\<close>, as \<open>getAgainstGrid\<close>
  does.
\<close>

fun sweepEquals :: "aabb \<Rightarrow> againstBox \<Rightarrow> bool" where
  "sweepEquals sweep Unset = False"
| "sweepEquals sweep (Cells l t r b) =
     (jeq (left sweep) (Fin (of_int l)) \<and> jeq (top sweep) (Fin (of_int t)) \<and>
      jeq (right sweep) (Fin (of_int r)) \<and> jeq (bottom sweep) (Fin (of_int b)))"

definition getAgainstGrid ::
  "nat \<Rightarrow> grid \<Rightarrow> entity \<Rightarrow> aabb \<Rightarrow> string list \<Rightarrow> jsError + (string \<rightharpoonup> entityId list)" where
  "getAgainstGrid gb g ent sweep types =
     (case againstAABB ent of
        None \<Rightarrow> Inl TypeError
      | Some box \<Rightarrow>
          if sweepEquals sweep box then getEntityAgainstGrid g ent types
          else Inr (collectCells g (cellsOf (mapDown gb sweep)) types Map.empty))"

text \<open>
  \<open>removeAgainst\<close>: in every cell the entity references, for each of its collision types,
  the first occurrence of the entity is spliced out; then the references are dropped.
\<close>

fun removeTypes :: "entityId \<Rightarrow> string list \<Rightarrow> cell \<Rightarrow> cell" where
  "removeTypes i [] list = list"
| "removeTypes i (ty # rest) list =
     removeTypes i rest (case list ty of None \<Rightarrow> list | Some arr \<Rightarrow> list(ty \<mapsto> remove1 i arr))"

fun removeCells :: "entityId \<Rightarrow> string list \<Rightarrow> nat list \<Rightarrow> grid \<Rightarrow> grid" where
  "removeCells i types [] g = g"
| "removeCells i types (k # rest) g =
     removeCells i types rest
       (case g k of None \<Rightarrow> g | Some list \<Rightarrow> g(k \<mapsto> removeTypes i (rev types) list))"

definition removeAgainst :: "grid \<Rightarrow> entity \<Rightarrow> jsError + grid \<times> entity" where
  "removeAgainst g ent =
     (case againstGrid ent of
        None \<Rightarrow> Inl TypeError
      | Some ag \<Rightarrow>
          Inr (removeCells (eid ent) (collisionTypes ent) (rev ag) g, ent\<lparr>againstGrid := Some []\<rparr>))"

text \<open>
  \<open>updateAgainst\<close>: nothing happens when the mapped-down box equals \<open>againstAABB\<close>. Otherwise
  the box is stored, the entity is removed from the cells it references, and for every cell
  of the box (created when the grid has none for the key) the entity is pushed onto the
  array of each of its types (created when the cell has none) and the cell onto the
  entity's references.
\<close>

fun pushTypes :: "entityId \<Rightarrow> string list \<Rightarrow> cell \<Rightarrow> cell" where
  "pushTypes i [] list = list"
| "pushTypes i (ty # rest) list =
     pushTypes i rest (list(ty \<mapsto> (case list ty of None \<Rightarrow> [] | Some arr \<Rightarrow> arr) @ [i]))"

fun insertCells :: "entityId \<Rightarrow> string list \<Rightarrow> nat list \<Rightarrow> grid \<times> nat list \<Rightarrow> grid \<times> nat list" where
  "insertCells i types [] st = st"
| "insertCells i types (k # rest) st =
     insertCells i types rest
       ((fst st)(k \<mapsto> pushTypes i (rev types) (case fst st k of None \<Rightarrow> Map.empty | Some list \<Rightarrow> list)),
        snd st @ [k])"

definition updateAgainst :: "nat \<Rightarrow> grid \<Rightarrow> entity \<Rightarrow> jsError + grid \<times> entity" where
  "updateAgainst gb g ent =
     (case againstAABB ent of
        None \<Rightarrow> Inl TypeError
      | Some box \<Rightarrow>
          (case mapDown gb (entityAABB ent) of
             (l, t, r, b) \<Rightarrow>
               if box = Cells l t r b then Inr (g, ent)
               else
                 (case removeAgainst g (ent\<lparr>againstAABB := Some (Cells l t r b)\<rparr>) of
                    Inl err \<Rightarrow> Inl err
                  | Inr (g1, ent1) \<Rightarrow>
                      (case againstGrid ent1 of
                         None \<Rightarrow> Inl TypeError
                       | Some ag \<Rightarrow>
                           (let st = insertCells (eid ent1) (collisionTypes ent1)
                                       (cellsOf (l, t, r, b)) (g1, ag)
                            in Inr (fst st, ent1\<lparr>againstGrid := Some (snd st)\<rparr>))))))"

text \<open>
  \<open>addCollisionEntity\<close> for an entity with collision types: fresh references, a fresh box,
  and the first \<open>updateAgainst\<close>.
\<close>

definition addCollisionEntity :: "nat \<Rightarrow> grid \<Rightarrow> entity \<Rightarrow> jsError + grid \<times> entity" where
  "addCollisionEntity gb g ent =
     updateAgainst gb g (ent\<lparr>againstGrid := Some [], againstAABB := Some Unset\<rparr>)"




text \<open>
  \<open>vacant g types\<close>: no cell of the grid holds an entity under one of the types: the cell has
  no array for the type or an empty one. A grid without cells is vacant for all types.
\<close>

definition vacant :: "grid \<Rightarrow> string list \<Rightarrow> bool" where
  "vacant g types =
     (\<forall>k list ty. g k = Some list \<and> ty \<in> set types \<longrightarrow> list ty = None \<or> list ty = Some [])"

section \<open>The soft pass\<close>

text \<open>From \<open>HandlerCollision.js\<close>, lines 963 to 1047 and 1108 to 1116.\<close>

text \<open>
  \<open>checkEntityForSoftCollisions(ent, callback)\<close> writes the shared \<open>triggerMessage\<close> and
  calls \<open>callback(message)\<close>. Both callers read the message at once (\<open>checkSoftCollisions\<close>
  triggers an event with it, \<open>getEntityCollisions\<close> copies it), so the model records, in
  order, the message as it is at each call: the list \<open>delivered\<close>.
\<close>

record softState =
  message :: triggerMessage
  delivered :: "triggerMessage list"

text \<open>
  The two innermost loops: the first pair of a shape of the entity and a shape of the other
  entity that collide, both arrays visited last to first; the result is the other shape.
  \<open>collides\<close> is \<open>CollisionShape.collides\<close>, a parameter as before.
\<close>

definition firstCollidingShape :: "(shape \<Rightarrow> shape \<Rightarrow> bool) \<Rightarrow> shape list \<Rightarrow> shape list \<Rightarrow> shape option" where
  "firstCollidingShape collides shapes otherShapes =
     map_option snd
       (find (\<lambda>pair. collides (fst pair) (snd pair)) (List.product (rev shapes) (rev otherShapes)))"

text \<open>The body of the loop over \<open>otherEntities\<close>, for one other entity.\<close>

definition softEntityStep ::
  "(aabb \<Rightarrow> aabb \<Rightarrow> bool) \<Rightarrow> (shape \<Rightarrow> shape \<Rightarrow> bool) \<Rightarrow> entity \<Rightarrow> string \<Rightarrow> string \<Rightarrow> entity
     \<Rightarrow> softState \<Rightarrow> softState" where
  "softEntityStep aabbCollides collides ent collisionTy otherCollisionType otherEntity st =
     (if eid otherEntity \<noteq> eid ent \<and>
         aabbCollides (getAABB ent collisionTy) (getAABB otherEntity otherCollisionType)
      then (case firstCollidingShape collides (getShapes ent collisionTy)
                  (getShapes otherEntity otherCollisionType) of
              None \<Rightarrow> st
            | Some otherShape \<Rightarrow>
                (let msg = (message st)\<lparr>entityM := Some (eid otherEntity),
                                         typeM := Some otherCollisionType,
                                         myTypeM := Some collisionTy,
                                         shapeM := Some otherShape,
                                         hitTypeM := Some ''soft''\<rparr>
                 in \<lparr>message = msg, delivered = delivered st @ [msg]\<rparr>))
      else st)"

text \<open>
  The loop over the other collision types of \<open>softCollisionMap\<close>, in visiting order, with the
  object \<open>againstGrid\<close> the query returned; the entities of a type are read from the store
  of entities and visited last to first.
\<close>

fun softOtherTypes ::
  "(aabb \<Rightarrow> aabb \<Rightarrow> bool) \<Rightarrow> (shape \<Rightarrow> shape \<Rightarrow> bool) \<Rightarrow> (entityId \<Rightarrow> entity) \<Rightarrow> entity \<Rightarrow> string
     \<Rightarrow> (string \<rightharpoonup> entityId list) \<Rightarrow> string list \<Rightarrow> softState \<Rightarrow> softState" where
  "softOtherTypes aabbCollides collides store ent collisionTy found [] st = st"
| "softOtherTypes aabbCollides collides store ent collisionTy found (otherCollisionType # rest) st =
     softOtherTypes aabbCollides collides store ent collisionTy found rest
       (case found otherCollisionType of
          None \<Rightarrow> st
        | Some otherEntities \<Rightarrow>
            fold (\<lambda>i. softEntityStep aabbCollides collides ent collisionTy otherCollisionType (store i))
              (rev otherEntities) st)"

text \<open>
  The loop over the entity's collision types, in visiting order. The query
  \<open>getEntityAgainstGrid\<close> throws for an entity that is not registered; the loop then ends
  with the state reached and the error.
\<close>

fun softTypes ::
  "(aabb \<Rightarrow> aabb \<Rightarrow> bool) \<Rightarrow> (shape \<Rightarrow> shape \<Rightarrow> bool) \<Rightarrow> grid \<Rightarrow> (entityId \<Rightarrow> entity) \<Rightarrow> entity
     \<Rightarrow> string list \<Rightarrow> softState \<Rightarrow> softState \<times> jsError option" where
  "softTypes aabbCollides collides g store ent [] st = (st, None)"
| "softTypes aabbCollides collides g store ent (collisionTy # rest) st =
     (case getEntityAgainstGrid g ent (softCollisionMap ent collisionTy) of
        Inl err \<Rightarrow> (st, Some err)
      | Inr found \<Rightarrow>
          softTypes aabbCollides collides g store ent rest
            (softOtherTypes aabbCollides collides store ent collisionTy found
               (rev (softCollisionMap ent collisionTy)) st))"

text \<open>
  \<open>checkEntityForSoftCollisions\<close>, from the shared message as the caller finds it: \<open>x\<close> and
  \<open>y\<close> are set to zero, then the loops run.
\<close>

definition checkEntityForSoftCollisions ::
  "(aabb \<Rightarrow> aabb \<Rightarrow> bool) \<Rightarrow> (shape \<Rightarrow> shape \<Rightarrow> bool) \<Rightarrow> grid \<Rightarrow> (entityId \<Rightarrow> entity) \<Rightarrow> entity
     \<Rightarrow> triggerMessage \<Rightarrow> softState \<times> jsError option" where
  "checkEntityForSoftCollisions aabbCollides collides g store ent msg =
     softTypes aabbCollides collides g store ent (rev (collisionTypes ent))
       \<lparr>message = msg\<lparr>xM := Fin 0, yM := Fin 0\<rparr>, delivered = []\<rparr>"

text \<open>
  \<open>getEntityCollisions\<close>: the copies of the messages, or the error thrown.
\<close>

definition getEntityCollisions ::
  "(aabb \<Rightarrow> aabb \<Rightarrow> bool) \<Rightarrow> (shape \<Rightarrow> shape \<Rightarrow> bool) \<Rightarrow> grid \<Rightarrow> (entityId \<Rightarrow> entity) \<Rightarrow> entity
     \<Rightarrow> triggerMessage \<Rightarrow> jsError + triggerMessage list" where
  "getEntityCollisions aabbCollides collides g store ent msg =
     (case checkEntityForSoftCollisions aabbCollides collides g store ent msg of
        (st, None) \<Rightarrow> Inr (delivered st)
      | (st, Some err) \<Rightarrow> Inl err)"

text \<open>
  The state of the handler and of the world around it during the soft pass: the grid, the
  entities by identity (with their positions), the list \<open>softEntitiesLive\<close>, the shared
  message, the events triggered so far, and the error thrown, if any, which ends the pass.
\<close>

record world =
  handlerGrid :: grid
  entityStore :: "entityId \<Rightarrow> entity"
  softEntitiesLive :: "entityId list"
  sharedMessage :: triggerMessage
  triggered :: "event list"
  thrown :: "jsError option"

text \<open>
  The callback of \<open>checkSoftCollisions\<close>, \<open>trigger\<close> bound to the entity: an event named
  after \<open>collision.type\<close>.
\<close>

definition softEvent :: "entityId \<Rightarrow> triggerMessage \<Rightarrow> event" where
  "softEvent i collision =
     \<lparr>target = i,
      eventName = ''hit-by-'' @ (case typeM collision of None \<Rightarrow> ''null'' | Some ty \<Rightarrow> ty),
      payload = collision\<rparr>"

text \<open>\<open>checkSoftCollisions\<close>: the loop over \<open>softEntitiesLive\<close>, in visiting order.\<close>

fun softLoop :: "(aabb \<Rightarrow> aabb \<Rightarrow> bool) \<Rightarrow> (shape \<Rightarrow> shape \<Rightarrow> bool) \<Rightarrow> entityId list \<Rightarrow> world \<Rightarrow> world" where
  "softLoop aabbCollides collides [] w = w"
| "softLoop aabbCollides collides (i # rest) w =
     (case thrown w of
        Some err \<Rightarrow> w
      | None \<Rightarrow>
          softLoop aabbCollides collides rest
            (case checkEntityForSoftCollisions aabbCollides collides (handlerGrid w) (entityStore w)
                    (entityStore w i) (sharedMessage w) of
               (st, err) \<Rightarrow>
                 w\<lparr>sharedMessage := message st,
                   triggered := triggered w @ map (softEvent i) (delivered st),
                   thrown := err\<rparr>))"

definition checkSoftCollisions :: "(aabb \<Rightarrow> aabb \<Rightarrow> bool) \<Rightarrow> (shape \<Rightarrow> shape \<Rightarrow> bool) \<Rightarrow> world \<Rightarrow> world" where
  "checkSoftCollisions aabbCollides collides w =
     softLoop aabbCollides collides (rev (softEntitiesLive w)) w"

text \<open>
  Predicates of the statements: a message that reports no contact side, and a state of the
  soft pass in which neither the shared message nor any message delivered reports one.
\<close>

definition noSide :: "triggerMessage \<Rightarrow> bool" where
  "noSide m = (xM m = Fin 0 \<and> yM m = Fin 0)"

definition sideless :: "softState \<Rightarrow> bool" where
  "sideless st = (noSide (message st) \<and> (\<forall>m \<in> set (delivered st). noSide m))"

text \<open>
  A small world for running the soft pass: a body \<open>hero\<close>, 100 wide at \<open>x = 250\<close>, that
  reports soft collisions with the type \<open>coin\<close>, and a coin at \<open>x = 280\<close> inside it, both
  indexed in a grid of 256-unit cells. The shared message is as a solid collision on the
  right side left it.
\<close>

definition softHero :: entity where
  "softHero =
     (boxEntity 1 False ''hero'' 250 100 50 5)
       \<lparr>softCollisionMap := (\<lambda>ty. if ty = ''hero'' then [''coin''] else []),
        againstGrid := Some [0, 1], againstAABB := Some (Cells 0 0 1 0)\<rparr>"

definition softCoin :: entity where
  "softCoin =
     (boxEntity 2 False ''coin'' 280 100 5 5)
       \<lparr>againstGrid := Some [1], againstAABB := Some (Cells 1 0 1 0)\<rparr>"

definition solidMessage :: triggerMessage where
  "solidMessage =
     \<lparr>entityM = Some 2, typeM = Some ''wall'', xM = Fin 1, yM = Fin 0,
      hitTypeM = Some ''solid'', myTypeM = Some ''hero'',
      directionM = Some (setXYZ (Fin 1) (Fin 0)), shapeM = None\<rparr>"

definition softWorld :: world where
  "softWorld =
     \<lparr>handlerGrid = [0 \<mapsto> [''hero'' \<mapsto> [1]], 1 \<mapsto> [''hero'' \<mapsto> [1], ''coin'' \<mapsto> [2]]],
      entityStore = (\<lambda>i. if i = 1 then softHero else softCoin),
      softEntitiesLive = [1],
      sharedMessage = solidMessage,
      triggered = [],
      thrown = None\<rparr>"

section \<open>Groups and the order of their resolution\<close>

text \<open>
  From \<open>HandlerCollision.js\<close>: \<open>groupSortBySize\<close> (lines 39 to 41), \<open>checkCamera\<close> (lines 308
  to 362) and \<open>checkGroupCollisions\<close> (lines 416 to 448); from \<open>collision-group.js\<close>:
  \<open>getAllEntities\<close> and \<open>getSize\<close> (lines 71 to 89).
\<close>

text \<open>
  What \<open>checkCamera\<close> and \<open>checkGroupCollisions\<close> read of an entity: whether it is immobile,
  its collision types (absent for an entity without collision component) and its
  \<open>collisionGroup\<close>, if it owns one, given by the group's array \<open>solidEntities\<close>. A member
  may own a group of its own; the owner of a group, when it is among the members, is the
  member that carries the owner's identity.
\<close>

datatype groupEntity =
  GroupEntity (ident: entityId) (immobile: bool) (groupTypes: "string list option")
    (collisionGroup: "groupEntity list option")

text \<open>
  \<open>collisionGroup.getAllEntities()\<close> of the group owned by \<open>ownerId\<close>: a member that is not
  the owner and owns a group counts with all entities of its group, any other member counts
  as one. \<open>countMember\<close> is the contribution of one member.
\<close>

fun countMember :: "entityId \<Rightarrow> groupEntity \<Rightarrow> nat" where
  "countMember ownerId (GroupEntity i im ty g) =
     (case g of
        None \<Rightarrow> 1
      | Some solidEntities \<Rightarrow>
          if i \<noteq> ownerId then sum_list (map (countMember i) solidEntities) else 1)"

definition getAllEntities :: "groupEntity \<Rightarrow> nat" where
  "getAllEntities ent =
     (case collisionGroup ent of
        None \<Rightarrow> 0
      | Some solidEntities \<Rightarrow> sum_list (map (countMember (ident ent)) solidEntities))"

text \<open>\<open>collisionGroup.getSize()\<close>: the number of direct members.\<close>

definition getSize :: "groupEntity \<Rightarrow> nat" where
  "getSize ent = (case collisionGroup ent of None \<Rightarrow> 0 | Some solidEntities \<Rightarrow> length solidEntities)"

text \<open>
  The array \<open>groupsLive\<close> as \<open>checkCamera\<close> leaves it. The loop visits \<open>all\<close> last to first and
  pushes every entity that is not immobile, has at least one collision type and owns a
  group; then \<open>groups.sort(groupSortBySize)\<close> sorts by the difference of \<open>getAllEntities()\<close>,
  that is, ascending. The sort is modelled by the stable insertion sort of the library; the
  statement below depends only on the result being sorted.
\<close>

definition isLive :: "groupEntity \<Rightarrow> bool" where
  "isLive ent = (\<not> immobile ent \<and> (case groupTypes ent of None \<Rightarrow> False | Some ts \<Rightarrow> ts \<noteq> []))"

definition groupsLive :: "groupEntity list \<Rightarrow> groupEntity list" where
  "groupsLive all =
     sort_key getAllEntities (filter (\<lambda>ent. isLive ent \<and> collisionGroup ent \<noteq> None) (rev all))"

text \<open>
  \<open>checkGroupCollisions\<close> visits \<open>groupsLive\<close> last to first and runs the solid resolution on
  every group with more than one member: the groups resolved, in the order of resolution.
\<close>

definition checkGroupCollisions :: "groupEntity list \<Rightarrow> groupEntity list" where
  "checkGroupCollisions all = filter (\<lambda>ent. 1 < getSize ent) (rev (groupsLive all))"

text \<open>
  Three groups for running the pass: a platform with three plain members; a carrier with two
  members, one of which owns a nested group of four; and a group of one.
\<close>

definition plainMember :: "entityId \<Rightarrow> groupEntity" where
  "plainMember i = GroupEntity i False (Some [''body'']) None"

definition platformGroup :: groupEntity where
  "platformGroup =
     GroupEntity 10 False (Some [''body''])
       (Some [plainMember 10, plainMember 11, plainMember 12])"

definition carrierGroup :: groupEntity where
  "carrierGroup =
     GroupEntity 20 False (Some [''body''])
       (Some [plainMember 20,
              GroupEntity 21 False (Some [''body''])
                (Some [plainMember 21, plainMember 22, plainMember 23, plainMember 24])])"

definition loneGroup :: groupEntity where
  "loneGroup = GroupEntity 30 False (Some [''body'']) (Some [plainMember 30])"

section \<open>Properties of the rounding\<close>

lemma roundEven_of_int: "roundEven (of_int k) = k"
  by (simp add: roundEven_def)

lemma roundEven_nonneg: "0 \<le> v \<Longrightarrow> 0 \<le> roundEven v"
  by (auto simp add: roundEven_def Let_def)

lemma binade_unique:
  assumes lo: "2 powi n \<le> \<bar>r\<bar>" and hi: "\<bar>r\<bar> < 2 powi (n + 1)"
  shows "binade r = n"
proof (cases "0 \<le> n")
  case True
  define k where "k = nat n"
  have n: "n = int k"
    using True by (simp add: k_def)
  have lo': "2 ^ k \<le> \<bar>r\<bar>" and hi': "\<bar>r\<bar> < 2 ^ (k + 1)"
    using lo hi unfolding n by (simp_all add: power_int_add)
  have one: "1 \<le> \<bar>r\<bar>"
    using lo' one_le_power [of "2::real" k] by linarith
  have "(2::int) ^ k \<le> \<lfloor>\<bar>r\<bar>\<rfloor>"
    using lo' by (simp add: le_floor_iff)
  moreover have "\<lfloor>\<bar>r\<bar>\<rfloor> < (2::int) ^ (k + 1)"
    using hi' by (simp add: floor_less_iff)
  ultimately have "bitlen \<lfloor>\<bar>r\<bar>\<rfloor> = int k + 1"
    using bitlen_le_iff_power [of "\<lfloor>\<bar>r\<bar>\<rfloor>" "int k + 1"]
      bitlen_ge_iff_power [of "int k + 1" "\<lfloor>\<bar>r\<bar>\<rfloor>"]
    by (simp add: nat_add_distrib)
  then show ?thesis
    using one n by (simp add: binade_def)
next
  case False
  define k where "k = nat (- n)"
  have n: "n = - int k" and k: "1 \<le> k"
    using False by (simp_all add: k_def)
  have pos: "0 < \<bar>r\<bar>"
  proof -
    have "0 < (2::real) powi n"
      by (simp add: zero_less_power_int)
    then show ?thesis
      using lo by linarith
  qed
  have lo': "1 / 2 ^ k \<le> \<bar>r\<bar>"
    using lo unfolding n by (simp add: power_int_minus field_simps)
  have "n + 1 = - int (k - 1)"
    using k n by simp
  then have hi': "\<bar>r\<bar> < 1 / 2 ^ (k - 1)"
    using hi by (simp add: power_int_minus field_simps)
  have "1 / 2 ^ (k - 1) \<le> (1::real)"
    by simp
  then have small: "\<not> 1 \<le> \<bar>r\<bar>"
    using hi' by linarith
  have qhi: "1 / \<bar>r\<bar> \<le> 2 ^ k"
    using lo' pos by (simp add: field_simps)
  have qlo: "2 ^ (k - 1) < 1 / \<bar>r\<bar>"
    using hi' pos by (simp add: field_simps)
  have "\<lceil>1 / \<bar>r\<bar>\<rceil> \<le> (2::int) ^ k"
    using qhi by (simp add: ceiling_le_iff)
  moreover have "(2::int) ^ (k - 1) < \<lceil>1 / \<bar>r\<bar>\<rceil>"
    using qlo by (simp add: less_ceiling_iff)
  ultimately have "bitlen (\<lceil>1 / \<bar>r\<bar>\<rceil> - 1) = int k"
    using bitlen_le_iff_power [of "\<lceil>1 / \<bar>r\<bar>\<rceil> - 1" "int k"]
      bitlen_ge_iff_power [of "int k" "\<lceil>1 / \<bar>r\<bar>\<rceil> - 1"] k
    by (simp add: nat_diff_distrib)
  then show ?thesis
    using small n by (simp add: binade_def)
qed

lemma ulpExponent_binade:
  assumes "2 powi n \<le> \<bar>r\<bar>" and "\<bar>r\<bar> < 2 powi (n + 1)" and "- 1022 \<le> n"
  shows "ulpExponent r = n - 52"
  using binade_unique [OF assms(1,2)] assms(3) by (simp add: ulpExponent_def)

lemma powi_less_cancel: "(2::real) powi a < 2 powi b \<Longrightarrow> a < b"
  using power_int_increasing [of b a "2::real"] by (cases "a < b") simp_all

lemma roundEven_bound: "\<bar>real_of_int (roundEven v)\<bar> \<le> \<bar>v\<bar> + 1"
  unfolding roundEven_def Let_def by (auto; linarith)

lemma round64_binade:
  assumes "2 powi n \<le> \<bar>r\<bar>" and "\<bar>r\<bar> < 2 powi (n + 1)" and "- 1022 \<le> n"
  shows "round64 r =
           (let v = of_int (roundEven (r / 2 powi (n - 52))) * 2 powi (n - 52)
            in if 2 ^ 1024 \<le> \<bar>v\<bar> then (if 0 < r then PInf else NInf) else Fin v)"
proof -
  have "0 < (2::real) powi n"
    by (simp add: zero_less_power_int)
  hence "0 < \<bar>r\<bar>"
    using assms(1) by linarith
  hence "r \<noteq> 0"
    by auto
  thus ?thesis
    by (simp add: round64_def Let_def ulpExponent_binade [OF assms])
qed

lemma round64_nonneg:
  assumes "0 \<le> r"
  shows "(\<exists>v. round64 r = Fin v \<and> 0 \<le> v) \<or> round64 r = PInf"
proof (cases "r = 0")
  case True
  thus ?thesis by (simp add: round64_def)
next
  case False
  hence pos: "0 < r" using assms by simp
  have "0 \<le> r / 2 powi ulpExponent r"
    using assms by simp
  hence "0 \<le> real_of_int (roundEven (r / 2 powi ulpExponent r)) * 2 powi ulpExponent r"
    using roundEven_nonneg by simp
  thus ?thesis
    using pos by (simp add: round64_def Let_def)
qed

lemma round64_dyadic:
  assumes m: "\<bar>m\<bar> < 2 ^ 53" and j: "j \<le> 1000"
  shows "round64 (of_int m / 2 ^ j) = Fin (of_int m / 2 ^ j)"
proof (cases "m = 0")
  case True
  thus ?thesis by (simp add: round64_def)
next
  case False
  define r :: real where "r = of_int m / 2 ^ j"
  define n where "n = \<lfloor>log 2 \<bar>r\<bar>\<rfloor>"
  have rpos: "0 < \<bar>r\<bar>"
    using False by (simp add: r_def)
  have a: "(2::real) powr (real_of_int n) = 2 powi n"
    by (simp add: powr_real_of_int')
  have b: "(2::real) powr (real_of_int n + 1) = 2 powi (n + 1)"
    using powr_real_of_int' [of "2::real" "n + 1"] by simp
  have binade: "2 powi n \<le> \<bar>r\<bar>" "\<bar>r\<bar> < 2 powi (n + 1)"
    using floor_log_eq_powr_iff [of "\<bar>r\<bar>" 2 n] rpos a b n_def by simp_all
  have rj: "\<bar>r\<bar> = of_int \<bar>m\<bar> * 2 powi (- int j)"
    by (simp add: r_def power_int_minus field_simps)
  have "1 \<le> \<bar>m\<bar>"
    using False by simp
  hence "(1::real) \<le> of_int \<bar>m\<bar>"
    by linarith
  hence lower: "2 powi (- int j) \<le> \<bar>r\<bar>"
    unfolding rj by (simp add: power_int_minus field_simps)
  have "real_of_int \<bar>m\<bar> < 2 ^ 53"
    using m by (metis of_int_less_numeral_power_cancel_iff)
  hence "\<bar>r\<bar> < 2 ^ 53 * 2 powi (- int j)"
    unfolding rj by (simp add: power_int_minus field_simps)
  hence upper: "\<bar>r\<bar> < 2 powi (53 - int j)"
    by (simp add: power_int_diff power_int_minus field_simps)
  have "(2::real) powi (- int j) < 2 powi (n + 1)"
    using lower binade(2) by linarith
  hence nlow: "- int j \<le> n"
    using powi_less_cancel [of "- int j" "n + 1"] by simp
  have "(2::real) powi n < 2 powi (53 - int j)"
    using upper binade(1) by linarith
  hence nhigh: "n \<le> 52 - int j"
    using powi_less_cancel [of n "53 - int j"] by simp
  have nge: "- 1022 \<le> n"
    using nlow j by linarith
  define k where "k = nat (52 - int j - n)"
  have kn: "n - 52 = - int (j + k)"
    using nhigh by (simp add: k_def)
  have p: "(2::real) powi (n - 52) = 1 / (2 ^ j * 2 ^ k)"
    unfolding kn power_int_minus power_int_of_nat by (simp add: power_add field_simps)
  have scaled: "r / 2 powi (n - 52) = of_int (m * 2 ^ k)"
    unfolding p r_def by simp
  have unscale: "real_of_int (m * 2 ^ k) * 2 powi (n - 52) = r"
    unfolding p r_def by simp
  have small: "\<bar>r\<bar> < 2 ^ 1024"
  proof -
    have "(2::real) powi (53 - int j) \<le> 2 powi 1024"
      by (rule power_int_increasing) simp_all
    thus ?thesis
      using upper by simp
  qed
  have "round64 r = Fin r"
    using round64_binade [OF binade nge] small
    by (simp add: scaled roundEven_of_int unscale del: of_int_mult of_int_power)
  thus ?thesis
    by (simp add: r_def)
qed

lemma round64_of_int: "\<bar>m\<bar> < 2 ^ 53 \<Longrightarrow> round64 (of_int m) = Fin (of_int m)"
  using round64_dyadic [of m 0] by simp

lemma round64_whole_number:
  assumes "r \<in> \<int>" and "\<bar>r\<bar> < 2 ^ 53"
  shows "round64 r = Fin r"
proof -
  from assms(1) obtain k where k: "r = of_int k"
    by (rule Ints_cases)
  have "\<bar>real_of_int k\<bar> < 2 ^ 53"
    using assms(2) k by simp
  hence "\<bar>k\<bar> < 2 ^ 53"
    by (metis of_int_abs of_int_less_numeral_power_cancel_iff)
  thus ?thesis
    using round64_of_int [of k] k by simp
qed

lemma round64_zero: "round64 0 = Fin 0"
  by (simp add: round64_def)

lemma round64_one: "round64 1 = Fin 1"
  using round64_of_int [of 1] by simp

lemma round64_numeral:
  "(numeral n :: int) < 2 ^ 53 \<Longrightarrow> round64 (numeral n) = Fin (numeral n)"
  using round64_of_int [of "numeral n"] by simp

lemma round64_neg_numeral:
  "(numeral n :: int) < 2 ^ 53 \<Longrightarrow> round64 (- numeral n) = Fin (- numeral n)"
  using round64_of_int [of "- numeral n"] by simp

lemmas round64_whole = round64_zero round64_one round64_numeral round64_neg_numeral

declare round64_whole [simp]

lemma round64_eval:
  assumes "2 ^ k \<le> \<bar>r\<bar>" and "\<bar>r\<bar> < 2 * 2 ^ k" and "k \<le> 52"
  shows "round64 r = Fin (of_int (roundEven (r * 2 ^ (52 - k))) / 2 ^ (52 - k))"
proof -
  have binade: "2 powi (int k) \<le> \<bar>r\<bar>" "\<bar>r\<bar> < 2 powi (int k + 1)"
    using assms(1,2) by (simp_all add: power_int_add)
  have e: "int k - 52 = - int (52 - k)"
    using assms(3) by simp
  have scaled: "r / 2 powi (int k - 52) = r * 2 ^ (52 - k)"
    unfolding e by (simp add: power_int_minus field_simps)
  have unscale: "\<And>z. (z::real) * 2 powi (int k - 52) = z / 2 ^ (52 - k)"
    unfolding e by (simp add: power_int_minus field_simps)
  have "\<bar>real_of_int (roundEven (r * 2 ^ (52 - k)))\<bar> \<le> \<bar>r * 2 ^ (52 - k)\<bar> + 1"
    by (rule roundEven_bound)
  also have "\<dots> = \<bar>r\<bar> * 2 ^ (52 - k) + 1"
    by (simp add: abs_mult)
  also have "\<dots> < 2 * 2 ^ k * 2 ^ (52 - k) + 1"
    using assms(2) by simp
  also have "\<dots> = 2 ^ 53 + 1"
    using assms(3) by (simp add: power_add [symmetric])
  finally have whole: "\<bar>real_of_int (roundEven (r * 2 ^ (52 - k)))\<bar> < 2 ^ 53 + 1" .
  have "\<bar>real_of_int (roundEven (r * 2 ^ (52 - k)))\<bar> / 2 ^ (52 - k)
          \<le> \<bar>real_of_int (roundEven (r * 2 ^ (52 - k)))\<bar> / 1"
    by (rule divide_left_mono) simp_all
  hence "\<bar>real_of_int (roundEven (r * 2 ^ (52 - k)))\<bar> / 2 ^ (52 - k) < 2 ^ 53 + 1"
    using whole by simp
  hence small: "\<bar>real_of_int (roundEven (r * 2 ^ (52 - k))) / 2 ^ (52 - k)\<bar> < 2 ^ 1024"
    by simp
  show ?thesis
    using round64_binade [OF binade] small by (simp add: scaled unscale Let_def)
qed

text \<open>
  A finite rounded result lies within half a unit in the last place of the exact result, and
  it is a binary64 number: a whole multiple of that unit of at most 53 bits.
\<close>

lemma roundEven_near: "\<bar>real_of_int (roundEven v) - v\<bar> \<le> 1 / 2"
  unfolding roundEven_def Let_def by (auto; linarith)

lemma round64_near:
  assumes "round64 r = Fin v"
  shows "\<bar>v - r\<bar> \<le> 2 powi ulpExponent r / 2"
proof (cases "r = 0")
  case True
  then show ?thesis
    using assms by (simp add: round64_def)
next
  case False
  define e where "e = ulpExponent r"
  define k where "k = roundEven (r / 2 powi e)"
  have pos: "0 < (2::real) powi e"
    by (simp add: zero_less_power_int)
  have v: "v = of_int k * 2 powi e"
    using assms False by (auto simp: round64_def Let_def e_def k_def split: if_splits)
  have "\<bar>real_of_int k - r / 2 powi e\<bar> \<le> 1 / 2"
    unfolding k_def by (rule roundEven_near)
  then have le: "\<bar>real_of_int k - r / 2 powi e\<bar> * 2 powi e \<le> 1 / 2 * 2 powi e"
    using pos by (intro mult_right_mono) simp_all
  have eq: "\<bar>real_of_int k - r / 2 powi e\<bar> * 2 powi e = \<bar>v - r\<bar>"
  proof -
    have "\<bar>real_of_int k - r / 2 powi e\<bar> * 2 powi e
            = \<bar>(real_of_int k - r / 2 powi e) * 2 powi e\<bar>"
      using pos by (simp add: abs_mult)
    also have "(real_of_int k - r / 2 powi e) * 2 powi e = v - r"
      using pos by (simp add: v field_simps)
    finally show ?thesis .
  qed
  from le have "\<bar>v - r\<bar> \<le> 1 / 2 * 2 powi e"
    unfolding eq .
  then show ?thesis
    by (simp add: e_def)
qed

lemma binade_bounds:
  assumes "r \<noteq> 0"
  shows "2 powi binade r \<le> \<bar>r\<bar> \<and> \<bar>r\<bar> < 2 powi (binade r + 1)"
proof -
  define n where "n = \<lfloor>log 2 \<bar>r\<bar>\<rfloor>"
  have rpos: "0 < \<bar>r\<bar>"
    using assms by simp
  have a: "(2::real) powr (real_of_int n) = 2 powi n"
    by (simp add: powr_real_of_int')
  have b: "(2::real) powr (real_of_int n + 1) = 2 powi (n + 1)"
    using powr_real_of_int' [of "2::real" "n + 1"] by simp
  have bounds: "2 powi n \<le> \<bar>r\<bar>" "\<bar>r\<bar> < 2 powi (n + 1)"
    using floor_log_eq_powr_iff [of "\<bar>r\<bar>" 2 n] rpos a b n_def by simp_all
  then show ?thesis
    using binade_unique [OF bounds] by simp
qed

lemma roundEven_le: "v \<le> of_int k \<Longrightarrow> roundEven v \<le> k"
  unfolding roundEven_def Let_def by (auto; linarith)

lemma roundEven_ge: "of_int k \<le> v \<Longrightarrow> k \<le> roundEven v"
  unfolding roundEven_def Let_def by (auto; linarith)

lemma round64_representable:
  assumes "round64 r = Fin v"
  shows "\<exists>k. \<bar>k\<bar> \<le> 2 ^ 53 \<and> v = of_int k * 2 powi ulpExponent r"
proof (cases "r = 0")
  case True
  then show ?thesis
    using assms by (auto simp: round64_def intro: exI [of _ 0])
next
  case False
  define e where "e = ulpExponent r"
  define k where "k = roundEven (r / 2 powi e)"
  have pos: "0 < (2::real) powi e"
    by (simp add: zero_less_power_int)
  have v: "v = of_int k * 2 powi e"
    using assms False by (auto simp: round64_def Let_def e_def k_def split: if_splits)
  have "binade r - 52 \<le> e"
    by (simp add: e_def ulpExponent_def)
  then have "(2::real) powi (binade r - 52) \<le> 2 powi e"
    by (intro power_int_increasing) simp_all
  then have "2 ^ 53 * (2::real) powi (binade r - 52) \<le> 2 ^ 53 * 2 powi e"
    by (intro mult_left_mono) simp_all
  moreover have "\<bar>r\<bar> < 2 powi (binade r + 1)"
    using binade_bounds [OF False] by simp
  moreover have "(2::real) powi (binade r + 1) = 2 ^ 53 * 2 powi (binade r - 52)"
    by (simp add: power_int_add power_int_diff)
  ultimately have "\<bar>r\<bar> < 2 ^ 53 * 2 powi e"
    by linarith
  define q where "q = r / 2 powi e"
  have "\<bar>q\<bar> = \<bar>r\<bar> / 2 powi e"
    using pos by (simp add: q_def)
  also have "\<dots> < 2 ^ 53"
    using \<open>\<bar>r\<bar> < 2 ^ 53 * 2 powi e\<close> pos by (simp add: field_simps)
  finally have up: "q \<le> of_int (2 ^ 53)" and down: "of_int (- (2 ^ 53)) \<le> q"
    by simp_all
  have "roundEven q \<le> 2 ^ 53" "- (2 ^ 53) \<le> roundEven q"
    using roundEven_le [OF up] roundEven_ge [OF down] by simp_all
  then have "\<bar>k\<bar> \<le> 2 ^ 53"
    by (simp add: k_def q_def)
  then show ?thesis
    using v e_def by blast
qed

text \<open>
  Rounding to nearest loses at most the fraction \<open>1 / 2 ^ 53\<close> of a positive exact result, unless
  that is below 1 (where it can be subnormal).
\<close>

lemma round64_lower:
  assumes "round64 q = Fin r" and "0 < q"
  shows "q * (1 - 1 / 2 ^ 53) \<le> r \<or> q < 1"
proof (cases "- 1022 \<le> binade q")
  case True
  have ne: "q \<noteq> 0"
    using assms(2) by simp
  have e: "ulpExponent q = binade q - 52"
    using True by (simp add: ulpExponent_def)
  have "2 powi binade q \<le> \<bar>q\<bar>"
    using binade_bounds [OF ne] by simp
  then have "(2::real) powi (binade q - 52) \<le> q / 2 ^ 52"
    using assms(2) by (simp add: power_int_diff field_simps)
  then have "(2::real) powi (binade q - 52) / 2 \<le> q / 2 ^ 52 / 2"
    by (rule divide_right_mono) simp
  moreover have "\<bar>r - q\<bar> \<le> 2 powi (binade q - 52) / 2"
    using round64_near [OF assms(1)] e by simp
  ultimately have "\<bar>r - q\<bar> \<le> q / 2 ^ 52 / 2"
    by (rule order_trans [rotated])
  moreover have "q / 2 ^ 52 / 2 = q / 2 ^ 53"
    by simp
  ultimately have "q - q / 2 ^ 53 \<le> r"
    by (simp only: abs_le_iff) linarith
  moreover have "q * (1 - 1 / 2 ^ 53) = q - q / 2 ^ 53"
    by (simp only: right_diff_distrib mult_1_right times_divide_eq_right)
  ultimately show ?thesis
    by (simp only: simp_thms)
next
  case False
  have ne: "q \<noteq> 0"
    using assms(2) by simp
  have "binade q + 1 \<le> 0"
    using False by simp
  then have "(2::real) powi (binade q + 1) \<le> 2 powi 0"
    by (intro power_int_increasing) simp_all
  moreover have "\<bar>q\<bar> < 2 powi (binade q + 1)"
    using binade_bounds [OF ne] by simp
  ultimately show ?thesis
    using assms(2) by simp
qed

text \<open>
  The numbers of the runs in which rounding shows are the binary64 numbers of their decimal
  descriptions.
\<close>

lemma rounding_run_coordinates:
  "round64 (- 32.8) = Fin startX" "round64 7.6 = Fin wallX" "round64 30.4 = Fin travelX"
  "jadd (Fin startX) (Fin travelX) = Fin goalX" "jsub (Fin wallX) (Fin 10) = Fin contactX"
proof -
  show "round64 (- 32.8) = Fin startX"
    by (subst round64_eval [where k = 5]) (simp_all add: roundEven_def Let_def startX_def)
  show "round64 7.6 = Fin wallX"
    by (subst round64_eval [where k = 2]) (simp_all add: roundEven_def Let_def wallX_def)
  show "round64 30.4 = Fin travelX"
    by (subst round64_eval [where k = 4]) (simp_all add: roundEven_def Let_def travelX_def)
  show "jadd (Fin startX) (Fin travelX) = Fin goalX"
    unfolding startX_def goalX_def travelX_def jadd.simps
    by (subst round64_eval [where k = 1]) (simp_all add: roundEven_def Let_def)
  show "jsub (Fin wallX) (Fin 10) = Fin contactX"
    unfolding jsub_def wallX_def contactX_def jneg.simps jadd.simps
    by (subst round64_eval [where k = 1]) (simp_all add: roundEven_def Let_def)
qed

lemma rounding_run_sizes:
  "jsub (Fin 185) (round64 11.6) = Fin bulletDeltaX" "jsub (Fin 16) (round64 5.8) = Fin bulletWidth"
proof -
  have a: "round64 11.6 = Fin (6530219459687219 / 2 ^ 49)"
    by (subst round64_eval [where k = 3]) (simp_all add: roundEven_def Let_def)
  have b: "round64 5.8 = Fin (6530219459687219 / 2 ^ 50)"
    by (subst round64_eval [where k = 2]) (simp_all add: roundEven_def Let_def)
  show "jsub (Fin 185) (round64 11.6) = Fin bulletDeltaX"
    unfolding a jsub_def jneg.simps jadd.simps bulletDeltaX_def
    by (subst round64_eval [where k = 7]) (simp_all add: roundEven_def Let_def)
  show "jsub (Fin 16) (round64 5.8) = Fin bulletWidth"
    unfolding b jsub_def jneg.simps jadd.simps bulletWidth_def
    by (subst round64_eval [where k = 3]) (simp_all add: roundEven_def Let_def)
qed

section \<open>Properties of the axis resolver\<close>

lemma candidateStep_travelInv:
  assumes "travelInv a g st" and "a \<noteq> NaN" and "g \<noteq> NaN" and "a \<noteq> g"
  shows "travelInv a g (candidateStep collides ax (travelDirection a g) a cur tr pc st)"
proof -
  obtain pos where pos:
    "fst (findAxisCollisionPosition ax (type tr) (type pc) (travelDirection a g) tr pc) = pos"
    by simp
  obtain fp cd where st: "st = (fp, cd)" by (cases st)
  show ?thesis
    using assms pos st
    by (cases pos; cases fp; cases a; cases g)
       (auto simp: candidateStep_def travelInv_def between_def travelDirection_def Let_def jgt_def
                   cd_set_def jle_def jeq_def
             split: if_splits)
qed

lemma candidateLoop_travelInv:
  assumes "travelInv a g st" and "a \<noteq> NaN" and "g \<noteq> NaN" and "a \<noteq> g"
  shows "travelInv a g (candidateLoop collides ax (travelDirection a g) a cur tr pcs st)"
  using assms
  by (induction pcs arbitrary: st) (simp_all add: candidateStep_travelInv)

lemma resolveAlongAxis_travelInv:
  assumes "axisOf ax prevShape \<noteq> NaN" and "axisOf ax currentShape \<noteq> NaN"
  shows "travelInv (axisOf ax prevShape) (axisOf ax currentShape)
           (resolveAlongAxis collides prevShape currentShape ax pcs)"
proof -
  have init: "travelInv (axisOf ax prevShape) (axisOf ax currentShape)
                (axisOf ax currentShape, CollisionData_setUp)"
    using assms
    by (cases "axisOf ax prevShape"; cases "axisOf ax currentShape")
       (auto simp: travelInv_def between_def jle_def jeq_def CollisionData_setUp_def)
  show ?thesis
  proof (cases "axisOf ax prevShape = axisOf ax currentShape")
    case True
    then show ?thesis using init assms by (simp add: resolveAlongAxis_def jeq_def Let_def)
  next
    case False
    then show ?thesis
      using candidateLoop_travelInv [OF init assms False] assms
      by (simp add: resolveAlongAxis_def jeq_def Let_def)
  qed
qed

lemma jabs_not_negative: "\<not> jlt (jabs v) (Fin 0)"
  by (cases v) auto

lemma candidateStep_contactInv:
  assumes "contactInv a g p st" and "a \<noteq> g" and "min a g \<le> p" and "p \<le> max a g"
    and "noCloser collides ax a g p tr c"
  shows "contactInv a g p
           (candidateStep collides ax (travelDirection (Fin a) (Fin g)) (Fin a) cur tr c st)"
proof -
  obtain pos where pos:
    "fst (findAxisCollisionPosition ax (type tr) (type c) (travelDirection (Fin a) (Fin g)) tr c) = pos"
    by simp
  show ?thesis
    using assms pos
    by (cases pos; cases st; cases "fst st")
       (auto simp: candidateStep_def contactInv_def contactRecord_def noCloser_def earlier_def
                   travelDirection_def Let_def jgt_def cd_set_def
             split: if_splits)
qed

lemma candidateStep_settled:
  assumes "contactInv a g p st" and "fst st = Fin p" and "noCloser collides ax a g p tr c"
    and "a \<noteq> g"
  shows "candidateStep collides ax (travelDirection (Fin a) (Fin g)) (Fin a) cur tr c st = st"
proof -
  obtain pos where pos:
    "fst (findAxisCollisionPosition ax (type tr) (type c) (travelDirection (Fin a) (Fin g)) tr c) = pos"
    by simp
  show ?thesis
    using assms pos
    by (cases pos; cases st)
       (auto simp: candidateStep_def contactInv_def noCloser_def earlier_def
                   travelDirection_def Let_def jgt_def
             split: if_splits)
qed

lemma candidateStep_contact:
  assumes "contactInv a g p st" and "a \<noteq> g" and "min a g \<le> p" and "p \<le> max a g"
    and "collides tr c"
    and "fst (findAxisCollisionPosition ax (type tr) (type c) (travelDirection (Fin a) (Fin g)) tr c)
           = Fin p"
  shows "fst (candidateStep collides ax (travelDirection (Fin a) (Fin g)) (Fin a) cur tr c st) = Fin p"
  using assms
  by (cases st; cases "fst st")
     (auto simp: candidateStep_def contactInv_def earlier_def travelDirection_def Let_def jgt_def
           split: if_splits)

lemma candidateLoop_contact:
  assumes "contactInv a g p st" and "a \<noteq> g" and "min a g \<le> p" and "p \<le> max a g"
    and "\<forall>c \<in> set cs. noCloser collides ax a g p tr c"
    and "fst st = Fin p \<or>
         (\<exists>c \<in> set cs. collides tr c \<and>
            fst (findAxisCollisionPosition ax (type tr) (type c)
                   (travelDirection (Fin a) (Fin g)) tr c) = Fin p)"
  shows "contactRecord a g p
           (snd (candidateLoop collides ax (travelDirection (Fin a) (Fin g)) (Fin a) cur tr cs st))"
  using assms
proof (induction cs arbitrary: st)
  case Nil
  then show ?case by (simp add: contactInv_def)
next
  case (Cons c cs)
  let ?st = "candidateStep collides ax (travelDirection (Fin a) (Fin g)) (Fin a) cur tr c st"
  have inv: "contactInv a g p ?st"
    using Cons.prems by (simp add: candidateStep_contactInv)
  have "fst ?st = Fin p \<or>
         (\<exists>c \<in> set cs. collides tr c \<and>
            fst (findAxisCollisionPosition ax (type tr) (type c)
                   (travelDirection (Fin a) (Fin g)) tr c) = Fin p)"
  proof (cases "fst st = Fin p")
    case True
    then have "?st = st" using Cons.prems by (simp add: candidateStep_settled)
    then show ?thesis using True by simp
  next
    case False
    then show ?thesis using Cons.prems candidateStep_contact [of a g p st collides tr c ax cur]
      by auto
  qed
  then show ?case using Cons.IH [OF inv] Cons.prems by simp
qed

text \<open>
  Claim C5. For every call of \<open>findMinShapeMovementCollision\<close> whose start and goal
  coordinates are numbers (not \<open>NaN\<close>), whatever the candidate shapes and whatever their
  contact positions (infinite and \<open>NaN\<close> included), the position the loop resolves lies in
  the closed interval between the start and the goal. A record that reports a collision
  carries that position, so it is never behind the starting point, and its \<open>deltaMovement\<close>
  is the absolute difference to the start, which is never negative.
\<close>

theorem findMinShapeMovementCollision_within_travel:
  assumes "axisOf ax prevShape \<noteq> NaN" and "axisOf ax currentShape \<noteq> NaN"
  shows "between (axisOf ax prevShape) (axisOf ax currentShape)
           (fst (resolveAlongAxis collides prevShape currentShape ax pcs)) \<and>
         (occurred (findMinShapeMovementCollision collides prevShape currentShape ax pcs) \<longrightarrow>
            position (findMinShapeMovementCollision collides prevShape currentShape ax pcs)
              = fst (resolveAlongAxis collides prevShape currentShape ax pcs) \<and>
            between (axisOf ax prevShape) (axisOf ax currentShape)
              (position (findMinShapeMovementCollision collides prevShape currentShape ax pcs)) \<and>
            deltaMovement (findMinShapeMovementCollision collides prevShape currentShape ax pcs)
              = jabs (jsub (position (findMinShapeMovementCollision collides prevShape currentShape ax pcs))
                       (axisOf ax prevShape)) \<and>
            \<not> jlt (deltaMovement (findMinShapeMovementCollision collides prevShape currentShape ax pcs))
                  (Fin 0))"
  using resolveAlongAxis_travelInv [OF assms, of collides pcs]
    jabs_not_negative [of "jsub (fst (resolveAlongAxis collides prevShape currentShape ax pcs))
                             (axisOf ax prevShape)"]
  by (simp add: travelInv_def findMinShapeMovementCollision_def)

text \<open>
  A run of C5 where the guard acts: the wall already overlaps the start position, its
  contact position \<open>-7\<close> lies behind the start \<open>0\<close>, and the record is clamped to the start.
\<close>

theorem findMinShapeMovementCollision_within_travel_witness:
  "occurred (findMinShapeMovementCollision overlapShapes (rectangleAt (Some 1) ''hero'' 0 0 5 5)
       (rectangleAt (Some 1) ''hero'' 20 0 5 5) AxisX [rectangleAt (Some 2) ''wall'' 8 0 10 5]) \<and>
   fst (findAxisCollisionPosition AxisX Rectangle Rectangle (Fin 1)
          (moveX (Fin 20) (rectangleAt (Some 1) ''hero'' 0 0 5 5))
          (rectangleAt (Some 2) ''wall'' 8 0 10 5)) = Fin (- 7) \<and>
   position (findMinShapeMovementCollision overlapShapes (rectangleAt (Some 1) ''hero'' 0 0 5 5)
       (rectangleAt (Some 1) ''hero'' 20 0 5 5) AxisX [rectangleAt (Some 2) ''wall'' 8 0 10 5]) = Fin 0 \<and>
   deltaMovement (findMinShapeMovementCollision overlapShapes (rectangleAt (Some 1) ''hero'' 0 0 5 5)
       (rectangleAt (Some 1) ''hero'' 20 0 5 5) AxisX [rectangleAt (Some 2) ''wall'' 8 0 10 5]) = Fin 0"
proof -
  let ?cd = "findMinShapeMovementCollision overlapShapes (rectangleAt (Some 1) ''hero'' 0 0 5 5)
       (rectangleAt (Some 1) ''hero'' 20 0 5 5) AxisX [rectangleAt (Some 2) ''wall'' 8 0 10 5]"
  have occ: "occurred ?cd"
    by (simp add: findMinShapeMovementCollision_def resolveAlongAxis_def candidateStep_def
          rectangleAt_def boxAt_def overlapShapes_def overlapAABB_def moveX_def jeq_def jgt_def
          travelDirection_def jsub_def cd_set_def Let_def round64_whole)
  have fp: "fst (resolveAlongAxis overlapShapes (rectangleAt (Some 1) ''hero'' 0 0 5 5)
       (rectangleAt (Some 1) ''hero'' 20 0 5 5) AxisX [rectangleAt (Some 2) ''wall'' 8 0 10 5]) = Fin 0"
    by (simp add: resolveAlongAxis_def candidateStep_def
          rectangleAt_def boxAt_def overlapShapes_def overlapAABB_def moveX_def jeq_def jgt_def
          travelDirection_def jsub_def cd_set_def Let_def round64_whole)
  have contact: "fst (findAxisCollisionPosition AxisX Rectangle Rectangle (Fin 1)
          (moveX (Fin 20) (rectangleAt (Some 1) ''hero'' 0 0 5 5))
          (rectangleAt (Some 2) ''wall'' 8 0 10 5)) = Fin (- 7)"
    by (simp add: rectangleAt_def boxAt_def moveX_def jsub_def round64_whole)
  have a: "axisOf AxisX (rectangleAt (Some 1) ''hero'' 0 0 5 5) \<noteq> NaN"
    and g: "axisOf AxisX (rectangleAt (Some 1) ''hero'' 20 0 5 5) \<noteq> NaN"
    and a0: "axisOf AxisX (rectangleAt (Some 1) ''hero'' 0 0 5 5) = Fin 0"
    by (simp_all add: rectangleAt_def)
  from findMinShapeMovementCollision_within_travel
         [OF a g, of overlapShapes "[rectangleAt (Some 2) ''wall'' 8 0 10 5]"] occ
  have "position ?cd = Fin 0" "deltaMovement ?cd = jabs (jsub (position ?cd) (Fin 0))"
    using fp a0 by simp_all
  then show ?thesis using occ contact by (simp add: jsub_def round64_whole)
qed

text \<open>
  Claim C1, as the code has it. A rectangle travels along \<open>x\<close> from \<open>a\<close> to \<open>g\<close>. Among the
  candidates is a rectangle that the shape, moved to its goal, intersects, and whose contact
  position \<open>that.x - direction * (that.halfWidth + this.halfWidth)\<close>, as the binary64
  arithmetic of the source evaluates it, is the number \<open>p\<close> between the start (inclusive) and
  the goal (exclusive); no candidate has an earlier contact. Then the record reports a
  collision at exactly \<open>p\<close>, which is not the goal, with the direction of travel and the
  distance \<open>\<bar>p - a\<bar>\<close> as the rounding subtraction gives it. The assignment of
  \<open>resolveCollisionPosition\<close> moves an entity from its previous coordinate \<open>e\<close> to
  \<open>e + deltaMovement * direction\<close>, again in rounded arithmetic: that is \<open>e + (p - a)\<close>, the
  contact position \<open>p\<close> itself for \<open>e = a\<close>, whenever the subtraction \<open>p - a\<close> and the
  addition are exact, as they are for whole numbers below \<open>2 ^ 53\<close>. For a body of this one
  shape the record is also the one \<open>findMinAxisMovement\<close> returns.
\<close>

theorem earliest_contact_rectangle:
  assumes rect: "type prevShape = Rectangle" "type that = Rectangle"
    and pos: "x prevShape = Fin a" "x currentShape = Fin g"
    and cand: "that \<in> set pcs" "collides (moveX (Fin g) prevShape) that"
    and p: "jsub (x that)
              (jmul (Fin (if a < g then 1 else - 1))
                 (jadd (halfWidth (aABB that)) (halfWidth (aABB prevShape)))) = Fin p"
    and near: "if a < g then a \<le> p \<and> p < g else g < p \<and> p \<le> a"
    and first: "\<forall>c \<in> set pcs. noCloser collides AxisX a g p (moveX (Fin g) prevShape) c"
  shows "occurred (findMinShapeMovementCollision collides prevShape currentShape AxisX pcs) \<and>
         position (findMinShapeMovementCollision collides prevShape currentShape AxisX pcs) = Fin p \<and>
         position (findMinShapeMovementCollision collides prevShape currentShape AxisX pcs) \<noteq> Fin g \<and>
         direction (findMinShapeMovementCollision collides prevShape currentShape AxisX pcs)
           = Fin (if a < g then 1 else - 1) \<and>
         deltaMovement (findMinShapeMovementCollision collides prevShape currentShape AxisX pcs)
           = jabs (jsub (Fin p) (Fin a)) \<and>
         settledPosition (Fin e)
           (findMinShapeMovementCollision collides prevShape currentShape AxisX pcs)
           = jadd (Fin e) (jmul (jabs (jsub (Fin p) (Fin a))) (Fin (if a < g then 1 else - 1))) \<and>
         (jsub (Fin p) (Fin a) = Fin (p - a) \<and> jadd (Fin e) (Fin (p - a)) = Fin (e + (p - a)) \<longrightarrow>
            settledPosition (Fin e)
              (findMinShapeMovementCollision collides prevShape currentShape AxisX pcs)
              = Fin (e + (p - a))) \<and>
         (a \<in> \<int> \<and> p \<in> \<int> \<and> e \<in> \<int> \<and> \<bar>p - a\<bar> < 2 ^ 53 \<and> \<bar>e + (p - a)\<bar> < 2 ^ 53 \<longrightarrow>
            settledPosition (Fin e)
              (findMinShapeMovementCollision collides prevShape currentShape AxisX pcs)
              = Fin (e + (p - a))) \<and>
         findMinAxisMovement collides AxisX [prevShape] [currentShape] pcs
           = Inr (findMinShapeMovementCollision collides prevShape currentShape AxisX pcs)"
proof -
  let ?tr = "moveX (Fin g) prevShape"
  let ?dir = "travelDirection (Fin a) (Fin g)"
  let ?cd = "findMinShapeMovementCollision collides prevShape currentShape AxisX pcs"
  have ne: "a \<noteq> g" and lo: "min a g \<le> p" and hi: "p \<le> max a g" and pg: "p \<noteq> g"
    using near by (auto split: if_splits)
  have dir: "?dir = Fin (if a < g then 1 else - 1)"
    by (simp add: travelDirection_def)
  have "fst (findAxisCollisionPosition AxisX (type ?tr) (type that) ?dir ?tr that) = Fin p"
    using rect p by (simp add: moveX_def dir)
  then have ex: "\<exists>c \<in> set (rev pcs). collides ?tr c \<and>
            fst (findAxisCollisionPosition AxisX (type ?tr) (type c) ?dir ?tr c) = Fin p"
    using cand by auto
  have inv: "contactInv a g p (Fin g, CollisionData_setUp)"
    using near pg by (auto simp: contactInv_def earlier_def jgt_def split: if_splits)
  have "contactRecord a g p
          (snd (candidateLoop collides AxisX ?dir (Fin a) currentShape ?tr (rev pcs)
                 (Fin g, CollisionData_setUp)))"
    by (rule candidateLoop_contact [OF inv ne lo hi]) (use first ex in auto)
  then have cr: "contactRecord a g p ?cd"
    using pos ne by (simp add: findMinShapeMovementCollision_def resolveAlongAxis_def jeq_def Let_def)
  have best: "findMinAxisMovement collides AxisX [prevShape] [currentShape] pcs = Inr ?cd"
    using cr by (simp add: findMinAxisMovement_def contactRecord_def CollisionData_setUp_def Let_def)
  have occ: "occurred ?cd" and at: "position ?cd = Fin p"
    and dr: "direction ?cd = Fin (if a < g then 1 else - 1)"
    and dm: "deltaMovement ?cd = jabs (jsub (Fin p) (Fin a))"
    using cr dir by (simp_all add: contactRecord_def)
  have settled: "settledPosition (Fin e) ?cd
           = jadd (Fin e) (jmul (jabs (jsub (Fin p) (Fin a))) (Fin (if a < g then 1 else - 1)))"
    by (simp add: settledPosition_def dr dm)
  have exact: "settledPosition (Fin e) ?cd = Fin (e + (p - a))"
    if sub: "jsub (Fin p) (Fin a) = Fin (p - a)" and add: "jadd (Fin e) (Fin (p - a)) = Fin (e + (p - a))"
  proof -
    have r: "round64 (p - a) = Fin (p - a)"
      using sub by (simp add: jsub_def)
    have "\<bar>p - a\<bar> * (if a < g then 1 else - 1) = p - a"
      using near by (auto split: if_splits)
    hence "jmul (jabs (jsub (Fin p) (Fin a))) (Fin (if a < g then 1 else - 1)) = Fin (p - a)"
      using r by (simp add: sub)
    thus ?thesis
      using add by (simp add: settled)
  qed
  have whole: "settledPosition (Fin e) ?cd = Fin (e + (p - a))"
    if "a \<in> \<int>" "p \<in> \<int>" "e \<in> \<int>" "\<bar>p - a\<bar> < 2 ^ 53" "\<bar>e + (p - a)\<bar> < 2 ^ 53"
  proof (rule exact)
    show "jsub (Fin p) (Fin a) = Fin (p - a)"
      using that round64_whole_number [of "p - a"] by (simp add: jsub_def)
    show "jadd (Fin e) (Fin (p - a)) = Fin (e + (p - a))"
      using that round64_whole_number [of "e + (p - a)"] by simp
  qed
  show ?thesis
    using occ at pg dr dm settled exact whole best by simp
qed

text \<open>
  A run of C1, the scenario of the specification: a body of width 10 moves from 0 to 20,
  a wall of width 10 stands at 15 and another at 24. The body settles at 5.
\<close>

theorem earliest_contact_rectangle_witness:
  "position (findMinShapeMovementCollision overlapShapes (rectangleAt (Some 1) ''hero'' 0 0 5 5)
       (rectangleAt (Some 1) ''hero'' 20 0 5 5) AxisX
       [rectangleAt (Some 3) ''wall'' 24 0 5 5, rectangleAt (Some 2) ''wall'' 15 0 5 5]) = Fin 5 \<and>
   deltaMovement (findMinShapeMovementCollision overlapShapes (rectangleAt (Some 1) ''hero'' 0 0 5 5)
       (rectangleAt (Some 1) ''hero'' 20 0 5 5) AxisX
       [rectangleAt (Some 3) ''wall'' 24 0 5 5, rectangleAt (Some 2) ''wall'' 15 0 5 5]) = Fin 5 \<and>
   settledPosition (Fin 0) (findMinShapeMovementCollision overlapShapes (rectangleAt (Some 1) ''hero'' 0 0 5 5)
       (rectangleAt (Some 1) ''hero'' 20 0 5 5) AxisX
       [rectangleAt (Some 3) ''wall'' 24 0 5 5, rectangleAt (Some 2) ''wall'' 15 0 5 5]) = Fin 5"
  using earliest_contact_rectangle
    [where prevShape = "rectangleAt (Some 1) ''hero'' 0 0 5 5"
       and currentShape = "rectangleAt (Some 1) ''hero'' 20 0 5 5"
       and that = "rectangleAt (Some 2) ''wall'' 15 0 5 5"
       and pcs = "[rectangleAt (Some 3) ''wall'' 24 0 5 5, rectangleAt (Some 2) ''wall'' 15 0 5 5]"
       and collides = overlapShapes and a = 0 and g = 20 and p = 5 and e = 0]
  by (simp add: rectangleAt_def boxAt_def overlapShapes_def overlapAABB_def moveX_def noCloser_def
        earlier_def travelDirection_def jsub_def round64_whole)

text \<open>
  Claim C1 as stated fails in two ways. First, for a rectangle the moved shape has passed:
  only candidates that the shape intersects at its goal position are resolved against. A
  body of width 10 moves from 0 to 100 and a wall of width 10 stands at 15, so the contact
  position 5 lies well within the movement; at the goal the body no longer touches the
  wall, no collision is recorded and the position stays the goal.

  Second, by rounding, even where the moved shape intersects the wall. A body of width 10
  moves from \<open>startX\<close> to \<open>goalX\<close> and a wall of width 10 stands at \<open>wallX\<close>. The contact
  position \<open>contactX\<close> lies between the start and the goal and the record carries it, but
  its \<open>deltaMovement\<close> is the rounded difference \<open>travelX\<close>, and the start plus \<open>travelX\<close>
  rounds to the goal: the body settles at the goal and not at the contact position.
\<close>

theorem settles_at_contact_counterexample:
  "fst (findAxisCollisionPosition AxisX Rectangle Rectangle (Fin 1)
          (moveX (Fin 100) (rectangleAt (Some 1) ''hero'' 0 0 5 5))
          (rectangleAt (Some 2) ''wall'' 15 0 5 5)) = Fin 5 \<and>
   \<not> overlapShapes (moveX (Fin 100) (rectangleAt (Some 1) ''hero'' 0 0 5 5))
       (rectangleAt (Some 2) ''wall'' 15 0 5 5) \<and>
   \<not> occurred (findMinShapeMovementCollision overlapShapes (rectangleAt (Some 1) ''hero'' 0 0 5 5)
       (rectangleAt (Some 1) ''hero'' 100 0 5 5) AxisX [rectangleAt (Some 2) ''wall'' 15 0 5 5]) \<and>
   fst (resolveAlongAxis overlapShapes (rectangleAt (Some 1) ''hero'' 0 0 5 5)
       (rectangleAt (Some 1) ''hero'' 100 0 5 5) AxisX [rectangleAt (Some 2) ''wall'' 15 0 5 5])
     = Fin 100 \<and>
   overlapShapes (moveX (Fin goalX) (rectangleAt (Some 1) ''hero'' startX 0 5 5))
       (rectangleAt (Some 2) ''wall'' wallX 0 5 5) \<and>
   fst (findAxisCollisionPosition AxisX Rectangle Rectangle (Fin 1)
          (moveX (Fin goalX) (rectangleAt (Some 1) ''hero'' startX 0 5 5))
          (rectangleAt (Some 2) ''wall'' wallX 0 5 5)) = Fin contactX \<and>
   startX \<le> contactX \<and> contactX < goalX \<and>
   occurred (findMinShapeMovementCollision overlapShapes (rectangleAt (Some 1) ''hero'' startX 0 5 5)
       (rectangleAt (Some 1) ''hero'' goalX 0 5 5) AxisX [rectangleAt (Some 2) ''wall'' wallX 0 5 5]) \<and>
   position (findMinShapeMovementCollision overlapShapes (rectangleAt (Some 1) ''hero'' startX 0 5 5)
       (rectangleAt (Some 1) ''hero'' goalX 0 5 5) AxisX [rectangleAt (Some 2) ''wall'' wallX 0 5 5])
     = Fin contactX \<and>
   deltaMovement (findMinShapeMovementCollision overlapShapes (rectangleAt (Some 1) ''hero'' startX 0 5 5)
       (rectangleAt (Some 1) ''hero'' goalX 0 5 5) AxisX [rectangleAt (Some 2) ''wall'' wallX 0 5 5])
     = Fin travelX \<and>
   settledPosition (Fin startX)
     (findMinShapeMovementCollision overlapShapes (rectangleAt (Some 1) ''hero'' startX 0 5 5)
       (rectangleAt (Some 1) ''hero'' goalX 0 5 5) AxisX [rectangleAt (Some 2) ''wall'' wallX 0 5 5])
     = Fin goalX \<and>
   Fin goalX \<noteq> Fin contactX"
proof -
  have passed:
    "fst (findAxisCollisionPosition AxisX Rectangle Rectangle (Fin 1)
          (moveX (Fin 100) (rectangleAt (Some 1) ''hero'' 0 0 5 5))
          (rectangleAt (Some 2) ''wall'' 15 0 5 5)) = Fin 5 \<and>
     \<not> overlapShapes (moveX (Fin 100) (rectangleAt (Some 1) ''hero'' 0 0 5 5))
         (rectangleAt (Some 2) ''wall'' 15 0 5 5) \<and>
     \<not> occurred (findMinShapeMovementCollision overlapShapes (rectangleAt (Some 1) ''hero'' 0 0 5 5)
         (rectangleAt (Some 1) ''hero'' 100 0 5 5) AxisX [rectangleAt (Some 2) ''wall'' 15 0 5 5]) \<and>
     fst (resolveAlongAxis overlapShapes (rectangleAt (Some 1) ''hero'' 0 0 5 5)
         (rectangleAt (Some 1) ''hero'' 100 0 5 5) AxisX [rectangleAt (Some 2) ''wall'' 15 0 5 5])
       = Fin 100"
    by (simp add: findMinShapeMovementCollision_def resolveAlongAxis_def candidateStep_def
          rectangleAt_def boxAt_def overlapShapes_def overlapAABB_def moveX_def jeq_def jgt_def
          travelDirection_def jsub_def CollisionData_setUp_def Let_def round64_whole)
  have sum: "jadd (Fin 5) (Fin 5) = Fin 10" "jmul (Fin 1) (Fin 10) = Fin 10"
    by (simp_all add: round64_whole)
  have movedLeft: "jsub (Fin goalX) (Fin 5) = Fin (- 1041457413829427 / 2 ^ 47)"
    unfolding jsub_def goalX_def jneg.simps jadd.simps
    by (subst round64_eval [where k = 2]) (simp_all add: roundEven_def Let_def)
  have movedRight: "jadd (Fin goalX) (Fin 5) = Fin (365917469723853 / 2 ^ 47)"
    unfolding goalX_def jadd.simps
    by (subst round64_eval [where k = 1]) (simp_all add: roundEven_def Let_def)
  have wallLeft: "jsub (Fin wallX) (Fin 5) = Fin (1463669878895411 / 2 ^ 49)"
    unfolding jsub_def wallX_def jneg.simps jadd.simps
    by (subst round64_eval [where k = 1]) (simp_all add: roundEven_def Let_def)
  have wallRight: "jadd (Fin wallX) (Fin 5) = Fin (7093169413108531 / 2 ^ 49)"
    unfolding wallX_def jadd.simps
    by (subst round64_eval [where k = 3]) (simp_all add: roundEven_def Let_def)
  note contact = rounding_run_coordinates(5)
  have travel: "jsub (Fin contactX) (Fin startX) = Fin travelX"
    unfolding jsub_def startX_def contactX_def travelX_def jneg.simps jadd.simps
    by (subst round64_eval [where k = 4]) (simp_all add: roundEven_def Let_def)
  have signed: "\<bar>travelX\<bar> = travelX" "jmul (Fin travelX) (Fin 1) = Fin travelX"
    using round64_dyadic [of 4278419646001971 47] by (simp_all add: travelX_def)
  note settled = rounding_run_coordinates(4)
  have rounded:
    "overlapShapes (moveX (Fin goalX) (rectangleAt (Some 1) ''hero'' startX 0 5 5))
         (rectangleAt (Some 2) ''wall'' wallX 0 5 5) \<and>
     fst (findAxisCollisionPosition AxisX Rectangle Rectangle (Fin 1)
            (moveX (Fin goalX) (rectangleAt (Some 1) ''hero'' startX 0 5 5))
            (rectangleAt (Some 2) ''wall'' wallX 0 5 5)) = Fin contactX \<and>
     startX \<le> contactX \<and> contactX < goalX \<and>
     occurred (findMinShapeMovementCollision overlapShapes (rectangleAt (Some 1) ''hero'' startX 0 5 5)
         (rectangleAt (Some 1) ''hero'' goalX 0 5 5) AxisX [rectangleAt (Some 2) ''wall'' wallX 0 5 5]) \<and>
     position (findMinShapeMovementCollision overlapShapes (rectangleAt (Some 1) ''hero'' startX 0 5 5)
         (rectangleAt (Some 1) ''hero'' goalX 0 5 5) AxisX [rectangleAt (Some 2) ''wall'' wallX 0 5 5])
       = Fin contactX \<and>
     deltaMovement (findMinShapeMovementCollision overlapShapes (rectangleAt (Some 1) ''hero'' startX 0 5 5)
         (rectangleAt (Some 1) ''hero'' goalX 0 5 5) AxisX [rectangleAt (Some 2) ''wall'' wallX 0 5 5])
       = Fin travelX \<and>
     settledPosition (Fin startX)
       (findMinShapeMovementCollision overlapShapes (rectangleAt (Some 1) ''hero'' startX 0 5 5)
         (rectangleAt (Some 1) ''hero'' goalX 0 5 5) AxisX [rectangleAt (Some 2) ''wall'' wallX 0 5 5])
       = Fin goalX \<and>
     Fin goalX \<noteq> Fin contactX"
    apply (simp add: findMinShapeMovementCollision_def resolveAlongAxis_def candidateStep_def
          rectangleAt_def boxAt_def overlapShapes_def overlapAABB_def moveX_def jeq_def jgt_def
          travelDirection_def CollisionData_setUp_def Let_def settledPosition_def cd_set_def
          sum movedLeft movedRight wallLeft wallRight contact travel signed settled
          del: jadd.simps jmul.simps)
    apply (simp add: startX_def goalX_def wallX_def contactX_def travelX_def jsub_def)
    done
  from passed rounded show ?thesis
    by (simp only: simp_thms)
qed

section \<open>Properties of the collision messages\<close>

text \<open>
  Claim C2. For every record of a solid collision whose two shapes have owners, two events
  are triggered, the first on the moving entity and the second on the struck entity. The
  second message carries \<open>x\<close> and \<open>y\<close> negated and the direction vector inverted relative
  to the first, both carry the hit type \<open>solid\<close>, and the collision types in \<open>type\<close> and
  \<open>myType\<close> are swapped.
\<close>

theorem solid_events_symmetric:
  assumes "thisShape messageData = Some this" and "thatShape messageData = Some that"
    and "owner this = Some ent" and "owner that = Some other"
  shows "\<exists>msg m1 m2.
           triggerSolidRecord ax messageData (msg0, evs) =
             Inr (msg, evs @ [\<lparr>target = ent, eventName = ''hit-by-'' @ collisionType that, payload = m1\<rparr>,
                              \<lparr>target = other, eventName = ''hit-by-'' @ collisionType this, payload = m2\<rparr>]) \<and>
           entityM m1 = Some other \<and> entityM m2 = Some ent \<and>
           xM m1 = (case ax of AxisX \<Rightarrow> direction messageData | AxisY \<Rightarrow> Fin 0) \<and>
           yM m1 = (case ax of AxisX \<Rightarrow> Fin 0 | AxisY \<Rightarrow> direction messageData) \<and>
           xM m2 = jneg (xM m1) \<and> yM m2 = jneg (yM m1) \<and>
           directionM m1 = Some (vector messageData) \<and>
           directionM m2 = Some (getInverse (vector messageData)) \<and>
           hitTypeM m1 = Some ''solid'' \<and> hitTypeM m2 = Some ''solid'' \<and>
           typeM m1 = Some (collisionType that) \<and> myTypeM m1 = Some (collisionType this) \<and>
           typeM m2 = myTypeM m1 \<and> myTypeM m2 = typeM m1"
  using assms
  by (simp add: triggerSolidRecord_def triggerCollisionMessages_def triggerEvent_def Let_def)

text \<open>
  A run of C2: the record of the body that hit the wall at 15 while moving right. The body
  hears \<open>hit-by-wall\<close> with \<open>x = 1\<close> and the vector \<open>(1, 0, 0)\<close>, the wall hears
  \<open>hit-by-hero\<close> with \<open>x = -1\<close> and the vector \<open>(-1, 0, 0)\<close>.
\<close>

theorem solid_events_symmetric_witness:
  "\<exists>msg m1 m2.
     triggerSolidRecord AxisX
       (cd_set True (Fin 1) (Fin 5) (Fin 5) (boxAt 15 0 5 5) (rectangleAt (Some 1) ''hero'' 20 0 5 5)
          (rectangleAt (Some 2) ''wall'' 15 0 5 5) (setXYZ (Fin 1) (Fin 0)) (Fin 0))
       (initialTriggerMessage, []) =
       Inr (msg, [\<lparr>target = 1, eventName = ''hit-by-wall'', payload = m1\<rparr>,
                  \<lparr>target = 2, eventName = ''hit-by-hero'', payload = m2\<rparr>]) \<and>
     xM m1 = Fin 1 \<and> xM m2 = Fin (- 1) \<and> yM m1 = Fin 0 \<and> yM m2 = Fin 0 \<and>
     directionM m1 = Some \<lparr>vx = Fin 1, vy = Fin 0, vz = Fin 0\<rparr> \<and>
     directionM m2 = Some \<lparr>vx = Fin (- 1), vy = Fin 0, vz = Fin 0\<rparr> \<and>
     typeM m1 = Some ''wall'' \<and> myTypeM m1 = Some ''hero'' \<and>
     typeM m2 = Some ''hero'' \<and> myTypeM m2 = Some ''wall''"
proof -
  let ?cd = "cd_set True (Fin 1) (Fin 5) (Fin 5) (boxAt 15 0 5 5) (rectangleAt (Some 1) ''hero'' 20 0 5 5)
          (rectangleAt (Some 2) ''wall'' 15 0 5 5) (setXYZ (Fin 1) (Fin 0)) (Fin 0)"
  have h: "thisShape ?cd = Some (rectangleAt (Some 1) ''hero'' 20 0 5 5)"
      "thatShape ?cd = Some (rectangleAt (Some 2) ''wall'' 15 0 5 5)"
      "owner (rectangleAt (Some 1) ''hero'' 20 0 5 5) = Some 1"
      "owner (rectangleAt (Some 2) ''wall'' 15 0 5 5) = Some 2"
    by (simp_all add: cd_set_def rectangleAt_def)
  from solid_events_symmetric [OF h, of AxisX initialTriggerMessage "[]"]
  obtain msg m1 m2 where
    r: "triggerSolidRecord AxisX ?cd (initialTriggerMessage, []) =
          Inr (msg, [] @ [\<lparr>target = 1, eventName = ''hit-by-'' @ collisionType (rectangleAt (Some 2) ''wall'' 15 0 5 5), payload = m1\<rparr>,
                          \<lparr>target = 2, eventName = ''hit-by-'' @ collisionType (rectangleAt (Some 1) ''hero'' 20 0 5 5), payload = m2\<rparr>])"
    and f: "xM m1 = (case AxisX of AxisX \<Rightarrow> direction ?cd | AxisY \<Rightarrow> Fin 0)"
      "yM m1 = (case AxisX of AxisX \<Rightarrow> Fin 0 | AxisY \<Rightarrow> direction ?cd)"
      "xM m2 = jneg (xM m1)" "yM m2 = jneg (yM m1)"
      "directionM m1 = Some (vector ?cd)" "directionM m2 = Some (getInverse (vector ?cd))"
      "typeM m1 = Some (collisionType (rectangleAt (Some 2) ''wall'' 15 0 5 5))"
      "myTypeM m1 = Some (collisionType (rectangleAt (Some 1) ''hero'' 20 0 5 5))"
      "typeM m2 = myTypeM m1" "myTypeM m2 = typeM m1"
    by blast
  show ?thesis
    apply (rule exI [of _ msg], rule exI [of _ m1], rule exI [of _ m2])
    using r f by (simp add: cd_set_def rectangleAt_def setXYZ_def getInverse_def)
qed

section \<open>Properties of the stepping\<close>

lemma smallest_fold_nonneg:
  assumes "\<forall>b \<in> set bs. nonNegative (width b) \<and> nonNegative (height b)"
    and "nonNegative (fst st)" and "nonNegative (snd st)"
  shows "nonNegative (fst (fold (\<lambda>box (sW, sH). (jmin sW (width box), jmin sH (height box))) bs st)) \<and>
         nonNegative (snd (fold (\<lambda>box (sW, sH). (jmin sW (width box), jmin sH (height box))) bs st))"
  using assms
proof (induction bs arbitrary: st)
  case Nil then show ?case by simp
next
  case (Cons b bs)
  obtain sW sH where st: "st = (sW, sH)" by (cases st)
  have "nonNegative (jmin sW (width b))" "nonNegative (jmin sH (height b))"
    using Cons.prems st by (auto simp: jmin_def nonNegative_def)
  then show ?case using Cons.prems st by (simp add: Cons.IH)
qed

lemma smallestDimensions_nonneg:
  assumes "\<forall>b \<in> set boxes. nonNegative (width b) \<and> nonNegative (height b)"
  shows "nonNegative (fst (smallestDimensions boxes))" "nonNegative (snd (smallestDimensions boxes))"
  using smallest_fold_nonneg [of "rev boxes" "(PInf, PInf)"] assms
  by (simp_all add: smallestDimensions_def nonNegative_def)

lemma round64_not_negative: "0 \<le> r \<Longrightarrow> nonNegative (round64 r)"
  using round64_nonneg [of r] by (auto simp: nonNegative_def)

lemma quotient_nonneg:
  assumes "nonNegative s"
  shows "nonNegative (jdiv (jabs d) s)"
proof (cases "\<exists>dr w. d = Fin dr \<and> s = Fin w \<and> w \<noteq> 0")
  case True
  then obtain dr w where dw: "d = Fin dr" "s = Fin w" "w \<noteq> 0"
    by blast
  hence "0 < w"
    using assms by (simp add: nonNegative_def)
  hence "0 \<le> \<bar>dr\<bar> / w"
    by simp
  thus ?thesis
    using dw by (simp add: round64_not_negative)
next
  case False
  thus ?thesis
    using assms by (cases d; cases s) (auto simp: nonNegative_def)
qed

lemma ceil_max_whole:
  assumes "nonNegative a" and "nonNegative b"
  shows "wholeUpTo100 (jmin (jceil (jmax a b)) (Fin 100))"
proof (cases "jmax a b")
  case (Fin q)
  then have q: "0 \<le> q" using assms
    by (cases a; cases b) (auto simp: jmax_def nonNegative_def split: if_splits)
  then have c: "0 \<le> \<lceil>q\<rceil>" by linarith
  show ?thesis
  proof (cases "\<lceil>q\<rceil> \<le> 100")
    case True
    then have "jmin (jceil (jmax a b)) (Fin 100) = Fin (real (nat \<lceil>q\<rceil>))"
      using Fin c by (auto simp: jmin_def)
    moreover have "nat \<lceil>q\<rceil> \<le> 100" using True by linarith
    ultimately show ?thesis unfolding wholeUpTo100_def by blast
  next
    case False
    then have "jmin (jceil (jmax a b)) (Fin 100) = Fin (real (100::nat))"
      using Fin by (auto simp: jmin_def)
    then show ?thesis unfolding wholeUpTo100_def by blast
  qed
next
  case PInf
  then have "jmin (jceil (jmax a b)) (Fin 100) = Fin (real (100::nat))" by (simp add: jmin_def)
  then show ?thesis unfolding wholeUpTo100_def by blast
next
  case NInf
  then show ?thesis using assms
    by (cases a; cases b) (auto simp: jmax_def nonNegative_def split: if_splits)
next
  case NaN
  then show ?thesis by (simp add: jmin_def wholeUpTo100_def)
qed

lemma bulletStepCount_whole:
  assumes "\<forall>b \<in> set boxes. nonNegative (width b) \<and> nonNegative (height b)"
  shows "wholeUpTo100 (bulletStepCount dX dY boxes)"
proof -
  obtain sW sH where s: "smallestDimensions boxes = (sW, sH)" by (cases "smallestDimensions boxes")
  then have "nonNegative sW" "nonNegative sH"
    using smallestDimensions_nonneg [OF assms] by simp_all
  then show ?thesis
    using s by (simp add: bulletStepCount_def uncappedSteps_def ceil_max_whole quotient_nonneg)
qed

lemma steppingLoop_counts:
  "k \<le> 100 \<Longrightarrow> \<exists>s' m. steppingLoop body (Fin (real k)) s n = Some (s', m) \<and> m \<le> n + k"
proof (induction k arbitrary: s n)
  case 0
  show ?case by (subst steppingLoop.simps) simp
next
  case (Suc k)
  obtain s1 blocked where b: "body s = (s1, blocked)" by (cases "body s")
  have "round64 (of_int (int k)) = Fin (of_int (int k))"
    by (rule round64_of_int) (use Suc.prems in simp)
  hence dec: "jsub (Fin (real (Suc k))) (Fin 1) = Fin (real k)"
    by (simp add: jsub_def)
  show ?case
  proof (cases blocked)
    case True
    then show ?thesis using b by (subst steppingLoop.simps) simp
  next
    case False
    from Suc.IH [of s1 "Suc n"] Suc.prems obtain s' m where
      "steppingLoop body (Fin (real k)) s1 (Suc n) = Some (s', m)" "m \<le> Suc n + k" by auto
    then show ?thesis using b False dec
      by (subst steppingLoop.simps) (simp del: of_nat_Suc)
  qed
qed

lemma steppingLoop_bounded:
  assumes "wholeUpTo100 step"
  shows "\<exists>s' m. steppingLoop body step s 0 = Some (s', m) \<and> m \<le> 100"
proof (cases "step = NaN")
  case True
  then show ?thesis by (subst steppingLoop.simps) simp
next
  case False
  then obtain k :: nat where k: "k \<le> 100" "step = Fin (real k)"
    using assms unfolding wholeUpTo100_def by blast
  from steppingLoop_counts [OF k(1), of body s 0] obtain s' m where
    "steppingLoop body (Fin (real k)) s 0 = Some (s', m)" "m \<le> k" by auto
  then show ?thesis using k by auto
qed

lemma jle_jmin: "jle r (jmin a b) \<Longrightarrow> jle r a \<and> jle r b"
  by (cases r; cases a; cases b) (auto simp: jle_def jeq_def jmin_def split: if_splits)

lemma smallest_fold_le:
  fixes st :: "jsnum \<times> jsnum"
  defines "f \<equiv> (\<lambda>box (sW, sH). (jmin sW (width box), jmin sH (height box)))"
  shows "(fst (fold f bs st) \<noteq> NaN \<longrightarrow>
            jle (fst (fold f bs st)) (fst st) \<and> (\<forall>b \<in> set bs. jle (fst (fold f bs st)) (width b))) \<and>
         (snd (fold f bs st) \<noteq> NaN \<longrightarrow>
            jle (snd (fold f bs st)) (snd st) \<and> (\<forall>b \<in> set bs. jle (snd (fold f bs st)) (height b)))"
proof (induction bs arbitrary: st)
  case Nil
  show ?case by (cases "fst st"; cases "snd st") (simp_all add: jle_def jeq_def)
next
  case (Cons b bs)
  obtain sW sH where st: "st = (sW, sH)" by (cases st)
  have step: "fold f (b # bs) st = fold f bs (jmin sW (width b), jmin sH (height b))"
    by (simp add: st f_def)
  show ?case
    unfolding step
    using Cons.IH [of "(jmin sW (width b), jmin sH (height b))"] st
    by (auto dest: jle_jmin)
qed

lemma smallestDimensions_le:
  assumes "b \<in> set boxes"
  shows "fst (smallestDimensions boxes) \<noteq> NaN \<Longrightarrow> jle (fst (smallestDimensions boxes)) (width b)"
    and "snd (smallestDimensions boxes) \<noteq> NaN \<Longrightarrow> jle (snd (smallestDimensions boxes)) (height b)"
  using smallest_fold_le [of "rev boxes" "(PInf, PInf)"] assms
  by (auto simp: smallestDimensions_def)

lemma jmax_Fin:
  assumes "jmax a b = Fin q" and "nonNegative a" and "nonNegative b"
  shows "\<exists>r1 r2. a = Fin r1 \<and> b = Fin r2 \<and> r1 \<le> q \<and> r2 \<le> q"
  using assms by (cases a; cases b) (auto simp: jmax_def nonNegative_def split: if_splits)

lemma quotient_number:
  assumes "jdiv (jabs d) s = Fin r"
  shows "s \<noteq> NaN"
  using assms by (cases "jabs d"; cases s) auto

lemma uncapped_quotients:
  assumes boxes: "\<forall>b \<in> set boxes. nonNegative (width b) \<and> nonNegative (height b)"
    and c: "uncappedSteps dX dY boxes = Fin (real_of_int c)"
  shows "jle (jdiv (jabs dX) (fst (smallestDimensions boxes))) (Fin (real_of_int c)) \<and>
         jle (jdiv (jabs dY) (snd (smallestDimensions boxes))) (Fin (real_of_int c)) \<and>
         (\<forall>b \<in> set boxes. jle (fst (smallestDimensions boxes)) (width b) \<and>
                           jle (snd (smallestDimensions boxes)) (height b))"
proof -
  obtain sW sH where s: "smallestDimensions boxes = (sW, sH)" by (cases "smallestDimensions boxes")
  have nn: "nonNegative sW" "nonNegative sH"
    using smallestDimensions_nonneg [OF boxes] s by simp_all
  have ceil: "jceil (jmax (jdiv (jabs dX) sW) (jdiv (jabs dY) sH)) = Fin (real_of_int c)"
    using c s by (simp add: uncappedSteps_def)
  then obtain q where q: "jmax (jdiv (jabs dX) sW) (jdiv (jabs dY) sH) = Fin q" "\<lceil>q\<rceil> = c"
    by (cases "jmax (jdiv (jabs dX) sW) (jdiv (jabs dY) sH)") auto
  from jmax_Fin [OF q(1) quotient_nonneg [OF nn(1)] quotient_nonneg [OF nn(2)]]
  obtain r1 r2 where r: "jdiv (jabs dX) sW = Fin r1" "jdiv (jabs dY) sH = Fin r2" "r1 \<le> q" "r2 \<le> q"
    by blast
  have qc: "q \<le> real_of_int c" using q(2) by linarith
  have "sW \<noteq> NaN" "sH \<noteq> NaN"
    using r quotient_number by blast+
  then have le: "\<forall>b \<in> set boxes. jle sW (width b) \<and> jle sH (height b)"
    using smallestDimensions_le [of _ boxes] s by auto
  have "jle (Fin r1) (Fin (real_of_int c))" "jle (Fin r2) (Fin (real_of_int c))"
    using r qc by (auto simp: jle_def jeq_def)
  then show ?thesis
    using le r s by simp
qed

lemma quotient_covers:
  assumes "jdiv (Fin \<bar>dx\<bar>) (Fin w) = Fin r" and "r \<le> real_of_int c" and "1 \<le> c"
    and "nonNegative (Fin w)"
  shows "\<bar>dx\<bar> * (1 - 1 / 2 ^ 53) \<le> real_of_int c * w"
proof (cases "dx = 0")
  case True
  then show ?thesis
    using assms(3,4) by (simp add: nonNegative_def)
next
  case False
  have w: "0 < w"
    using assms(1,4) by (auto simp: nonNegative_def split: if_splits)
  have q: "0 < \<bar>dx\<bar> / w"
    using False w by simp
  have r: "round64 (\<bar>dx\<bar> / w) = Fin r"
    using assms(1) w by simp
  have c: "1 \<le> real_of_int c"
    using assms(3) by simp
  from round64_lower [OF r q] show ?thesis
  proof
    assume "\<bar>dx\<bar> / w * (1 - 1 / 2 ^ 53) \<le> r"
    then have "\<bar>dx\<bar> / w * (1 - 1 / 2 ^ 53) \<le> real_of_int c"
      using assms(2) by linarith
    then have "\<bar>dx\<bar> * (1 - 1 / 2 ^ 53) / w \<le> real_of_int c"
      by (simp add: field_simps)
    then show ?thesis
      using w by (simp add: pos_divide_le_eq)
  next
    assume "\<bar>dx\<bar> / w < 1"
    then have "\<bar>dx\<bar> < w"
      using w by (simp add: pos_divide_less_eq)
    moreover have "w \<le> real_of_int c * w"
      using c w by simp
    moreover have "\<bar>dx\<bar> * (1 - 1 / 2 ^ 53) \<le> \<bar>dx\<bar>"
      by (simp add: mult_le_cancel_left1)
    ultimately show ?thesis
      by linarith
  qed
qed

lemma uncapped_covers:
  assumes boxes: "\<forall>b \<in> set boxes. nonNegative (width b) \<and> nonNegative (height b)"
    and c: "uncappedSteps dX dY boxes = Fin (real_of_int c)"
  shows "(\<forall>dx w. 1 \<le> c \<and> dX = Fin dx \<and> fst (smallestDimensions boxes) = Fin w \<longrightarrow>
            \<bar>dx\<bar> * (1 - 1 / 2 ^ 53) \<le> real_of_int c * w) \<and>
         (\<forall>dy h. 1 \<le> c \<and> dY = Fin dy \<and> snd (smallestDimensions boxes) = Fin h \<longrightarrow>
            \<bar>dy\<bar> * (1 - 1 / 2 ^ 53) \<le> real_of_int c * h)"
proof -
  obtain sW sH where s: "smallestDimensions boxes = (sW, sH)" by (cases "smallestDimensions boxes")
  have nn: "nonNegative sW" "nonNegative sH"
    using smallestDimensions_nonneg [OF boxes] s by simp_all
  have ceil: "jceil (jmax (jdiv (jabs dX) sW) (jdiv (jabs dY) sH)) = Fin (real_of_int c)"
    using c s by (simp add: uncappedSteps_def)
  then obtain q where q: "jmax (jdiv (jabs dX) sW) (jdiv (jabs dY) sH) = Fin q" "\<lceil>q\<rceil> = c"
    by (cases "jmax (jdiv (jabs dX) sW) (jdiv (jabs dY) sH)") auto
  from jmax_Fin [OF q(1) quotient_nonneg [OF nn(1)] quotient_nonneg [OF nn(2)]]
  obtain r1 r2 where r: "jdiv (jabs dX) sW = Fin r1" "jdiv (jabs dY) sH = Fin r2" "r1 \<le> q" "r2 \<le> q"
    by blast
  have qc: "q \<le> real_of_int c" using q(2) by linarith
  have "\<bar>dx\<bar> * (1 - 1 / 2 ^ 53) \<le> real_of_int c * w"
    if "1 \<le> c" "dX = Fin dx" "sW = Fin w" for dx w
    using quotient_covers [of dx w r1 c] r(1,3) qc nn(1) that by simp
  moreover have "\<bar>dy\<bar> * (1 - 1 / 2 ^ 53) \<le> real_of_int c * h"
    if "1 \<le> c" "dY = Fin dy" "sH = Fin h" for dy h
    using quotient_covers [of dy h r2 c] r(2,4) qc nn(2) that by simp
  ultimately show ?thesis
    using s by simp
qed

text \<open>
  Claim C3, as the code has it. The widths and heights that size the steps are those of the
  moving body's own boxes, one per collision type of the body. If none of them is negative
  then, for all deltas: the step count \<open>N\<close> is \<open>NaN\<close> or a whole number from 0 to 100; the
  stepping returns after at most 100 rounds, whatever a round does; and when the count before
  the cap is a whole number up to 100, \<open>N\<close> is that number and is not below either quotient
  \<open>\<bar>dX\<bar> / sW\<close> and \<open>\<bar>dY\<bar> / sH\<close> as the rounding division gives them, where \<open>sW\<close> and \<open>sH\<close>
  exceed the width and height of none of the body's boxes. So \<open>N\<close> steps of the length
  \<open>sW\<close> cover the delta but for the rounding of the quotient:
  \<open>\<bar>dX\<bar> * (1 - 1 / 2 ^ 53) \<le> N * sW\<close> for \<open>N\<close> from 1, and the same for \<open>dY\<close> and \<open>sH\<close>.
\<close>

theorem bullet_stepping_bounded:
  assumes "\<forall>b \<in> set boxes. nonNegative (width b) \<and> nonNegative (height b)"
  shows "wholeUpTo100 (bulletStepCount dX dY boxes) \<and>
         (\<exists>s' m. solidStepping bullet body dX dY boxes s = Some (s', m) \<and> m \<le> 100) \<and>
         (\<forall>c. uncappedSteps dX dY boxes = Fin (real_of_int c) \<and> c \<le> 100 \<longrightarrow>
              bulletStepCount dX dY boxes = Fin (real_of_int c) \<and>
              jle (jdiv (jabs dX) (fst (smallestDimensions boxes))) (Fin (real_of_int c)) \<and>
              jle (jdiv (jabs dY) (snd (smallestDimensions boxes))) (Fin (real_of_int c)) \<and>
              (\<forall>b \<in> set boxes. jle (fst (smallestDimensions boxes)) (width b) \<and>
                                jle (snd (smallestDimensions boxes)) (height b)) \<and>
              (\<forall>dx w. 1 \<le> c \<and> dX = Fin dx \<and> fst (smallestDimensions boxes) = Fin w \<longrightarrow>
                  \<bar>dx\<bar> * (1 - 1 / 2 ^ 53) \<le> real_of_int c * w) \<and>
              (\<forall>dy h. 1 \<le> c \<and> dY = Fin dy \<and> snd (smallestDimensions boxes) = Fin h \<longrightarrow>
                  \<bar>dy\<bar> * (1 - 1 / 2 ^ 53) \<le> real_of_int c * h))"
proof (intro conjI allI impI)
  show whole: "wholeUpTo100 (bulletStepCount dX dY boxes)"
    by (rule bulletStepCount_whole [OF assms])
  show "\<exists>s' m. solidStepping bullet body dX dY boxes s = Some (s', m) \<and> m \<le> 100"
    using steppingLoop_bounded [OF whole,
        of "body (jdiv dX (bulletStepCount dX dY boxes)) (jdiv dY (bulletStepCount dX dY boxes))" s]
    by (simp add: solidStepping_def bulletStepping_def Let_def)
next
  fix c
  assume c: "uncappedSteps dX dY boxes = Fin (real_of_int c) \<and> c \<le> 100"
  then show "bulletStepCount dX dY boxes = Fin (real_of_int c)"
    by (simp add: bulletStepCount_def jmin_def)
  from c have u: "uncappedSteps dX dY boxes = Fin (real_of_int c)"
    by simp
  show "jle (jdiv (jabs dX) (fst (smallestDimensions boxes))) (Fin (real_of_int c))"
    using uncapped_quotients [OF assms u] by simp
  show "jle (jdiv (jabs dY) (snd (smallestDimensions boxes))) (Fin (real_of_int c))"
    using uncapped_quotients [OF assms u] by simp
  show "\<forall>b \<in> set boxes. jle (fst (smallestDimensions boxes)) (width b) \<and>
                          jle (snd (smallestDimensions boxes)) (height b)"
    using uncapped_quotients [OF assms u] by simp
  show "\<bar>dx\<bar> * (1 - 1 / 2 ^ 53) \<le> real_of_int c * w"
    if "1 \<le> c \<and> dX = Fin dx \<and> fst (smallestDimensions boxes) = Fin w" for dx w
    using uncapped_covers [OF assms u] that by blast
  show "\<bar>dy\<bar> * (1 - 1 / 2 ^ 53) \<le> real_of_int c * h"
    if "1 \<le> c \<and> dY = Fin dy \<and> snd (smallestDimensions boxes) = Fin h" for dy h
    using uncapped_covers [OF assms u] that by blast
qed

text \<open>
  Two runs of C3. A body 10 wide moves by 25; the quotient is 2.5, which takes 3 steps. A
  body \<open>bulletWidth\<close> wide moves by \<open>bulletDeltaX\<close>; the rounded quotient is 17, and 17
  widths fall short of the delta by less than its fraction \<open>1 / 2 ^ 53\<close>.
\<close>

theorem bullet_stepping_bounded_witness:
  "bulletStepCount (Fin 25) (Fin 0) [boxAt 0 0 5 5] = Fin 3 \<and>
   jdiv (jabs (Fin 25)) (fst (smallestDimensions [boxAt 0 0 5 5])) = Fin (5 / 2) \<and>
   jle (jdiv (jabs (Fin 25)) (fst (smallestDimensions [boxAt 0 0 5 5]))) (Fin 3) \<and>
   (\<exists>s' m. solidStepping True (\<lambda>dx dy s. (Suc s, False)) (Fin 25) (Fin 0) [boxAt 0 0 5 5] 0
             = Some (s', m) \<and> m \<le> 100) \<and>
   bulletStepCount (Fin bulletDeltaX) (Fin 0) [boxAt 0 0 (bulletWidth / 2) 5] = Fin 17 \<and>
   \<bar>bulletDeltaX\<bar> * (1 - 1 / 2 ^ 53) \<le> 17 * bulletWidth"
proof -
  have boxes: "\<forall>b \<in> set [boxAt 0 0 5 5]. nonNegative (width b) \<and> nonNegative (height b)"
    by (simp add: boxAt_def jsub_def nonNegative_def)
  have half: "round64 (5 / 2) = Fin (5 / 2)"
    using round64_dyadic [of 5 1] by simp
  have q: "jdiv (jabs (Fin 25)) (fst (smallestDimensions [boxAt 0 0 5 5])) = Fin (5 / 2)"
    by (simp add: smallestDimensions_def boxAt_def jsub_def jmin_def half)
  have u: "uncappedSteps (Fin 25) (Fin 0) [boxAt 0 0 5 5] = Fin (real_of_int 3)"
    by (simp add: uncappedSteps_def smallestDimensions_def boxAt_def jsub_def jmin_def jmax_def half
          round64_whole)
  from bullet_stepping_bounded [OF boxes, of "Fin 25" "Fin 0" True "\<lambda>dx dy s. (Suc s, False)" 0] u q
  have whole: "bulletStepCount (Fin 25) (Fin 0) [boxAt 0 0 5 5] = Fin 3 \<and>
     jdiv (jabs (Fin 25)) (fst (smallestDimensions [boxAt 0 0 5 5])) = Fin (5 / 2) \<and>
     jle (jdiv (jabs (Fin 25)) (fst (smallestDimensions [boxAt 0 0 5 5]))) (Fin 3) \<and>
     (\<exists>s' m. solidStepping True (\<lambda>dx dy s. (Suc s, False)) (Fin 25) (Fin 0) [boxAt 0 0 5 5] 0
               = Some (s', m) \<and> m \<le> 100)"
    by simp
  have wide: "jmul (Fin 2) (Fin (bulletWidth / 2)) = Fin bulletWidth"
    using round64_dyadic [of 2871044762448691 48] by (simp add: bulletWidth_def)
  have quotient: "jdiv (Fin bulletDeltaX) (Fin bulletWidth) = Fin 17"
    unfolding bulletDeltaX_def bulletWidth_def jdiv.simps
    by (simp, subst round64_eval [where k = 4]) (simp_all add: roundEven_def Let_def)
  have positive: "\<bar>bulletDeltaX\<bar> = bulletDeltaX"
    by (simp add: bulletDeltaX_def)
  have smallest: "fst (smallestDimensions [boxAt 0 0 (bulletWidth / 2) 5]) = Fin bulletWidth"
    by (simp add: smallestDimensions_def boxAt_def jmin_def wide del: jmul.simps)
  have rboxes: "\<forall>b \<in> set [boxAt 0 0 (bulletWidth / 2) 5].
                  nonNegative (width b) \<and> nonNegative (height b)"
    by (simp add: boxAt_def wide del: jmul.simps) (simp add: nonNegative_def bulletWidth_def)
  have ru: "uncappedSteps (Fin bulletDeltaX) (Fin 0) [boxAt 0 0 (bulletWidth / 2) 5]
              = Fin (real_of_int 17)"
    by (simp add: uncappedSteps_def smallestDimensions_def boxAt_def
          jmin_def jmax_def positive quotient wide del: jdiv.simps jmul.simps)
       simp
  from bullet_stepping_bounded
         [OF rboxes, of "Fin bulletDeltaX" "Fin 0" True "\<lambda>dx dy s. (Suc s, False)" 0,
          THEN conjunct2, THEN conjunct2, rule_format, of 17] ru smallest
  have "bulletStepCount (Fin bulletDeltaX) (Fin 0) [boxAt 0 0 (bulletWidth / 2) 5] = Fin 17 \<and>
     \<bar>bulletDeltaX\<bar> * (1 - 1 / 2 ^ 53) \<le> 17 * bulletWidth"
    by simp
  with whole show ?thesis
    by blast
qed

text \<open>
  Claim C3 as stated fails: the step is not sized by the colliding partner. A body 10 wide
  that moves by 5 takes one step of 5, which exceeds the width 1 of a partner in its way: the
  partner's box is not an input of the step count. Where the cap applies the step
  exceeds the body's own size as well: a body 1 wide that moves by 1000 takes 100 steps of
  10. And so it does by rounding below the cap: for a body \<open>bulletWidth\<close> wide that moves by
  \<open>bulletDeltaX\<close> the exact quotient is above 17, the rounded quotient is 17, and each of the
  17 steps is longer than \<open>bulletWidth\<close>.
\<close>

theorem step_exceeds_partner_counterexample:
  "bulletStepCount (Fin 5) (Fin 0) [boxAt 0 0 5 5] = Fin 1 \<and>
   jgt (jabs (jdiv (Fin 5) (bulletStepCount (Fin 5) (Fin 0) [boxAt 0 0 5 5])))
       (width (boxAt 15 0 (1 / 2) 5)) \<and>
   bulletStepCount (Fin 1000) (Fin 0) [boxAt 0 0 (1 / 2) 5] = Fin 100 \<and>
   jgt (jabs (jdiv (Fin 1000) (bulletStepCount (Fin 1000) (Fin 0) [boxAt 0 0 (1 / 2) 5])))
       (width (boxAt 0 0 (1 / 2) 5)) \<and>
   width (boxAt 0 0 (bulletWidth / 2) 5) = Fin bulletWidth \<and>
   17 < bulletDeltaX / bulletWidth \<and>
   bulletStepCount (Fin bulletDeltaX) (Fin 0) [boxAt 0 0 (bulletWidth / 2) 5] = Fin 17 \<and>
   jgt (jabs (jdiv (Fin bulletDeltaX)
                (bulletStepCount (Fin bulletDeltaX) (Fin 0) [boxAt 0 0 (bulletWidth / 2) 5])))
       (width (boxAt 0 0 (bulletWidth / 2) 5))"
proof -
  have ceil: "\<lceil>1 / 2 :: real\<rceil> = 1"
    by (rule ceiling_unique) simp_all
  have half: "round64 (1 / 2) = Fin (1 / 2)"
    using round64_dyadic [of 1 1] by simp
  have partner:
    "bulletStepCount (Fin 5) (Fin 0) [boxAt 0 0 5 5] = Fin 1 \<and>
     jgt (jabs (jdiv (Fin 5) (bulletStepCount (Fin 5) (Fin 0) [boxAt 0 0 5 5])))
         (width (boxAt 15 0 (1 / 2) 5)) \<and>
     bulletStepCount (Fin 1000) (Fin 0) [boxAt 0 0 (1 / 2) 5] = Fin 100 \<and>
     jgt (jabs (jdiv (Fin 1000) (bulletStepCount (Fin 1000) (Fin 0) [boxAt 0 0 (1 / 2) 5])))
         (width (boxAt 0 0 (1 / 2) 5))"
    using ceil
    by (simp add: bulletStepCount_def uncappedSteps_def smallestDimensions_def boxAt_def jsub_def jmin_def
          jmax_def jgt_def half round64_whole)
  have quotient: "jdiv (Fin bulletDeltaX) (Fin bulletWidth) = Fin 17"
    unfolding bulletDeltaX_def bulletWidth_def jdiv.simps
    by (simp, subst round64_eval [where k = 4]) (simp_all add: roundEven_def Let_def)
  have substep: "jdiv (Fin bulletDeltaX) (Fin 17) = Fin (5742089524897383 / 2 ^ 49)"
    unfolding bulletDeltaX_def jdiv.simps
    by (simp, subst round64_eval [where k = 3]) (simp_all add: roundEven_def Let_def)
  have positive: "\<bar>bulletDeltaX\<bar> = bulletDeltaX"
    by (simp add: bulletDeltaX_def)
  have wide: "jmul (Fin 2) (Fin (bulletWidth / 2)) = Fin bulletWidth"
    using round64_dyadic [of 2871044762448691 48] by (simp add: bulletWidth_def)
  have count: "bulletStepCount (Fin bulletDeltaX) (Fin 0) [boxAt 0 0 (bulletWidth / 2) 5] = Fin 17"
    by (simp add: bulletStepCount_def uncappedSteps_def smallestDimensions_def boxAt_def
          jmin_def jmax_def positive quotient wide del: jdiv.simps jmul.simps)
       simp
  have rounded:
    "width (boxAt 0 0 (bulletWidth / 2) 5) = Fin bulletWidth \<and>
     17 < bulletDeltaX / bulletWidth \<and>
     bulletStepCount (Fin bulletDeltaX) (Fin 0) [boxAt 0 0 (bulletWidth / 2) 5] = Fin 17 \<and>
     jgt (jabs (jdiv (Fin bulletDeltaX)
                  (bulletStepCount (Fin bulletDeltaX) (Fin 0) [boxAt 0 0 (bulletWidth / 2) 5])))
         (width (boxAt 0 0 (bulletWidth / 2) 5))"
    unfolding count substep
    by (simp add: boxAt_def wide del: jmul.simps) (simp add: jgt_def bulletDeltaX_def bulletWidth_def)
  from partner rounded show ?thesis
    by blast
qed

section \<open>Properties of the candidate gathering\<close>

lemma includeEntity_excluded:
  assumes "jumpThroughExcluded thisEntity box otherEntity otherAABB"
  shows "\<not> includeEntity aabbCollides thisEntity box otherEntity otherAABB ignoredEntities sweepAABB"
  using assms by (auto simp: includeEntity_def jumpThroughExcluded_def)

lemma gatherShapes_sources:
  assumes "s \<in> set (fst (gatherShapes aabbCollides ent box ignored sweep t others st))"
  shows "s \<in> set (fst st) \<or>
         (\<exists>other \<in> set others. s \<in> set (getShapes other t) \<and>
            \<not> jumpThroughExcluded ent box other (getAABB other t))"
  using assms
proof (induction others arbitrary: st)
  case Nil
  then show ?case by simp
next
  case (Cons other others)
  let ?st = "if includeEntity aabbCollides ent box other (getAABB other t) ignored sweep
             then (fst st @ rev (getShapes other t), True) else st"
  from Cons.prems have "s \<in> set (fst (gatherShapes aabbCollides ent box ignored sweep t others ?st))"
    by simp
  from Cons.IH [OF this]
  show ?case
    using includeEntity_excluded [of ent box other "getAABB other t" aabbCollides ignored sweep]
    by (auto split: if_splits)
qed

lemma candidateStep_thatShape:
  assumes "occurred (snd st) \<longrightarrow> (\<exists>s \<in> S. thatShape (snd st) = Some s)"
    and "pc \<in> S"
  shows "occurred (snd (candidateStep collides ax dir a cur tr pc st)) \<longrightarrow>
         (\<exists>s \<in> S. thatShape (snd (candidateStep collides ax dir a cur tr pc st)) = Some s)"
  using assms by (auto simp: candidateStep_def Let_def cd_set_def)

lemma candidateLoop_thatShape:
  assumes "occurred (snd st) \<longrightarrow> (\<exists>s \<in> S. thatShape (snd st) = Some s)"
    and "set pcs \<subseteq> S"
  shows "occurred (snd (candidateLoop collides ax dir a cur tr pcs st)) \<longrightarrow>
         (\<exists>s \<in> S. thatShape (snd (candidateLoop collides ax dir a cur tr pcs st)) = Some s)"
  using assms
proof (induction pcs arbitrary: st)
  case Nil
  then show ?case by simp
next
  case (Cons pc pcs)
  have "occurred (snd (candidateStep collides ax dir a cur tr pc st)) \<longrightarrow>
         (\<exists>s \<in> S. thatShape (snd (candidateStep collides ax dir a cur tr pc st)) = Some s)"
    using Cons.prems by (intro candidateStep_thatShape) auto
  from Cons.IH [OF this] Cons.prems show ?case by simp
qed

lemma findMinShapeMovementCollision_thatShape:
  assumes "occurred (findMinShapeMovementCollision collides prevShape currentShape ax pcs)"
  shows "\<exists>s \<in> set pcs. thatShape (findMinShapeMovementCollision collides prevShape currentShape ax pcs) = Some s"
proof -
  have init: "occurred (snd (g, CollisionData_setUp)) \<longrightarrow>
              (\<exists>s \<in> set pcs. thatShape (snd (g, CollisionData_setUp)) = Some s)" for g :: jsnum
    by (simp add: CollisionData_setUp_def)
  show ?thesis
    using assms candidateLoop_thatShape [OF init, of "rev pcs"]
    by (auto simp: findMinShapeMovementCollision_def resolveAlongAxis_def Let_def
                   CollisionData_setUp_def split: if_splits)
qed


lemma gatherTypes_sources:
  assumes "s \<in> set (fst (gatherTypes aabbCollides ent box ignored sweep found terrain ts st))"
  shows "s \<in> set (fst st) \<or>
         (\<exists>t \<in> set ts. \<exists>tiles. found t = None \<and> terrain = Some tiles \<and> s \<in> set (tiles t)) \<or>
         (\<exists>t \<in> set ts. \<exists>others. found t = Some others \<and>
            (\<exists>other \<in> set others. s \<in> set (getShapes other t) \<and>
               \<not> jumpThroughExcluded ent box other (getAABB other t)))"
  using assms
proof (induction ts arbitrary: st)
  case Nil
  then show ?case by simp
next
  case (Cons t ts)
  let ?st = "case found t of
          Some otherEntities \<Rightarrow> gatherShapes aabbCollides ent box ignored sweep t otherEntities st
        | None \<Rightarrow> (case terrain of
               Some getTileShapes \<Rightarrow> (fst st @ rev (getTileShapes t), snd st \<or> getTileShapes t \<noteq> [])
             | None \<Rightarrow> st)"
  from Cons.prems have "s \<in> set (fst (gatherTypes aabbCollides ent box ignored sweep found terrain ts ?st))"
    by simp
  from Cons.IH [OF this]
  consider "s \<in> set (fst ?st)"
    | "\<exists>t \<in> set ts. \<exists>tiles. found t = None \<and> terrain = Some tiles \<and> s \<in> set (tiles t)"
    | "\<exists>t \<in> set ts. \<exists>others. found t = Some others \<and>
            (\<exists>other \<in> set others. s \<in> set (getShapes other t) \<and>
               \<not> jumpThroughExcluded ent box other (getAABB other t))"
    by blast
  then show ?case
  proof cases
    case 1
    show ?thesis
    proof (cases "found t")
      case None
      then show ?thesis using 1 by (cases terrain) auto
    next
      case (Some others)
      then have "s \<in> set (fst (gatherShapes aabbCollides ent box ignored sweep t others st))"
        using 1 by simp
      from gatherShapes_sources [OF this] Some show ?thesis by auto
    qed
  next
    case 2
    then show ?thesis by auto
  next
    case 3
    then show ?thesis by auto
  qed
qed

text \<open>
  Claim C10. A candidate for which one of the two jump-through conditions holds (the
  candidate is flagged and the previous box of the moving body reaches below the candidate's
  top, or the moving body is flagged and the candidate's box reaches below the top of the
  body's previous box) is not included, whatever the swept box and the box intersection
  test say, and the loop over the candidates passes it without pushing a shape. So every
  shape gathered for a collision type of the body is a terrain tile or a shape of an entity
  for which neither condition holds, and so is the other shape of every collision record
  \<open>findMinShapeMovementCollision\<close> produces from the gathered shapes: the pair gets no
  record, and with no record no event.
\<close>

theorem jumpThrough_pairs_excluded:
  "(jumpThroughExcluded ent box other (getAABB other t) \<longrightarrow>
      \<not> includeEntity aabbCollides ent box other (getAABB other t) ignored sweep \<and>
      gatherShapes aabbCollides ent box ignored sweep t (other # rest) st =
        gatherShapes aabbCollides ent box ignored sweep t rest st) \<and>
   (\<forall>s \<in> set (fst (gatherTypes aabbCollides ent box ignored sweep found terrain ts ([], False))).
      (\<exists>t \<in> set ts. \<exists>tiles. found t = None \<and> terrain = Some tiles \<and> s \<in> set (tiles t)) \<or>
      (\<exists>t \<in> set ts. \<exists>others. found t = Some others \<and>
         (\<exists>other \<in> set others. s \<in> set (getShapes other t) \<and>
            \<not> jumpThroughExcluded ent box other (getAABB other t)))) \<and>
   (occurred (findMinShapeMovementCollision collides prevShape currentShape ax
        (fst (gatherTypes aabbCollides ent box ignored sweep found terrain ts ([], False)))) \<longrightarrow>
    (\<exists>s. thatShape (findMinShapeMovementCollision collides prevShape currentShape ax
              (fst (gatherTypes aabbCollides ent box ignored sweep found terrain ts ([], False))))
            = Some s \<and>
       ((\<exists>t \<in> set ts. \<exists>tiles. found t = None \<and> terrain = Some tiles \<and> s \<in> set (tiles t)) \<or>
        (\<exists>t \<in> set ts. \<exists>others. found t = Some others \<and>
           (\<exists>other \<in> set others. s \<in> set (getShapes other t) \<and>
              \<not> jumpThroughExcluded ent box other (getAABB other t))))))"
proof (intro conjI impI ballI)
  assume ex: "jumpThroughExcluded ent box other (getAABB other t)"
  show n: "\<not> includeEntity aabbCollides ent box other (getAABB other t) ignored sweep"
    by (rule includeEntity_excluded [OF ex])
  show "gatherShapes aabbCollides ent box ignored sweep t (other # rest) st =
        gatherShapes aabbCollides ent box ignored sweep t rest st"
    using n by simp
next
  fix s
  assume "s \<in> set (fst (gatherTypes aabbCollides ent box ignored sweep found terrain ts ([], False)))"
  from gatherTypes_sources [OF this]
  show "(\<exists>t \<in> set ts. \<exists>tiles. found t = None \<and> terrain = Some tiles \<and> s \<in> set (tiles t)) \<or>
      (\<exists>t \<in> set ts. \<exists>others. found t = Some others \<and>
         (\<exists>other \<in> set others. s \<in> set (getShapes other t) \<and>
            \<not> jumpThroughExcluded ent box other (getAABB other t)))"
    by simp
next
  let ?pcs = "fst (gatherTypes aabbCollides ent box ignored sweep found terrain ts ([], False))"
  assume "occurred (findMinShapeMovementCollision collides prevShape currentShape ax ?pcs)"
  from findMinShapeMovementCollision_thatShape [OF this]
  obtain s where s: "s \<in> set ?pcs"
    "thatShape (findMinShapeMovementCollision collides prevShape currentShape ax ?pcs) = Some s"
    by blast
  from gatherTypes_sources [OF s(1)] s(2)
  show "\<exists>s. thatShape (findMinShapeMovementCollision collides prevShape currentShape ax ?pcs) = Some s \<and>
       ((\<exists>t \<in> set ts. \<exists>tiles. found t = None \<and> terrain = Some tiles \<and> s \<in> set (tiles t)) \<or>
        (\<exists>t \<in> set ts. \<exists>others. found t = Some others \<and>
           (\<exists>other \<in> set others. s \<in> set (getShapes other t) \<and>
              \<not> jumpThroughExcluded ent box other (getAABB other t))))"
    by auto
qed

text \<open>
  A run of C10: a body rises from \<open>y = 60\<close> to \<open>y = 40\<close> through a jump-through platform at
  \<open>y = 50\<close>. The body's previous box reaches down to 65, below the platform's top at 45: the
  platform is not included although the swept box intersects it, nothing is gathered and no
  collision is recorded.
\<close>

theorem jumpThrough_pairs_excluded_witness:
  "overlapAABB (boxAt 0 50 5 15) (getAABB (boxEntity 2 True ''platform'' 0 50 20 5) ''platform'') \<and>
   \<not> includeEntity overlapAABB (boxEntity 1 False ''hero'' 0 40 5 5) (boxAt 0 60 5 5)
       (boxEntity 2 True ''platform'' 0 50 20 5)
       (getAABB (boxEntity 2 True ''platform'' 0 50 20 5) ''platform'') None (boxAt 0 50 5 15) \<and>
   gatherTypes overlapAABB (boxEntity 1 False ''hero'' 0 40 5 5) (boxAt 0 60 5 5) None
       (boxAt 0 50 5 15) (\<lambda>t. if t = ''platform'' then Some [boxEntity 2 True ''platform'' 0 50 20 5] else None)
       None [''platform''] ([], False) = ([], False) \<and>
   \<not> occurred (findMinShapeMovementCollision overlapShapes (rectangleAt (Some 1) ''hero'' 0 60 5 5)
        (rectangleAt (Some 1) ''hero'' 0 40 5 5) AxisY
        (fst (gatherTypes overlapAABB (boxEntity 1 False ''hero'' 0 40 5 5) (boxAt 0 60 5 5) None
           (boxAt 0 50 5 15)
           (\<lambda>t. if t = ''platform'' then Some [boxEntity 2 True ''platform'' 0 50 20 5] else None)
           None [''platform''] ([], False))))"
proof -
  let ?hero = "boxEntity 1 False ''hero'' 0 40 5 5"
  let ?platform = "boxEntity 2 True ''platform'' 0 50 20 5"
  let ?found = "\<lambda>t. if t = ''platform'' then Some [?platform] else None"
  have ex: "jumpThroughExcluded ?hero (boxAt 0 60 5 5) ?platform (getAABB ?platform ''platform'')"
    by (simp add: jumpThroughExcluded_def boxEntity_def boxAt_def jsub_def jgt_def)
  have ov: "overlapAABB (boxAt 0 50 5 15) (getAABB ?platform ''platform'')"
    by (simp add: overlapAABB_def boxEntity_def boxAt_def jsub_def)
  note c10 = jumpThrough_pairs_excluded
    [of ?hero "boxAt 0 60 5 5" ?platform "''platform''" overlapAABB None "boxAt 0 50 5 15" "[]"
        "([], False)" ?found None "[''platform'']" overlapShapes
        "rectangleAt (Some 1) ''hero'' 0 60 5 5" "rectangleAt (Some 1) ''hero'' 0 40 5 5" AxisY]
  have both: "\<not> includeEntity overlapAABB ?hero (boxAt 0 60 5 5) ?platform
               (getAABB ?platform ''platform'') None (boxAt 0 50 5 15) \<and>
             gatherShapes overlapAABB ?hero (boxAt 0 60 5 5) None (boxAt 0 50 5 15) ''platform''
                 [?platform] ([], False) =
             gatherShapes overlapAABB ?hero (boxAt 0 60 5 5) None (boxAt 0 50 5 15) ''platform''
                 [] ([], False)"
    by (rule c10 [THEN conjunct1, THEN mp, OF ex])
  have inc: "\<not> includeEntity overlapAABB ?hero (boxAt 0 60 5 5) ?platform
               (getAABB ?platform ''platform'') None (boxAt 0 50 5 15)"
    using both by (rule conjunct1)
  have skip: "gatherShapes overlapAABB ?hero (boxAt 0 60 5 5) None (boxAt 0 50 5 15) ''platform''
                 [?platform] ([], False) = ([], False)"
    using both by (simp only: gatherShapes.simps(1))
  have g: "gatherTypes overlapAABB ?hero (boxAt 0 60 5 5) None (boxAt 0 50 5 15) ?found None
             [''platform''] ([], False) = ([], False)"
    using skip by (simp only: gatherTypes.simps simp_thms if_True option.case)
  have "\<not> occurred (findMinShapeMovementCollision overlapShapes
             (rectangleAt (Some 1) ''hero'' 0 60 5 5) (rectangleAt (Some 1) ''hero'' 0 40 5 5) AxisY [])"
    by (simp add: findMinShapeMovementCollision_def resolveAlongAxis_def CollisionData_setUp_def
          Let_def)
  then show ?thesis using ov inc g by simp
qed

section \<open>Properties of the spatial grid\<close>

lemma collectTypes_vacant:
  assumes "\<forall>ty \<in> set types. list ty = None \<or> list ty = Some []"
  shows "collectTypes list types data = data"
  using assms by (induction types arbitrary: data) auto

lemma collectCells_vacant:
  assumes "vacant g types"
  shows "collectCells g ks types data = data"
proof (induction ks arbitrary: data)
  case Nil
  show ?case by simp
next
  case (Cons k ks)
  have "(case g k of None \<Rightarrow> data | Some list \<Rightarrow> collectTypes list (rev types) data) = data"
  proof (cases "g k")
    case None
    then show ?thesis by simp
  next
    case (Some list)
    have "\<forall>ty \<in> set (rev types). list ty = None \<or> list ty = Some []"
      using assms Some unfolding vacant_def by auto
    then show ?thesis
      using Some by (simp add: collectTypes_vacant)
  qed
  then show ?case
    by (simp add: Cons.IH)
qed

lemma addCollisionEntity_registers:
  assumes "addCollisionEntity gb gStart entStart = Inr (gNext, ent)"
  shows "againstGrid ent \<noteq> None \<and> againstAABB ent \<noteq> None"
  using assms
  by (auto simp: addCollisionEntity_def updateAgainst_def removeAgainst_def Let_def
           split: prod.splits if_splits)

text \<open>
  Claim C8, as the code has it. When no cell of the grid holds an entity under a requested
  type, as on a grid that was never populated and holds no cell, both queries return the
  empty result object for every swept box and every list of types, provided the entity
  passed to them is registered with the handler: its references and its box are set, as
  they are for every entity a call of \<open>addCollisionEntity\<close> has returned. For an entity
  whose references are not set \<open>getEntityAgainstGrid\<close> throws, and for an entity whose box is
  not set \<open>getAgainstGrid\<close> throws.
\<close>

theorem query_empty_grid:
  assumes "vacant g types"
  shows "(againstGrid ent \<noteq> None \<and> againstAABB ent \<noteq> None \<longrightarrow>
            getAgainstGrid gb g ent sweep types = Inr Map.empty \<and>
            getEntityAgainstGrid g ent types = Inr Map.empty) \<and>
         (addCollisionEntity gb gStart entStart = Inr (gNext, ent) \<longrightarrow>
            getAgainstGrid gb g ent sweep types = Inr Map.empty \<and>
            getEntityAgainstGrid g ent types = Inr Map.empty) \<and>
         (againstGrid ent = None \<longrightarrow> getEntityAgainstGrid g ent types = Inl TypeError) \<and>
         (againstAABB ent = None \<longrightarrow> getAgainstGrid gb g ent sweep types = Inl TypeError) \<and>
         vacant Map.empty types"
proof -
  have registered: "getAgainstGrid gb g ent sweep types = Inr Map.empty \<and>
            getEntityAgainstGrid g ent types = Inr Map.empty"
    if "againstGrid ent \<noteq> None \<and> againstAABB ent \<noteq> None"
    using that assms
    by (auto simp: getAgainstGrid_def getEntityAgainstGrid_def collectCells_vacant)
  have "vacant Map.empty types"
    by (simp add: vacant_def)
  then show ?thesis
    using registered addCollisionEntity_registers [of gb gStart entStart gNext ent]
    by (auto simp: getAgainstGrid_def getEntityAgainstGrid_def)
qed

text \<open>
  A run of C8: a body with the one collision type \<open>hero\<close> is registered with the empty grid
  and indexed in the cells with keys 0 and 1. No cell holds a \<open>wall\<close> or a \<open>coin\<close>, and the
  queries for these types, with the body and a swept box that spans the cell columns and
  rows 0 to 1, return the empty result.
\<close>

theorem query_empty_grid_witness:
  "addCollisionEntity 8 Map.empty (boxEntity 1 False ''hero'' 250 100 50 5)
     = Inr ([0 \<mapsto> [''hero'' \<mapsto> [1]], 1 \<mapsto> [''hero'' \<mapsto> [1]]],
            (boxEntity 1 False ''hero'' 250 100 50 5)
              \<lparr>againstGrid := Some [0, 1], againstAABB := Some (Cells 0 0 1 0)\<rparr>) \<and>
   getAgainstGrid 8 [0 \<mapsto> [''hero'' \<mapsto> [1]], 1 \<mapsto> [''hero'' \<mapsto> [1]]]
     ((boxEntity 1 False ''hero'' 250 100 50 5)
        \<lparr>againstGrid := Some [0, 1], againstAABB := Some (Cells 0 0 1 0)\<rparr>)
     (boxAt 250 250 50 50) [''wall'', ''coin''] = Inr Map.empty \<and>
   getEntityAgainstGrid [0 \<mapsto> [''hero'' \<mapsto> [1]], 1 \<mapsto> [''hero'' \<mapsto> [1]]]
     ((boxEntity 1 False ''hero'' 250 100 50 5)
        \<lparr>againstGrid := Some [0, 1], againstAABB := Some (Cells 0 0 1 0)\<rparr>)
     [''wall'', ''coin''] = Inr Map.empty"
proof -
  let ?e1 = "(boxEntity 1 False ''hero'' 250 100 50 5)
               \<lparr>againstGrid := Some [0, 1], againstAABB := Some (Cells 0 0 1 0)\<rparr>"
  let ?g1 = "[0 \<mapsto> [''hero'' \<mapsto> [1::nat]], (1::nat) \<mapsto> [''hero'' \<mapsto> [1]]]"
  have m: "mapDown 8 (boxAt 250 100 50 5) = (0, 0, 1, 0)"
    by (simp add: mapDown_def boxAt_def jsub_def shiftRight_def signed32_def)
  have c: "cellsOf (0, 0, 1, 0) = [0, 1]"
    by (simp add: cellsOf_def cellKey_def signed32_def upto.simps)
  have add: "addCollisionEntity 8 Map.empty (boxEntity 1 False ''hero'' 250 100 50 5) = Inr (?g1, ?e1)"
    by (simp add: addCollisionEntity_def updateAgainst_def m c removeAgainst_def boxEntity_def)
  have v: "vacant ?g1 [''wall'', ''coin'']"
    by (auto simp: vacant_def split: if_splits)
  from query_empty_grid
         [OF v, where ent = ?e1 and gb = 8 and sweep = "boxAt 250 250 50 50"
            and gStart = Map.empty and entStart = "boxEntity 1 False ''hero'' 250 100 50 5"
            and gNext = ?g1] add
  have "getAgainstGrid 8 ?g1 ?e1 (boxAt 250 250 50 50) [''wall'', ''coin''] = Inr Map.empty \<and>
     getEntityAgainstGrid ?g1 ?e1 [''wall'', ''coin''] = Inr Map.empty"
    by blast
  then show ?thesis
    using add by blast
qed

text \<open>
  Claim C8 as stated fails for an entity that is not registered. \<open>addCollisionEntity\<close> sets
  the references and the box of an entity and indexes it at once, so while the grid was
  never populated no entity has them, and both queries throw on reading them.
\<close>

theorem query_unregistered_counterexample:
  "getEntityAgainstGrid Map.empty (boxEntity 1 False ''hero'' 250 100 50 5) [''wall'', ''hero'']
     = Inl TypeError \<and>
   getAgainstGrid 8 Map.empty (boxEntity 1 False ''hero'' 250 100 50 5) (boxAt 250 250 50 50)
     [''wall'', ''hero''] = Inl TypeError"
  by (simp add: getEntityAgainstGrid_def getAgainstGrid_def boxEntity_def)











section \<open>Properties of the soft pass\<close>

lemma softEntityStep_sideless:
  "sideless st \<Longrightarrow> sideless (softEntityStep aabbCollides collides ent ct ot other st)"
  by (auto simp: softEntityStep_def sideless_def noSide_def Let_def split: option.splits)

lemma softEntities_sideless:
  "sideless st \<Longrightarrow>
   sideless (fold (\<lambda>i. softEntityStep aabbCollides collides ent ct ot (store i)) ids st)"
  by (induction ids arbitrary: st) (simp_all add: softEntityStep_sideless)

lemma softOtherTypes_sideless:
  "sideless st \<Longrightarrow> sideless (softOtherTypes aabbCollides collides store ent ct found ots st)"
proof (induction ots arbitrary: st)
  case Nil
  then show ?case by simp
next
  case (Cons ot ots)
  have "sideless (case found ot of None \<Rightarrow> st
          | Some otherEntities \<Rightarrow>
              fold (\<lambda>i. softEntityStep aabbCollides collides ent ct ot (store i))
                (rev otherEntities) st)"
    using Cons.prems by (simp add: softEntities_sideless split: option.splits)
  from Cons.IH [OF this] show ?case by simp
qed

lemma softTypes_sideless:
  "sideless st \<Longrightarrow> sideless (fst (softTypes aabbCollides collides g store ent cts st))"
proof (induction cts arbitrary: st)
  case Nil
  then show ?case by simp
next
  case (Cons ct cts)
  show ?case
  proof (cases "getEntityAgainstGrid g ent (softCollisionMap ent ct)")
    case (Inl err)
    then show ?thesis using Cons.prems by simp
  next
    case (Inr found)
    have "sideless (softOtherTypes aabbCollides collides store ent ct found
                      (rev (softCollisionMap ent ct)) st)"
      using Cons.prems by (rule softOtherTypes_sideless)
    from Cons.IH [OF this] show ?thesis using Inr by simp
  qed
qed

lemma checkEntityForSoftCollisions_sideless:
  "sideless (fst (checkEntityForSoftCollisions aabbCollides collides g store ent msg))"
  unfolding checkEntityForSoftCollisions_def
  by (rule softTypes_sideless) (simp add: sideless_def noSide_def)

lemma softLoop_frame:
  "entityStore (softLoop aabbCollides collides ids w) = entityStore w \<and>
   handlerGrid (softLoop aabbCollides collides ids w) = handlerGrid w \<and>
   softEntitiesLive (softLoop aabbCollides collides ids w) = softEntitiesLive w"
proof (induction ids arbitrary: w)
  case Nil
  show ?case by simp
next
  case (Cons i ids)
  show ?case
  proof (cases "thrown w")
    case (Some err)
    then show ?thesis by simp
  next
    case None
    obtain st err where c:
      "checkEntityForSoftCollisions aabbCollides collides (handlerGrid w) (entityStore w)
         (entityStore w i) (sharedMessage w) = (st, err)"
      by (cases "checkEntityForSoftCollisions aabbCollides collides (handlerGrid w) (entityStore w)
         (entityStore w i) (sharedMessage w)")
    let ?w = "w\<lparr>sharedMessage := message st,
                 triggered := triggered w @ map (softEvent i) (delivered st), thrown := err\<rparr>"
    have "softLoop aabbCollides collides (i # ids) w = softLoop aabbCollides collides ids ?w"
      using None c by simp
    then show ?thesis using Cons.IH [of ?w] by simp
  qed
qed

lemma softLoop_events:
  "\<exists>new. triggered (softLoop aabbCollides collides ids w) = triggered w @ new \<and>
         (\<forall>e \<in> set new. noSide (payload e))"
proof (induction ids arbitrary: w)
  case Nil
  show ?case by simp
next
  case (Cons i ids)
  show ?case
  proof (cases "thrown w")
    case (Some err)
    then show ?thesis by simp
  next
    case None
    obtain st err where c:
      "checkEntityForSoftCollisions aabbCollides collides (handlerGrid w) (entityStore w)
         (entityStore w i) (sharedMessage w) = (st, err)"
      by (cases "checkEntityForSoftCollisions aabbCollides collides (handlerGrid w) (entityStore w)
         (entityStore w i) (sharedMessage w)")
    let ?w = "w\<lparr>sharedMessage := message st,
                 triggered := triggered w @ map (softEvent i) (delivered st), thrown := err\<rparr>"
    have "sideless st"
      using checkEntityForSoftCollisions_sideless [of aabbCollides collides "handlerGrid w"
          "entityStore w" "entityStore w i" "sharedMessage w"] c by simp
    then have d: "\<forall>e \<in> set (map (softEvent i) (delivered st)). noSide (payload e)"
      by (simp add: sideless_def softEvent_def)
    from Cons.IH [of ?w] obtain new where
      new: "triggered (softLoop aabbCollides collides ids ?w) = triggered ?w @ new"
        "\<forall>e \<in> set new. noSide (payload e)"
      by blast
    have step: "softLoop aabbCollides collides (i # ids) w = softLoop aabbCollides collides ids ?w"
      using None c by simp
    have "triggered (softLoop aabbCollides collides (i # ids) w)
            = triggered w @ (map (softEvent i) (delivered st) @ new)"
      using new(1) step by simp
    moreover have "\<forall>e \<in> set (map (softEvent i) (delivered st) @ new). noSide (payload e)"
      using d new(2) by (simp only: set_append) blast
    ultimately show ?thesis by blast
  qed
qed

lemma softWorld_run:
  "checkEntityForSoftCollisions overlapAABB overlapShapes (handlerGrid softWorld)
     (entityStore softWorld) softHero solidMessage =
   (\<lparr>message = solidMessage\<lparr>xM := Fin 0, yM := Fin 0, entityM := Some 2, typeM := Some ''coin'',
                              myTypeM := Some ''hero'',
                              shapeM := Some (rectangleAt (Some 2) ''coin'' 280 100 5 5),
                              hitTypeM := Some ''soft''\<rparr>,
     delivered = [solidMessage\<lparr>xM := Fin 0, yM := Fin 0, entityM := Some 2, typeM := Some ''coin'',
                               myTypeM := Some ''hero'',
                               shapeM := Some (rectangleAt (Some 2) ''coin'' 280 100 5 5),
                               hitTypeM := Some ''soft''\<rparr>]\<rparr>, None)"
  by (simp add: checkEntityForSoftCollisions_def softWorld_def softHero_def softCoin_def
        boxEntity_def getEntityAgainstGrid_def softEntityStep_def firstCollidingShape_def
        overlapAABB_def overlapShapes_def boxAt_def jsub_def rectangleAt_def solidMessage_def Let_def)

text \<open>
  Claim C4. The soft pass leaves the entities as they are: after \<open>checkSoftCollisions\<close>, run
  from any state of the world and with any intersection tests, every entity has the position
  and the previous position it had before, however many events the pass triggered, and the
  grid is unchanged too. Delivery of an event is outside the handler and is recorded, not
  run.
\<close>

theorem soft_pass_keeps_positions:
  "entityStore (checkSoftCollisions aabbCollides collides w) = entityStore w \<and>
   handlerGrid (checkSoftCollisions aabbCollides collides w) = handlerGrid w \<and>
   positionX (entityStore (checkSoftCollisions aabbCollides collides w) i)
     = positionX (entityStore w i) \<and>
   positionY (entityStore (checkSoftCollisions aabbCollides collides w) i)
     = positionY (entityStore w i) \<and>
   previousX (entityStore (checkSoftCollisions aabbCollides collides w) i)
     = previousX (entityStore w i) \<and>
   previousY (entityStore (checkSoftCollisions aabbCollides collides w) i)
     = previousY (entityStore w i)"
  using softLoop_frame [of aabbCollides collides "rev (softEntitiesLive w)" w]
  by (simp add: checkSoftCollisions_def)

text \<open>
  A run of C4: the pass over the small world triggers one event on the body, and the body and
  the coin stay where they were.
\<close>

theorem soft_pass_keeps_positions_witness:
  "length (triggered (checkSoftCollisions overlapAABB overlapShapes softWorld)) = 1 \<and>
   positionX (entityStore (checkSoftCollisions overlapAABB overlapShapes softWorld) 1) = Fin 250 \<and>
   previousX (entityStore (checkSoftCollisions overlapAABB overlapShapes softWorld) 1) = Fin 250 \<and>
   positionX (entityStore (checkSoftCollisions overlapAABB overlapShapes softWorld) 2) = Fin 280 \<and>
   positionY (entityStore (checkSoftCollisions overlapAABB overlapShapes softWorld) 2) = Fin 100"
proof -
  have run: "checkEntityForSoftCollisions overlapAABB overlapShapes (handlerGrid softWorld)
     (entityStore softWorld) (entityStore softWorld (Suc 0)) (sharedMessage softWorld)
     = checkEntityForSoftCollisions overlapAABB overlapShapes (handlerGrid softWorld)
     (entityStore softWorld) softHero solidMessage"
    by (simp add: softWorld_def)
  have live: "softEntitiesLive softWorld = [1]" "thrown softWorld = None" "triggered softWorld = []"
    by (simp_all add: softWorld_def)
  have n: "length (triggered (checkSoftCollisions overlapAABB overlapShapes softWorld)) = 1"
    by (simp add: checkSoftCollisions_def live run softWorld_run)
  have before: "positionX (entityStore softWorld 1) = Fin 250"
    "previousX (entityStore softWorld 1) = Fin 250"
    "positionX (entityStore softWorld 2) = Fin 280"
    "positionY (entityStore softWorld 2) = Fin 100"
    by (simp_all add: softWorld_def softHero_def softCoin_def boxEntity_def)
  from soft_pass_keeps_positions [of overlapAABB overlapShapes softWorld 1]
    soft_pass_keeps_positions [of overlapAABB overlapShapes softWorld 2] before n
  show ?thesis by simp
qed

text \<open>
  Claim C9. Every message \<open>checkEntityForSoftCollisions\<close> passes to its callback has
  \<open>x = 0\<close> and \<open>y = 0\<close>, whatever the shared message held before (a solid pass leaves the
  side of its last collision there) and wherever the shapes are. So has every collision
  \<open>getEntityCollisions\<close> returns and every event \<open>checkSoftCollisions\<close> adds to those
  triggered before.
\<close>

theorem soft_events_report_no_side:
  "(\<forall>m \<in> set (delivered (fst (checkEntityForSoftCollisions aabbCollides collides g store ent msg))).
      xM m = Fin 0 \<and> yM m = Fin 0) \<and>
   (\<forall>ms. getEntityCollisions aabbCollides collides g store ent msg = Inr ms \<longrightarrow>
      (\<forall>m \<in> set ms. xM m = Fin 0 \<and> yM m = Fin 0)) \<and>
   (\<exists>new. triggered (checkSoftCollisions aabbCollides collides w) = triggered w @ new \<and>
      (\<forall>e \<in> set new. xM (payload e) = Fin 0 \<and> yM (payload e) = Fin 0))"
proof (intro conjI allI impI)
  have s: "sideless (fst (checkEntityForSoftCollisions aabbCollides collides g store ent msg))"
    by (rule checkEntityForSoftCollisions_sideless)
  then show d: "\<forall>m \<in> set (delivered (fst (checkEntityForSoftCollisions aabbCollides collides g store ent msg))).
      xM m = Fin 0 \<and> yM m = Fin 0"
    by (simp add: sideless_def noSide_def)
  fix ms
  assume "getEntityCollisions aabbCollides collides g store ent msg = Inr ms"
  then have "ms = delivered (fst (checkEntityForSoftCollisions aabbCollides collides g store ent msg))"
    by (auto simp: getEntityCollisions_def split: prod.splits option.splits)
  then show "\<forall>m \<in> set ms. xM m = Fin 0 \<and> yM m = Fin 0"
    using d by simp
next
  from softLoop_events [of aabbCollides collides "rev (softEntitiesLive w)" w]
  show "\<exists>new. triggered (checkSoftCollisions aabbCollides collides w) = triggered w @ new \<and>
      (\<forall>e \<in> set new. xM (payload e) = Fin 0 \<and> yM (payload e) = Fin 0)"
    by (simp add: checkSoftCollisions_def noSide_def)
qed

text \<open>
  A run of C9: the shared message holds \<open>x = 1\<close> from a solid collision; the one message the
  soft pass delivers for the body and the coin has \<open>x = 0\<close> and \<open>y = 0\<close>.
\<close>

theorem soft_events_report_no_side_witness:
  "xM solidMessage = Fin 1 \<and>
   map (\<lambda>m. (entityM m, typeM m, hitTypeM m, xM m, yM m))
     (delivered (fst (checkEntityForSoftCollisions overlapAABB overlapShapes (handlerGrid softWorld)
        (entityStore softWorld) softHero solidMessage)))
     = [(Some 2, Some ''coin'', Some ''soft'', Fin 0, Fin 0)]"
proof -
  let ?run = "delivered (fst (checkEntityForSoftCollisions overlapAABB overlapShapes
                (handlerGrid softWorld) (entityStore softWorld) softHero solidMessage))"
  have before: "xM solidMessage = Fin 1" by (simp add: solidMessage_def)
  have one: "map (\<lambda>m. (entityM m, typeM m, hitTypeM m)) ?run = [(Some 2, Some ''coin'', Some ''soft'')]"
    by (simp add: softWorld_run)
  then obtain m where m: "?run = [m]" "entityM m = Some 2" "typeM m = Some ''coin''"
    "hitTypeM m = Some ''soft''"
    by auto
  have "xM m = Fin 0 \<and> yM m = Fin 0"
    using soft_events_report_no_side
      [of overlapAABB overlapShapes "handlerGrid softWorld" "entityStore softWorld" softHero
          solidMessage softWorld, THEN conjunct1] m(1)
    by simp
  then show ?thesis using before m by simp
qed

section \<open>Properties of the order of resolution\<close>

lemma groupsLive_sorted:
  "sorted_wrt (\<lambda>a b. getAllEntities a \<le> getAllEntities b) (groupsLive all)"
  using sorted_sort_key [of getAllEntities
      "filter (\<lambda>ent. isLive ent \<and> collisionGroup ent \<noteq> None) (rev all)"]
  by (simp add: groupsLive_def sorted_map)

lemma checkGroupCollisions_sorted:
  "sorted_wrt (\<lambda>a b. getAllEntities b \<le> getAllEntities a) (checkGroupCollisions all)"
  unfolding checkGroupCollisions_def
  by (rule sorted_wrt_filter) (simp add: sorted_wrt_rev groupsLive_sorted)

lemma countMember_plain:
  assumes "ident m = ownerId \<or> collisionGroup m = None"
  shows "countMember ownerId m = 1"
  using assms by (cases m) (auto split: option.splits)

lemma sum_list_ones:
  "\<forall>m \<in> set ms. f m = (1::nat) \<Longrightarrow> sum_list (map f ms) = length ms"
  by (induction ms) simp_all

lemma getAllEntities_flat:
  assumes "collisionGroup ent = Some members"
    and "\<forall>m \<in> set members. ident m = ident ent \<or> collisionGroup m = None"
  shows "getAllEntities ent = getSize ent"
  using assms sum_list_ones [of members "countMember (ident ent)"]
  by (simp add: getAllEntities_def getSize_def countMember_plain)

text \<open>
  Claim C7. The multi-member groups are resolved in descending order of member count, the
  count being \<open>getAllEntities()\<close>, by which \<open>groupSortBySize\<close> sorts: of any two groups
  resolved in the pass, one with a larger count is resolved before one with a smaller count.
  The groups resolved are exactly the live entities that own a group with more than one
  member. For a group none of whose members, the owner apart, owns a group, the count is the
  number of members, \<open>getSize()\<close>; members of nested groups are counted as well.
\<close>

theorem groups_resolved_largest_first:
  "sorted_wrt (\<lambda>a b. getAllEntities b \<le> getAllEntities a) (checkGroupCollisions all) \<and>
   (\<forall>i j. i < length (checkGroupCollisions all) \<and> j < length (checkGroupCollisions all) \<and>
           getAllEntities (checkGroupCollisions all ! j) < getAllEntities (checkGroupCollisions all ! i)
           \<longrightarrow> i < j) \<and>
   set (checkGroupCollisions all) = {ent \<in> set all. isLive ent \<and> 1 < getSize ent} \<and>
   (\<forall>ent members.
      collisionGroup ent = Some members \<and>
      (\<forall>m \<in> set members. ident m = ident ent \<or> collisionGroup m = None)
      \<longrightarrow> getAllEntities ent = getSize ent)"
proof (intro conjI allI impI)
  fix ent members
  assume "collisionGroup ent = Some members \<and>
      (\<forall>m \<in> set members. ident m = ident ent \<or> collisionGroup m = None)"
  then show "getAllEntities ent = getSize ent"
    using getAllEntities_flat [of ent members] by blast
next
  show s: "sorted_wrt (\<lambda>a b. getAllEntities b \<le> getAllEntities a) (checkGroupCollisions all)"
    by (rule checkGroupCollisions_sorted)
  show "set (checkGroupCollisions all) = {ent \<in> set all. isLive ent \<and> 1 < getSize ent}"
    by (auto simp: checkGroupCollisions_def groupsLive_def getSize_def split: option.splits)
  fix i j
  assume a: "i < length (checkGroupCollisions all) \<and> j < length (checkGroupCollisions all) \<and>
           getAllEntities (checkGroupCollisions all ! j) < getAllEntities (checkGroupCollisions all ! i)"
  show "i < j"
  proof (rule ccontr)
    assume "\<not> i < j"
    then consider "i = j" | "j < i" by linarith
    then show False
    proof cases
      case 1
      then show False using a by simp
    next
      case 2
      then have "getAllEntities (checkGroupCollisions all ! i) \<le> getAllEntities (checkGroupCollisions all ! j)"
        using s a by (simp add: sorted_wrt_iff_nth_less)
      then show False using a by simp
    qed
  qed
qed


text \<open>
  A run of C7: the platform counts 3 entities, the carrier 5 (one member and the four of the
  nested group), the group of one is not resolved. The carrier is resolved first.
\<close>

theorem groups_resolved_largest_first_witness:
  "checkGroupCollisions [platformGroup, loneGroup, carrierGroup] = [carrierGroup, platformGroup] \<and>
   getAllEntities carrierGroup = 5 \<and> getAllEntities platformGroup = 3 \<and>
   sorted_wrt (\<lambda>a b. getAllEntities b \<le> getAllEntities a)
     (checkGroupCollisions [platformGroup, loneGroup, carrierGroup])"
proof -
  have c: "getAllEntities carrierGroup = 5" "getAllEntities platformGroup = 3"
    "getAllEntities loneGroup = 1"
    by (simp_all add: getAllEntities_def carrierGroup_def platformGroup_def loneGroup_def
          plainMember_def)
  have "checkGroupCollisions [platformGroup, loneGroup, carrierGroup] = [carrierGroup, platformGroup]"
    by (simp add: checkGroupCollisions_def groupsLive_def c)
       (simp add: isLive_def getSize_def carrierGroup_def platformGroup_def loneGroup_def
          plainMember_def)
  then show ?thesis
    using c groups_resolved_largest_first [of "[platformGroup, loneGroup, carrierGroup]"]
    by (intro conjI) (simp_all only: simp_thms)
qed

end
